(* ===== verification/Prelude.thy ===== *)
theory Prelude
  imports Main "HOL-Library.List_Lexorder" "HOL-Library.Char_ord" "HOL-Library.Sublist"
begin

text \<open>
  Shared vocabulary of the development: the types the components exchange (byte strings, paths,
  instants, results with an error or a value), the rule collections the component theories add
  to, and the generic facts on lists, maps and sums that several of them use.

  A Go string or byte slice is a HOL \<open>string\<close>, one \<open>char\<close> per byte; Go's \<open><\<close>
  on strings and \<open>sort.Strings\<close> are the byte-wise lexicographic order of
  \<open>List_Lexorder\<close> over \<open>Char_ord\<close>. A function with an \<open>error\<close> result
  returns a sum, \<open>Inl\<close> for the error. A \<open>time.Time\<close> is the number of nanoseconds
  since Go's zero time, so \<open>IsZero\<close> is equality with 0.
\<close>

type_synonym bytes = string
type_synonym path = string
type_synonym gotime = int

named_theorems string_facts "facts on the string routines of the Go library"
named_theorems fs_frame "which files an operation on the file system leaves alone"

subsection \<open>Results\<close>

definition is_ok :: "'e + 'a \<Rightarrow> bool" where
  "is_ok r = (case r of Inl _ \<Rightarrow> False | Inr _ \<Rightarrow> True)"

lemma is_ok_simps [simp]: "is_ok (Inr x)" "\<not> is_ok (Inl e)"
  by (simp_all add: is_ok_def)

lemma is_ok_iff: "is_ok r \<longleftrightarrow> (\<exists>x. r = Inr x)"
  by (cases r) auto

text \<open>
  \<open>check c e k\<close> is the early return \<open>if c { return e }\<close> followed by the rest of the
  function, \<open>k\<close>.
\<close>

definition check :: "bool \<Rightarrow> 'e \<Rightarrow> ('e + 'a) \<Rightarrow> 'e + 'a" where
  "check c e k = (if c then Inl e else k)"

lemma check_Inr [simp]: "check c e k = Inr x \<longleftrightarrow> \<not> c \<and> k = Inr x"
  by (simp add: check_def)

lemma check_simps [simp]: "check True e k = Inl e" "check False e k = k"
  by (simp_all add: check_def)

lemma is_ok_Inr: "is_ok r \<Longrightarrow> \<exists>x. r = Inr x"
  by (cases r) auto

lemma not_ok_Inl: "\<not> is_ok r \<Longrightarrow> \<exists>e. r = Inl e"
  by (cases r) auto

lemma find_append_None: "find P xs = None \<Longrightarrow> find P (xs @ ys) = find P ys"
  by (induction xs) (auto split: if_splits)

text \<open>Running a fallible step and handing its value to the rest of the function.\<close>

definition andthen :: "('e + 'a) \<Rightarrow> ('a \<Rightarrow> 'e + 'b) \<Rightarrow> 'e + 'b" where
  "andthen r k = (case r of Inl e \<Rightarrow> Inl e | Inr x \<Rightarrow> k x)"

lemma andthen_simps [simp]: "andthen (Inl e) k = Inl e" "andthen (Inr x) k = k x"
  by (simp_all add: andthen_def)

lemma andthen_Inr [simp]: "andthen r k = Inr y \<longleftrightarrow> (\<exists>x. r = Inr x \<and> k x = Inr y)"
  by (cases r) auto

text \<open>Changing the error type, as \<open>fmt.Errorf("...: %w", err)\<close> wraps an error.\<close>

definition wrap_err :: "('e \<Rightarrow> 'f) \<Rightarrow> 'e + 'a \<Rightarrow> 'f + 'a" where
  "wrap_err f r = (case r of Inl e \<Rightarrow> Inl (f e) | Inr x \<Rightarrow> Inr x)"

lemma wrap_err_simps [simp]: "wrap_err f (Inl e) = Inl (f e)" "wrap_err f (Inr x) = Inr x"
  by (simp_all add: wrap_err_def)

lemma wrap_err_Inr [simp]: "wrap_err f r = Inr x \<longleftrightarrow> r = Inr x"
  by (cases r) auto

subsection \<open>Lists\<close>

text \<open>The last \<open>n\<close> elements of a list: what a bounded window of recent items holds.\<close>

definition lastn :: "nat \<Rightarrow> 'a list \<Rightarrow> 'a list" where
  "lastn n xs = drop (length xs - n) xs"

lemma length_lastn [simp]: "length (lastn n xs) = min n (length xs)"
  by (simp add: lastn_def)

lemma lastn_all: "length xs \<le> n \<Longrightarrow> lastn n xs = xs"
  by (simp add: lastn_def)

lemma lastn_0 [simp]: "lastn 0 xs = []"
  by (simp add: lastn_def)

lemma lastn_Nil [simp]: "lastn n [] = []"
  by (simp add: lastn_def)

lemma lastn_snoc: "0 < n \<Longrightarrow> lastn n (xs @ [x]) = lastn (n - 1) xs @ [x]"
  by (simp add: lastn_def Suc_diff_le)

lemma set_lastn: "set (lastn n xs) \<subseteq> set xs"
  by (simp add: lastn_def set_drop_subset)

lemma nth_lastn: "i < n \<Longrightarrow> n \<le> length xs \<Longrightarrow> lastn n xs ! i = xs ! (length xs - n + i)"
  by (simp add: lastn_def)

lemma mod_add_small: "(a::nat) < n \<Longrightarrow> b \<le> n \<Longrightarrow>
    (a + b) mod n = (if a + b < n then a + b else a + b - n)"
  by (auto simp: mod_if)

lemma distinct_set_sorted_unique:
  "sorted xs \<Longrightarrow> distinct xs \<Longrightarrow> sorted ys \<Longrightarrow> distinct ys \<Longrightarrow> set xs = set ys \<Longrightarrow> xs = ys"
  by (rule sorted_distinct_set_unique)

subsection \<open>Maps\<close>

text \<open>
  Writing one key after another, as a loop of \<open>m[f x] = g x\<close> does: the last write to a key
  wins.
\<close>

primrec put_all :: "('a \<Rightarrow> 'k) \<Rightarrow> ('a \<Rightarrow> 'v) \<Rightarrow> ('k \<rightharpoonup> 'v) \<Rightarrow> 'a list \<Rightarrow> ('k \<rightharpoonup> 'v)" where
  "put_all f g m [] = m"
| "put_all f g m (x # xs) = put_all f g (m(f x \<mapsto> g x)) xs"

lemma put_all_append [simp]: "put_all f g m (xs @ ys) = put_all f g (put_all f g m xs) ys"
  by (induction xs arbitrary: m) auto

lemma dom_put_all: "dom (put_all f g m xs) = f ` set xs \<union> dom m"
  by (induction xs arbitrary: m) auto

lemma put_all_other: "k \<notin> f ` set xs \<Longrightarrow> put_all f g m xs k = m k"
  by (induction xs arbitrary: m) auto

lemma put_all_distinct:
  "distinct (map f xs) \<Longrightarrow> x \<in> set xs \<Longrightarrow> put_all f g m xs (f x) = Some (g x)"
proof (induction xs arbitrary: m)
  case Nil
  then show ?case by simp
next
  case (Cons y ys)
  then show ?case by (cases "x = y") (auto simp: put_all_other)
qed

lemma put_all_some:
  "put_all f g Map.empty xs k = Some v \<Longrightarrow> \<exists>x\<in>set xs. f x = k \<and> g x = v"
  by (induction xs rule: rev_induct) (auto split: if_splits)

lemma put_all_find:
  "distinct (map f xs) \<Longrightarrow>
     put_all f g m xs k = (case find (\<lambda>x. f x = k) xs of None \<Rightarrow> m k | Some x \<Rightarrow> Some (g x))"
proof (induction xs arbitrary: m)
  case Nil
  then show ?case by simp
next
  case (Cons x xs)
  have "find (\<lambda>y. f y = k) xs = None" if "f x = k"
    using Cons.prems that by (auto simp: find_None_iff) (metis image_eqI)
  with Cons show ?case by (auto split: option.splits)
qed

end
