(* ===== verification/GoStrings.thy ===== *)
theory GoStrings
  imports Prelude
begin

text \<open>
  The routines of Go's \<open>strings\<close>, \<open>strconv\<close>, \<open>unicode/utf8\<close>, \<open>net\<close>,
  \<open>net/textproto\<close> and \<open>fmt\<close> packages the program calls, on byte strings. Each is
  written from the documented behaviour of the library function; where a routine depends on the
  Unicode tables, the text at the definition says for which arguments it is exact, and these are
  the arguments the program passes.
\<close>

section \<open>Bytes\<close>

abbreviation byte :: "char \<Rightarrow> nat" where "byte c \<equiv> of_char c"

definition is_lower :: "char \<Rightarrow> bool" where "is_lower c = (97 \<le> byte c \<and> byte c \<le> 122)"
definition is_upper :: "char \<Rightarrow> bool" where "is_upper c = (65 \<le> byte c \<and> byte c \<le> 90)"
definition is_digit :: "char \<Rightarrow> bool" where "is_digit c = (48 \<le> byte c \<and> byte c \<le> 57)"
definition is_letter :: "char \<Rightarrow> bool" where "is_letter c = (is_lower c \<or> is_upper c)"
definition is_ascii :: "char \<Rightarrow> bool" where "is_ascii c = (byte c < 128)"

lemmas char_class_defs = is_lower_def is_upper_def is_digit_def is_letter_def is_ascii_def

lemma byte_eq_iff [simp]: "byte c = byte d \<longleftrightarrow> c = d"
  by (rule of_char_eq_iff)

lemma byte_char_of [simp]: "n < 256 \<Longrightarrow> byte (char_of n) = n"
  by (simp add: of_char_of)

definition ascii_lower :: "char \<Rightarrow> char" where
  "ascii_lower c = (if is_upper c then char_of (byte c + 32) else c)"

definition ascii_upper :: "char \<Rightarrow> char" where
  "ascii_upper c = (if is_lower c then char_of (byte c - 32) else c)"

lemma byte_ascii_lower: "byte (ascii_lower c) = (if is_upper c then byte c + 32 else byte c)"
  by (simp add: ascii_lower_def is_upper_def)

lemma ascii_lower_idem [simp]: "ascii_lower (ascii_lower c) = ascii_lower c"
  by (simp add: ascii_lower_def is_upper_def)

section \<open>Searching and splitting\<close>

text \<open>\<open>strings.HasPrefix\<close>, \<open>strings.HasSuffix\<close> and \<open>strings.TrimPrefix\<close>.\<close>

definition has_prefix :: "string \<Rightarrow> string \<Rightarrow> bool" where
  "has_prefix s p = prefix p s"

definition has_suffix :: "string \<Rightarrow> string \<Rightarrow> bool" where
  "has_suffix s p = suffix p s"

definition trim_prefix :: "string \<Rightarrow> string \<Rightarrow> string" where
  "trim_prefix s p = (if prefix p s then drop (length p) s else s)"

text \<open>\<open>strings.Contains\<close>: some suffix of the text starts with the pattern.\<close>

fun contains :: "string \<Rightarrow> string \<Rightarrow> bool" where
  "contains [] p = (p = [])"
| "contains (c # cs) p = (prefix p (c # cs) \<or> contains cs p)"

lemma contains_iff: "contains s p \<longleftrightarrow> (\<exists>u v. s = u @ p @ v)"
proof (induction s)
  case Nil
  then show ?case by simp
next
  case (Cons c cs)
  have "(\<exists>u v. c # cs = u @ p @ v) \<longleftrightarrow> prefix p (c # cs) \<or> (\<exists>u v. cs = u @ p @ v)"
    by (auto simp: prefix_def Cons_eq_append_conv)
  with Cons.IH show ?case by simp
qed

text \<open>\<open>strings.ContainsAny(s, chars)\<close> for an ASCII set of characters.\<close>

definition contains_any :: "string \<Rightarrow> string \<Rightarrow> bool" where
  "contains_any s cs = list_ex (\<lambda>c. c \<in> set cs) s"

text \<open>\<open>strings.IndexByte\<close>, \<open>None\<close> for -1.\<close>

fun index_byte :: "string \<Rightarrow> char \<Rightarrow> nat option" where
  "index_byte [] b = None"
| "index_byte (c # cs) b = (if c = b then Some 0 else map_option Suc (index_byte cs b))"

lemma index_byte_None [simp]: "index_byte s b = None \<longleftrightarrow> b \<notin> set s"
  by (induction s) auto

lemma index_byte_Some:
  "index_byte s b = Some n \<Longrightarrow> n < length s \<and> s ! n = b \<and> b \<notin> set (take n s)"
  by (induction s arbitrary: n) (auto split: if_splits)

lemma index_byte_append:
  "b \<notin> set xs \<Longrightarrow> index_byte (xs @ b # ys) b = Some (length xs)"
  by (induction xs) auto

text \<open>\<open>strings.Split\<close> by a separator of one byte; splitting the empty string gives one empty part.\<close>

fun split_on :: "char \<Rightarrow> string \<Rightarrow> string list" where
  "split_on b [] = [[]]"
| "split_on b (c # cs) =
     (if c = b then [] # split_on b cs
      else (case split_on b cs of [] \<Rightarrow> [[c]] | p # ps \<Rightarrow> (c # p) # ps))"

text \<open>\<open>strings.Join\<close>.\<close>

fun join :: "string \<Rightarrow> string list \<Rightarrow> string" where
  "join sep [] = []"
| "join sep [s] = s"
| "join sep (s # t # ts) = s @ sep @ join sep (t # ts)"

lemma split_on_not_Nil [simp]: "split_on b s \<noteq> []"
  by (induction s) (auto split: list.splits)

lemma length_split_on: "length (split_on b s) = Suc (count_list s b)"
  by (induction s) (auto split: list.splits)

lemma split_on_parts: "p \<in> set (split_on b s) \<Longrightarrow> b \<notin> set p"
  by (induction s arbitrary: p) (auto split: list.splits if_splits)

lemma join_split_on: "join [b] (split_on b s) = s"
proof (induction s)
  case Nil
  then show ?case by simp
next
  case (Cons c cs)
  obtain p ps where s: "split_on b cs = p # ps"
    by (cases "split_on b cs") auto
  with Cons.IH show ?case by (cases ps) auto
qed

lemma split_on_single: "b \<notin> set s \<Longrightarrow> split_on b s = [s]"
  by (induction s) auto

lemma split_on_append: "b \<notin> set p \<Longrightarrow> split_on b (p @ b # s) = p # split_on b s"
  by (induction p) auto

lemma split_on_join:
  "ps \<noteq> [] \<Longrightarrow> (\<And>p. p \<in> set ps \<Longrightarrow> b \<notin> set p) \<Longrightarrow> split_on b (join [b] ps) = ps"
proof (induction ps)
  case Nil
  then show ?case by simp
next
  case (Cons p ps)
  show ?case
  proof (cases ps)
    case Nil
    with Cons.prems show ?thesis by (simp add: split_on_single)
  next
    case (Cons q qs)
    have "split_on b (join [b] ps) = ps"
      using Cons Cons.prems by (intro Cons.IH) auto
    with Cons Cons.prems show ?thesis by (simp add: split_on_append)
  qed
qed

section \<open>White space and case\<close>

text \<open>
  \<open>strings.TrimSpace\<close> removes the white space of \<open>unicode.IsSpace\<close> at both ends. The UTF-8
  encodings of these code points are listed; stripping an encoding from the front or from the
  back is what decoding the first or the last rune does, since UTF-8 is self-synchronising.
\<close>

definition space_encodings :: "string list" where
  "space_encodings = map (map char_of)
     ([[9], [10], [11], [12], [13], [32], [194, 133], [194, 160], [225, 154, 128]]
      @ map (\<lambda>n. [226, 128, n]) [128, 129, 130, 131, 132, 133, 134, 135, 136, 137, 138, 168, 169, 175]
      @ [[226, 129, 159], [227, 128, 128 :: nat]])"

text \<open>Removing encodings from the front as often as one of the given (non-empty) lists fits.\<close>

function strip_any :: "string list \<Rightarrow> string \<Rightarrow> string" where
  "strip_any es s = (case find (\<lambda>e. e \<noteq> [] \<and> prefix e s) es of
       None \<Rightarrow> s | Some e \<Rightarrow> strip_any es (drop (length e) s))"
  by pat_completeness auto
termination
proof (relation "measure (\<lambda>(es, s). length s)", goal_cases)
  case 1
  show ?case by simp
next
  case (2 es s e)
  from 2 have "e \<noteq> [] \<and> prefix e s" by (auto simp: find_Some_iff)
  then have "0 < length e" and "length e \<le> length s" by (auto dest: prefix_length_le)
  then have "length s - length e < length s" by linarith
  then show ?case by simp
qed

declare strip_any.simps [simp del]

definition trim_left :: "string \<Rightarrow> string" where
  "trim_left s = strip_any space_encodings s"

definition trim_right :: "string \<Rightarrow> string" where
  "trim_right s = rev (strip_any (map rev space_encodings) (rev s))"

definition trim_space :: "string \<Rightarrow> string" where
  "trim_space s = trim_right (trim_left s)"

lemma strip_any_suffix: "suffix (strip_any es s) s"
proof (induction es s rule: strip_any.induct)
  case (1 es s)
  show ?case
  proof (cases "find (\<lambda>e. e \<noteq> [] \<and> prefix e s) es")
    case None
    then show ?thesis by (simp add: strip_any.simps [of es s])
  next
    case (Some e)
    with 1 have "suffix (strip_any es (drop (length e) s)) (drop (length e) s)" by simp
    then show ?thesis using Some
      by (simp add: strip_any.simps [of es s]) (meson suffix_drop suffix_order.trans)
  qed
qed

lemma strip_any_fixed:
  "\<forall>e\<in>set es. e \<noteq> [] \<longrightarrow> \<not> prefix e s \<Longrightarrow> strip_any es s = s"
  by (subst strip_any.simps) (auto simp: find_None_iff split: option.splits dest: find_Some_iff [THEN iffD1])

lemma trim_space_Nil [simp]: "trim_space [] = []"
  by (simp add: trim_space_def trim_left_def trim_right_def strip_any_fixed)

text \<open>Text that begins and ends with a printing ASCII byte is not changed; evaluation tries this first.\<close>

definition plain_ends :: "string \<Rightarrow> bool" where
  "plain_ends s = (case s of [] \<Rightarrow> True
     | c # cs \<Rightarrow> 32 < byte c \<and> byte c < 128 \<and> 32 < byte (last s) \<and> byte (last s) < 128)"

lemma space_encodings_head:
  "e \<in> set space_encodings \<Longrightarrow> e \<noteq> [] \<and> (byte (hd e) \<le> 32 \<or> 128 \<le> byte (hd e))
     \<and> (byte (last e) \<le> 32 \<or> 128 \<le> byte (last e))"
  by (auto simp: space_encodings_def)

lemma trim_space_plain:
  assumes "plain_ends s"
  shows "trim_space s = s"
proof (cases s)
  case (Cons c cs)
  have "\<not> prefix e s" if "e \<in> set space_encodings" for e
    using space_encodings_head [OF that] assms Cons by (cases e) (auto simp: plain_ends_def)
  then have l: "trim_left s = s" by (simp add: trim_left_def strip_any_fixed)
  have "\<not> prefix (rev e) (rev s)" if "e \<in> set space_encodings" for e
  proof
    assume "prefix (rev e) (rev s)"
    then have "suffix e s" by (simp add: suffix_to_prefix)
    then have "last e = last s"
      using space_encodings_head [OF that] by (auto simp: suffix_def)
    with space_encodings_head [OF that] assms Cons show False by (simp add: plain_ends_def)
  qed
  then have "strip_any (map rev space_encodings) (rev s) = rev s"
    by (intro strip_any_fixed) auto
  with l show ?thesis by (simp add: trim_space_def trim_right_def)
qed simp

lemma trim_space_code [code]:
  "trim_space s = (if plain_ends s then s else trim_right (trim_left s))"
  using trim_space_plain by (simp add: trim_space_def)

text \<open>
  \<open>strings.ToLower\<close> where the result is compared with ASCII text: ASCII capitals, and the two code
  points outside ASCII whose lower case is ASCII (U+0130 to \<open>i\<close>, U+212A to \<open>k\<close>). Any other rune
  outside ASCII has a lower case outside ASCII and is kept, which leaves such a comparison false
  either way.
\<close>

fun to_lower :: "string \<Rightarrow> string" where
  "to_lower [] = []"
| "to_lower (c # cs) =
     (if byte c = 196 \<and> prefix [char_of (176::nat)] cs then CHR ''i'' # to_lower (drop 1 cs)
      else if byte c = 226 \<and> prefix [char_of (132::nat), char_of (170::nat)] cs
           then CHR ''k'' # to_lower (drop 2 cs)
      else ascii_lower c # to_lower cs)"

lemma to_lower_ascii: "list_all is_ascii s \<Longrightarrow> to_lower s = map ascii_lower s"
  by (induction s) (auto simp: is_ascii_def)

section \<open>Decimal numbers\<close>

text \<open>\<open>strconv.Atoi\<close> with a 64-bit \<open>int\<close>: an optional sign, then decimal digits only.\<close>

definition digits_val :: "string \<Rightarrow> int" where
  "digits_val ds = foldl (\<lambda>a c. 10 * a + (int (byte c) - 48)) 0 ds"

definition int64_range :: "int \<Rightarrow> bool" where
  "int64_range v = (- (2 ^ 63) \<le> v \<and> v < 2 ^ 63)"

definition split_sign :: "string \<Rightarrow> bool \<times> string" where
  "split_sign s = (case s of [] \<Rightarrow> (False, [])
     | c # cs \<Rightarrow> if c = CHR ''-'' then (True, cs) else if c = CHR ''+'' then (False, cs) else (False, s))"

definition atoi :: "string \<Rightarrow> int option" where
  "atoi s = (let (neg, ds) = split_sign s; v = (if neg then - digits_val ds else digits_val ds)
     in if ds \<noteq> [] \<and> list_all is_digit ds \<and> int64_range v then Some v else None)"

text \<open>\<open>strconv.Itoa\<close> and the verb \<open>%d\<close>.\<close>

fun nat_str :: "nat \<Rightarrow> string" where
  "nat_str n = (if n < 10 then [char_of (48 + n)] else nat_str (n div 10) @ [char_of (48 + n mod 10)])"

declare nat_str.simps [simp del]

definition int_str :: "int \<Rightarrow> string" where
  "int_str i = (if i < 0 then CHR ''-'' # nat_str (nat (- i)) else nat_str (nat i))"

lemma digits_val_snoc: "digits_val (ds @ [c]) = 10 * digits_val ds + (int (byte c) - 48)"
  by (simp add: digits_val_def)

lemma nat_str_not_Nil [simp]: "nat_str n \<noteq> []"
  by (subst nat_str.simps) simp

lemma nat_str_digits: "list_all is_digit (nat_str n)"
proof (induction n rule: nat_str.induct)
  case (1 n)
  have "is_digit (char_of (48 + k))" if "k < 10" for k :: nat
    using that by (simp add: is_digit_def)
  with 1 show ?case by (subst nat_str.simps) auto
qed

lemma digits_val_nat_str: "digits_val (nat_str n) = int n"
proof (induction n rule: nat_str.induct)
  case (1 n)
  show ?case
  proof (cases "n < 10")
    case True
    then show ?thesis by (subst nat_str.simps) (simp add: digits_val_def)
  next
    case False
    with 1 have "digits_val (nat_str (n div 10)) = int (n div 10)" by simp
    with False show ?thesis
      by (subst nat_str.simps) (simp add: digits_val_snoc zdiv_int zmod_int)
  qed
qed

lemma nat_str_inject [simp]: "nat_str m = nat_str n \<longleftrightarrow> m = n"
  by (metis digits_val_nat_str of_nat_eq_iff)

lemma split_sign_digits:
  assumes "ds \<noteq> []" and "list_all is_digit ds"
  shows "split_sign ds = (False, ds)"
  using assms by (cases ds) (auto simp: split_sign_def is_digit_def)

lemma atoi_int_str: "int64_range i \<Longrightarrow> atoi (int_str i) = Some i"
proof (cases "i < 0")
  case True
  assume "int64_range i"
  with True show ?thesis
    by (simp add: atoi_def int_str_def split_sign_def nat_str_digits digits_val_nat_str)
next
  case False
  assume "int64_range i"
  with False show ?thesis
    by (simp add: atoi_def int_str_def split_sign_digits nat_str_digits digits_val_nat_str)
qed

lemma atoi_range: "atoi s = Some v \<Longrightarrow> int64_range v"
  by (auto simp: atoi_def Let_def split: prod.splits if_splits)

section \<open>UTF-8\<close>

text \<open>
  \<open>for _, c := range s\<close> and the regular-expression engine read a string rune by rune; a byte that
  starts no valid encoding is one rune U+FFFD of width one.
\<close>

definition cont :: "nat \<Rightarrow> bool" where "cont b = (128 \<le> b \<and> b \<le> 191)"

definition second_lo :: "nat \<Rightarrow> nat" where
  "second_lo b = (if b = 224 then 160 else if b = 240 then 144 else 128)"

definition second_hi :: "nat \<Rightarrow> nat" where
  "second_hi b = (if b = 237 then 159 else if b = 244 then 143 else 191)"

text \<open>\<open>utf8.DecodeRune\<close> on the bytes at hand: the rune and what follows it.\<close>

definition rune_error :: nat where "rune_error = 65533"

definition decode_rune :: "nat \<Rightarrow> nat list \<Rightarrow> nat \<times> nat list" where
  "decode_rune b bs =
     (let ok2 = (\<lambda>c. second_lo b \<le> c \<and> c \<le> second_hi b) in
      if b < 128 then (b, bs)
      else if 194 \<le> b \<and> b \<le> 223 then
        (case bs of c # r \<Rightarrow> if cont c then ((b - 192) * 64 + (c - 128), r) else (rune_error, bs)
         | [] \<Rightarrow> (rune_error, bs))
      else if 224 \<le> b \<and> b \<le> 239 then
        (case bs of c # d # r \<Rightarrow>
            if ok2 c \<and> cont d then ((b - 224) * 4096 + (c - 128) * 64 + (d - 128), r) else (rune_error, bs)
         | _ \<Rightarrow> (rune_error, bs))
      else if 240 \<le> b \<and> b \<le> 244 then
        (case bs of c # d # e # r \<Rightarrow>
            if ok2 c \<and> cont d \<and> cont e
            then ((b - 240) * 262144 + (c - 128) * 4096 + (d - 128) * 64 + (e - 128), r)
            else (rune_error, bs)
         | _ \<Rightarrow> (rune_error, bs))
      else (rune_error, bs))"

lemma decode_rune_length: "decode_rune b bs = (r, rest) \<Longrightarrow> length rest \<le> length bs"
  by (auto simp: decode_rune_def Let_def split: if_splits list.splits)

function runes_of :: "nat list \<Rightarrow> nat list" where
  "runes_of [] = []"
| "runes_of (b # bs) = fst (decode_rune b bs) # runes_of (snd (decode_rune b bs))"
  by pat_completeness auto
termination
  by (relation "measure length") (auto simp: le_imp_less_Suc decode_rune_length [OF surjective_pairing])

definition runes :: "string \<Rightarrow> nat list" where
  "runes s = runes_of (map byte s)"

lemma runes_Nil [simp]: "runes [] = []"
  by (simp add: runes_def)

lemma runes_ascii_Cons: "is_ascii c \<Longrightarrow> runes (c # cs) = byte c # runes cs"
  by (simp add: runes_def decode_rune_def is_ascii_def)

lemma runes_ascii: "list_all is_ascii s \<Longrightarrow> runes s = map byte s"
  by (induction s) (simp_all add: runes_ascii_Cons)

text \<open>
  \<open>strings.EqualFold\<close> where one side is ASCII: simple folding reaches an ASCII letter only from its
  two cases and, for \<open>k\<close> and \<open>s\<close>, from U+212A and U+017F.
\<close>

definition fold_rune :: "nat \<Rightarrow> nat" where
  "fold_rune r = (if 65 \<le> r \<and> r \<le> 90 then r + 32 else if r = 8490 then 107 else if r = 383 then 115 else r)"

definition equal_fold :: "string \<Rightarrow> string \<Rightarrow> bool" where
  "equal_fold s t = (map fold_rune (runes s) = map fold_rune (runes t))"

lemma equal_fold_refl [simp]: "equal_fold s s"
  by (simp add: equal_fold_def)

section \<open>Header keys\<close>

text \<open>\<open>textproto.CanonicalMIMEHeaderKey\<close>: a key with a byte that is no token character is unchanged.\<close>

definition token_byte :: "char \<Rightarrow> bool" where
  "token_byte c = (is_letter c \<or> is_digit c \<or> c \<in> set ''!#$%&*+-.^_`|~'' \<or> byte c = 39)"

fun canon_loop :: "bool \<Rightarrow> string \<Rightarrow> string" where
  "canon_loop up [] = []"
| "canon_loop up (c # cs) =
     (let c' = (if up then ascii_upper c else ascii_lower c) in c' # canon_loop (c = CHR ''-'') cs)"

definition canonical_key :: "string \<Rightarrow> string" where
  "canonical_key s = (if list_all token_byte s then canon_loop True s else s)"

lemma byte_ascii_upper: "byte (ascii_upper c) = (if is_lower c then byte c - 32 else byte c)"
proof -
  have "byte c - 32 < 256"
    using nat_of_char_less_256 [of c] by linarith
  then show ?thesis by (simp add: ascii_upper_def)
qed

lemma hyphen_iff: "c = CHR ''-'' \<longleftrightarrow> byte c = 45"
proof -
  have "byte (CHR ''-'') = (45 :: nat)" by simp
  then show ?thesis using byte_eq_iff [of c "CHR ''-''"] by simp
qed

lemma case_hyphen [simp]:
  "ascii_upper c = CHR ''-'' \<longleftrightarrow> c = CHR ''-''" "ascii_lower c = CHR ''-'' \<longleftrightarrow> c = CHR ''-''"
  by (auto simp only: hyphen_iff byte_ascii_upper byte_ascii_lower is_lower_def is_upper_def split: if_splits)

lemma case_idem [simp]:
  "ascii_upper (ascii_upper c) = ascii_upper c"
  "ascii_upper (ascii_lower c) = ascii_upper c"
  "ascii_lower (ascii_upper c) = ascii_lower c"
  by (simp_all only: byte_eq_iff [symmetric] byte_ascii_upper byte_ascii_lower is_lower_def is_upper_def)
     (auto split: if_splits)

lemma canon_loop_idem: "canon_loop up (canon_loop up s) = canon_loop up s"
  by (induction s arbitrary: up) (auto simp: Let_def)

lemma is_letter_case [simp]: "is_letter (ascii_upper c) = is_letter c" "is_letter (ascii_lower c) = is_letter c"
  by (auto simp: is_letter_def is_lower_def is_upper_def byte_ascii_upper byte_ascii_lower split: if_splits)

lemma case_id: "\<not> is_letter c \<Longrightarrow> ascii_upper c = c \<and> ascii_lower c = c"
  by (simp add: is_letter_def ascii_upper_def ascii_lower_def)

lemma token_byte_case [simp]: "token_byte (ascii_upper c) = token_byte c" "token_byte (ascii_lower c) = token_byte c"
  by (cases "is_letter c"; simp add: token_byte_def case_id)+

lemma token_canon_loop: "list_all token_byte (canon_loop up s) = list_all token_byte s"
  by (induction s arbitrary: up) (auto simp: Let_def)

lemma canonical_key_idem [simp]: "canonical_key (canonical_key s) = canonical_key s"
  by (simp add: canonical_key_def token_canon_loop canon_loop_idem)

section \<open>Quoting\<close>

text \<open>
  The verb \<open>%q\<close> (\<open>strconv.Quote\<close>). Exact for ASCII; bytes from 128 up are taken as parts of
  printable runes and copied.
\<close>

definition hex_digit :: "nat \<Rightarrow> char" where
  "hex_digit n = char_of (if n < 10 then 48 + n else 87 + n)"

definition quote_byte :: "char \<Rightarrow> string" where
  "quote_byte c =
     (let b = byte c; bs = char_of (92 :: nat) in
      if b = 34 \<or> b = 92 then [bs, c]
      else if b = 7 then [bs, CHR ''a''] else if b = 8 then [bs, CHR ''b'']
      else if b = 12 then [bs, CHR ''f''] else if b = 10 then [bs, CHR ''n'']
      else if b = 13 then [bs, CHR ''r''] else if b = 9 then [bs, CHR ''t'']
      else if b = 11 then [bs, CHR ''v'']
      else if b < 32 \<or> b = 127 then [bs, CHR ''x'', hex_digit (b div 16), hex_digit (b mod 16)]
      else [c])"

definition go_quote :: "string \<Rightarrow> string" where
  "go_quote s = [char_of (34 :: nat)] @ concat (map quote_byte s) @ [char_of (34 :: nat)]"

end
