(* ===== verification/Semver.thy ===== *)
theory Semver
  imports GoStrings
begin

text \<open>
  Semantic versions as \<open>internal/profile/load.go\<close> reads and compares them (\<open>parseSemver\<close>,
  \<open>compareSemver\<close>). The array \<open>[3]int\<close> is a datatype with the lexicographic order as its
  \<open>linorder\<close> instance; the comparison loop of the code is shown to decide that order.
\<close>

datatype semver = Semver int int int

datatype semver_err = BadShape string | BadComponent string string

section \<open>The order\<close>

fun semver_key :: "semver \<Rightarrow> int list" where
  "semver_key (Semver a b c) = [a, b, c]"

lemma semver_key_inject [simp]: "semver_key v = semver_key w \<longleftrightarrow> v = w"
  by (cases v; cases w) auto

instantiation semver :: linorder
begin

definition less_eq_semver :: "semver \<Rightarrow> semver \<Rightarrow> bool" where
  "less_eq_semver v w = (semver_key v \<le> semver_key w)"

definition less_semver :: "semver \<Rightarrow> semver \<Rightarrow> bool" where
  "less_semver v w = (semver_key v < semver_key w)"

instance
proof (standard, unfold less_eq_semver_def less_semver_def, goal_cases)
  case (1 x y)
  show ?case by (rule less_le_not_le)
next
  case (2 x)
  show ?case by (rule order_refl)
next
  case (3 x y z)
  then show ?case by (rule order_trans)
next
  case (4 x y)
  then have "semver_key x = semver_key y" by (rule order_antisym)
  then show ?case by simp
next
  case (5 x y)
  show ?case by (rule linear)
qed

end

lemma semver_less_iff:
  "Semver a b c < Semver d e f \<longleftrightarrow> a < d \<or> a = d \<and> (b < e \<or> b = e \<and> c < f)"
  by (auto simp: less_semver_def)

section \<open>Parsing\<close>

text \<open>\<open>parseSemver\<close>: an optional leading \<open>v\<close>, three dot-separated non-negative integers.\<close>

fun components :: "string \<Rightarrow> string list \<Rightarrow> semver_err + int list" where
  "components s [] = Inr []"
| "components s (p # ps) =
     (case atoi p of
        None \<Rightarrow> Inl (BadComponent p s)
      | Some n \<Rightarrow> if n < 0 then Inl (BadComponent p s)
                  else andthen (components s ps) (\<lambda>ns. Inr (n # ns)))"

definition parse_semver :: "string \<Rightarrow> semver_err + semver" where
  "parse_semver s0 =
     (let s = trim_prefix s0 ''v''; parts = split_on (CHR ''.'') s in
      check (length parts \<noteq> 3) (BadShape s)
        (andthen (components s parts) (\<lambda>out. Inr (Semver (out ! 0) (out ! 1) (out ! 2)))))"

lemma components_length: "components s ps = Inr ns \<Longrightarrow> length ns = length ps"
  by (induction ps arbitrary: ns) (auto split: option.splits if_splits)

lemma components_nonneg: "components s ps = Inr ns \<Longrightarrow> \<forall>n\<in>set ns. 0 \<le> n \<and> int64_range n"
  by (induction ps arbitrary: ns) (auto split: option.splits if_splits dest: atoi_range)

lemma parse_semver_nonneg:
  "parse_semver s = Inr (Semver a b c) \<Longrightarrow> 0 \<le> a \<and> 0 \<le> b \<and> 0 \<le> c
     \<and> int64_range a \<and> int64_range b \<and> int64_range c"
proof -
  assume "parse_semver s = Inr (Semver a b c)"
  then obtain t ps ns where ns: "components t ps = Inr ns" "length ps = 3"
      and abc: "a = ns ! 0" "b = ns ! 1" "c = ns ! 2"
    by (auto simp: parse_semver_def Let_def)
  then have "length ns = 3" by (simp add: components_length)
  then have "{a, b, c} \<subseteq> set ns" using abc by auto
  with components_nonneg [OF ns(1)] show ?thesis by auto
qed

section \<open>Comparing\<close>

text \<open>The loop \<open>for i := 0; i < 3; i++\<close> of \<open>compareSemver\<close> over the two arrays.\<close>

fun compare_loop :: "int list \<Rightarrow> int list \<Rightarrow> int" where
  "compare_loop (a # as) (b # bs) = (if a < b then -1 else if a > b then 1 else compare_loop as bs)"
| "compare_loop _ _ = 0"

definition compare_semver :: "string \<Rightarrow> string \<Rightarrow> semver_err + int" where
  "compare_semver a b =
     andthen (parse_semver a) (\<lambda>aParts.
     andthen (parse_semver b) (\<lambda>bParts.
       Inr (compare_loop (semver_key aParts) (semver_key bParts))))"

lemma compare_loop_order:
  "compare_loop (semver_key v) (semver_key w) = (if v < w then -1 else if w < v then 1 else 0)"
  by (cases v; cases w) (auto simp: semver_less_iff)

lemma compare_semver_order:
  "parse_semver a = Inr v \<Longrightarrow> parse_semver b = Inr w \<Longrightarrow>
     compare_semver a b = Inr (if v < w then -1 else if w < v then 1 else 0)"
  by (simp add: compare_semver_def compare_loop_order)

text \<open>
  Printing three components as \<open>MAJOR.MINOR.PATCH\<close> and parsing the text gives them back: the reading
  direction of the format the doc comment of \<open>compareSemver\<close> names.
\<close>

definition semver_string :: "semver \<Rightarrow> string" where
  "semver_string v = join ''.'' (map int_str (semver_key v))"

lemma int_str_no_dot: "CHR ''.'' \<notin> set (int_str i)"
proof -
  have "CHR ''.'' \<notin> set (nat_str n)" for n
    using nat_str_digits [of n] by (auto simp: list_all_iff is_digit_def)
  then show ?thesis by (auto simp: int_str_def)
qed

lemma not_v_int_str: "0 \<le> i \<Longrightarrow> \<not> prefix ''v'' (int_str i @ s)"
proof -
  assume "0 \<le> i"
  then have i: "int_str i = nat_str (nat i)" by (simp add: int_str_def)
  obtain c cs where c: "nat_str (nat i) = c # cs"
    by (cases "nat_str (nat i)") auto
  have "is_digit c" using nat_str_digits [of "nat i"] c by simp
  then show ?thesis using i c by (auto simp: is_digit_def)
qed

lemma parse_semver_string:
  assumes "int64_range a" "int64_range b" "int64_range c" "0 \<le> a" "0 \<le> b" "0 \<le> c"
  shows "parse_semver (semver_string (Semver a b c)) = Inr (Semver a b c)"
proof -
  have "split_on (CHR ''.'') (semver_string (Semver a b c)) = [int_str a, int_str b, int_str c]"
    unfolding semver_string_def
    by (subst split_on_join) (auto simp: int_str_no_dot)
  moreover have "trim_prefix (semver_string (Semver a b c)) ''v'' = semver_string (Semver a b c)"
    using not_v_int_str [OF assms(4)] by (simp add: trim_prefix_def semver_string_def)
  ultimately show ?thesis
    using assms by (simp add: parse_semver_def Let_def atoi_int_str)
qed

end
