(* ===== verification/GoNet.thy ===== *)
theory GoNet
  imports GoStrings
begin

text \<open>
  IP addresses as Go's \<open>net\<close> and \<open>net/netip\<close> packages read and print them. A \<open>net.IP\<close> is its
  byte slice, a list of numbers below 256: four bytes for IPv4, sixteen for IPv6, with IPv4 also as
  the sixteen bytes of its IPv4-mapped form.
\<close>

type_synonym ip = "nat list"

section \<open>Reading\<close>

text \<open>One dotted field: decimal digits, no leading zero, at most 255.\<close>

definition octet :: "string \<Rightarrow> nat option" where
  "octet s = (if s \<noteq> [] \<and> list_all is_digit s \<and> (hd s = CHR ''0'' \<longrightarrow> s = ''0'') \<and> digits_val s \<le> 255
     then Some (nat (digits_val s)) else None)"

definition parse_ipv4 :: "string \<Rightarrow> ip option" where
  "parse_ipv4 s = (case split_on (CHR ''.'') s of
       [a, b, c, d] \<Rightarrow> (case (octet a, octet b, octet c, octet d) of
           (Some w, Some x, Some y, Some z) \<Rightarrow> Some [w, x, y, z] | _ \<Rightarrow> None)
     | _ \<Rightarrow> None)"

definition hex_val :: "char \<Rightarrow> nat option" where
  "hex_val c = (if is_digit c then Some (byte c - 48)
     else if 97 \<le> byte c \<and> byte c \<le> 102 then Some (byte c - 87)
     else if 65 \<le> byte c \<and> byte c \<le> 70 then Some (byte c - 55) else None)"

text \<open>The run of hexadecimal digits at the front, its value and what follows.\<close>

fun hex_run :: "nat \<Rightarrow> string \<Rightarrow> nat \<times> nat \<times> string" where
  "hex_run acc [] = (0, acc, [])"
| "hex_run acc (c # cs) = (case hex_val c of
       None \<Rightarrow> (0, acc, c # cs)
     | Some v \<Rightarrow> (case hex_run (acc * 16 + v) cs of (n, a, r) \<Rightarrow> (Suc n, a, r)))"

text \<open>
  The loop of \<open>netip.parseIPv6\<close>, at most eight groups: the bytes so far, the position of the
  ellipsis, and the text left.
\<close>

fun v6_groups :: "nat \<Rightarrow> ip \<Rightarrow> nat option \<Rightarrow> string \<Rightarrow> (ip \<times> nat option \<times> string) option" where
  "v6_groups 0 ip ell s = Some (ip, ell, s)"
| "v6_groups (Suc k) ip ell s =
     (case hex_run 0 s of (off, acc, rest) \<Rightarrow>
      if off = 0 \<or> 4 < off then None
      else if rest \<noteq> [] \<and> hd rest = CHR ''.'' then
        (if (ell = None \<and> length ip \<noteq> 12) \<or> 16 < length ip + 4 then None
         else map_option (\<lambda>v4. (ip @ v4, ell, [])) (parse_ipv4 s))
      else let ip' = ip @ [acc div 256, acc mod 256] in
        if rest = [] then Some (ip', ell, [])
        else if hd rest \<noteq> CHR '':'' \<or> tl rest = [] then None
        else let s' = tl rest in
          if hd s' = CHR '':'' then
            (if ell \<noteq> None then None
             else if tl s' = [] then Some (ip', Some (length ip'), [])
             else v6_groups k ip' (Some (length ip')) (tl s'))
          else v6_groups k ip' ell s')"

definition v6_finish :: "(ip \<times> nat option \<times> string) option \<Rightarrow> ip option" where
  "v6_finish r = (case r of None \<Rightarrow> None | Some (ip, ell, s) \<Rightarrow>
     if s \<noteq> [] then None
     else (case ell of
         None \<Rightarrow> if length ip < 16 then None else Some ip
       | Some e \<Rightarrow> if length ip < 16 then Some (take e ip @ replicate (16 - length ip) 0 @ drop e ip)
                   else None))"

text \<open>\<open>net.ParseIP\<close> refuses an address with a zone, so a percent sign always refuses.\<close>

definition parse_ipv6 :: "string \<Rightarrow> ip option" where
  "parse_ipv6 s = (if CHR ''%'' \<in> set s then None
     else if prefix ''::'' s then
       (if drop 2 s = [] then Some (replicate 16 0) else v6_finish (v6_groups 8 [] (Some 0) (drop 2 s)))
     else v6_finish (v6_groups 8 [] None s))"

text \<open>The first of dot, colon and percent decides the family; the result is the 16-byte form.\<close>

definition v4_mapped :: "ip \<Rightarrow> ip" where
  "v4_mapped v4 = replicate 10 0 @ [255, 255] @ v4"

definition parse_ip :: "string \<Rightarrow> ip option" where
  "parse_ip s = (case find (\<lambda>c. c \<in> set ''.:%'') s of
       None \<Rightarrow> None
     | Some c \<Rightarrow> if c = CHR ''.'' then map_option v4_mapped (parse_ipv4 s)
                 else if c = CHR '':'' then parse_ipv6 s else None)"

section \<open>Printing\<close>

text \<open>\<open>IP.To4\<close>.\<close>

definition to4 :: "ip \<Rightarrow> ip option" where
  "to4 ip = (if length ip = 4 then Some ip
     else if length ip = 16 \<and> take 12 ip = replicate 10 0 @ [255, 255] then Some (drop 12 ip) else None)"

definition dotted :: "ip \<Rightarrow> string" where
  "dotted v4 = join ''.'' (map nat_str v4)"

fun hex_str :: "nat \<Rightarrow> string" where
  "hex_str n = (if n < 16 then [hex_digit n] else hex_str (n div 16) @ [hex_digit (n mod 16)])"

declare hex_str.simps [simp del]

definition v6_words :: "ip \<Rightarrow> nat list" where
  "v6_words ip = map (\<lambda>i. ip ! (2 * i) * 256 + ip ! (2 * i + 1)) [0..<8]"

text \<open>The longest run of at least two zero groups, the first of them on a tie.\<close>

definition zero_run :: "nat list \<Rightarrow> nat \<Rightarrow> nat" where
  "zero_run ws i = length (takeWhile (\<lambda>w. w = 0) (drop i ws))"

definition best_run :: "nat list \<Rightarrow> (nat \<times> nat) option" where
  "best_run ws = fold (\<lambda>i best. let l = zero_run ws i in
       if 2 \<le> l \<and> l > (case best of None \<Rightarrow> 0 | Some (s, e) \<Rightarrow> e - s) then Some (i, i + l) else best)
     [0..<8] None"

definition v6_string :: "ip \<Rightarrow> string" where
  "v6_string ip = (let ws = v6_words ip in
     case best_run ws of
       None \<Rightarrow> join '':'' (map hex_str ws)
     | Some (s, e) \<Rightarrow> join '':'' (map hex_str (take s ws)) @ ''::'' @ join '':'' (map hex_str (drop e ws)))"

text \<open>\<open>IP.String\<close>.\<close>

definition ip_string :: "ip \<Rightarrow> string" where
  "ip_string ip = (if ip = [] then ''<nil>''
     else if length ip \<noteq> 4 \<and> length ip \<noteq> 16
     then ''?'' @ concat (map (\<lambda>b. [hex_digit (b div 16), hex_digit (b mod 16)]) ip)
     else case to4 ip of Some v4 \<Rightarrow> dotted v4 | None \<Rightarrow> v6_string ip)"

section \<open>Facts\<close>

lemma octet_nat_str: "n < 256 \<Longrightarrow> octet (nat_str n) = Some n"
proof -
  assume n: "n < 256"
  have "byte (CHR ''0'') = byte (char_of (48 :: nat))" by simp
  then have z: "CHR ''0'' = char_of (48 :: nat)" by (simp only: byte_eq_iff)
  have "hd (nat_str k) = CHR ''0'' \<longrightarrow> k = 0" for k
  proof (induction k rule: nat_str.induct)
    case (1 k)
    show ?case
    proof (cases "k < 10")
      case True
      then show ?thesis by (subst nat_str.simps) (simp add: z char_of_eq_iff take_bit_nat_eq_self)
    next
      case False
      then have "k div 10 \<noteq> 0" by presburger
      with 1 False show ?thesis by (subst nat_str.simps) simp
    qed
  qed
  moreover have "nat_str 0 = ''0''" by (subst nat_str.simps) (simp add: z)
  ultimately show ?thesis using n
    by (auto simp: octet_def nat_str_digits digits_val_nat_str)
qed

lemma dot_not_digit: "list_all is_digit s \<Longrightarrow> CHR ''.'' \<notin> set s"
  by (induction s) (auto simp: is_digit_def)

lemma parse_ipv4_dotted:
  assumes "length v4 = 4" and "\<forall>b\<in>set v4. b < 256"
  shows "parse_ipv4 (dotted v4) = Some v4"
proof -
  from assms(1) obtain a b c d where v: "v4 = [a, b, c, d]"
    by (auto simp: length_Suc_conv numeral_eq_Suc)
  have "split_on (CHR ''.'') (dotted v4) = map nat_str v4"
    unfolding dotted_def v
    by (rule split_on_join) (auto dest: dot_not_digit [OF nat_str_digits, THEN notE])
  with v assms(2) show ?thesis by (simp add: parse_ipv4_def octet_nat_str)
qed

lemma to4_mapped: "length v4 = 4 \<Longrightarrow> to4 (v4_mapped v4) = Some v4"
  by (simp add: to4_def v4_mapped_def)

end
