(* ===== verification/Bundle.thy ===== *)
theory Bundle
  imports Semver GoNet
begin

text \<open>
  The broker bundle and its validation: \<open>internal/profile/profile.go\<close> (the types) and
  \<open>internal/profile/validate.go\<close> (the rules). Each \<open>return fmt.Errorf(...)\<close> is one
  constructor of an error datatype. The lemmas say which bundles are accepted: a path exactly when
  it is a rendering of a template of literal bytes and named placeholders, a bundle exactly when
  every rule holds, with pairwise distinct broker ids and endpoint keys.
\<close>

section \<open>The data\<close>

record order_endpoint =
  oe_method :: string
  oe_path :: string
  oe_kind :: string

record idempotency_config =
  client_order_id_header :: string
  client_order_id_body_path :: string
  echo_in_response_path :: string

record rate_limit_config =
  per_user_rps :: int
  per_user_burst :: int

record broker_profile =
  bp_id :: string
  display_name :: string
  bp_host :: string
  enabled :: bool
  order_endpoints :: "order_endpoint list"
  idempotency :: idempotency_config
  rate_limit :: rate_limit_config

record broker_bundle =
  schema_version :: int
  bundle_version :: string
  issued_at :: gotime
  issuer :: string
  min_proxy_version :: string
  brokers :: "broker_profile list"

definition known_kinds :: "string list" where
  "known_kinds = [''place'', ''modify'', ''cancel'', ''place_multi'', ''modify_multi'', ''cancel_multi'',
     ''place_multileg'', ''exit'', ''exit_positions'', ''cancel_cover'', ''cancel_bracket'']"

definition known_methods :: "string list" where
  "known_methods = [''GET'', ''POST'', ''PUT'', ''PATCH'', ''DELETE'']"

section \<open>Paths\<close>

datatype path_err = NoLeadingSlash | UnclosedPlaceholder | BadPlaceholder string | StrayClose | BadPathByte char

definition is_valid_path_byte :: "char \<Rightarrow> bool" where
  "is_valid_path_byte c = (is_lower c \<or> is_upper c \<or> is_digit c \<or> c \<in> set ''/-_.~'')"

text \<open>The loop of \<open>isValidVarName\<close>: digits are allowed from the second byte on.\<close>

definition is_valid_var_name :: "string \<Rightarrow> bool" where
  "is_valid_var_name s = (case s of [] \<Rightarrow> False
     | c # cs \<Rightarrow> (is_letter c \<or> c = CHR ''_'')
         \<and> list_all (\<lambda>d. is_letter d \<or> d = CHR ''_'' \<or> is_digit d) cs)"

text \<open>The scanning loop of \<open>validatePath\<close> at \<open>p[i:]\<close>.\<close>

function scan_path :: "string \<Rightarrow> path_err + unit" where
  "scan_path [] = Inr ()"
| "scan_path (c # cs) =
     (if c = CHR ''{'' then
        (case index_byte (c # cs) (CHR ''}'') of
           None \<Rightarrow> Inl UnclosedPlaceholder
         | Some e \<Rightarrow> let name = take (e - 1) cs in
             check (\<not> is_valid_var_name name) (BadPlaceholder name) (scan_path (drop e cs)))
      else if c = CHR ''}'' then Inl StrayClose
      else check (\<not> is_valid_path_byte c) (BadPathByte c) (scan_path cs))"
  by pat_completeness auto
termination
  by (relation "measure length") auto

definition validate_path :: "string \<Rightarrow> path_err + unit" where
  "validate_path p = check (\<not> has_prefix p ''/'') NoLeadingSlash (scan_path p)"

section \<open>Hosts\<close>

datatype host_err = HostRequired | HostWildcard | HostRawIP | HostNotDotted | HostEmptyLabel
  | HostLabelTooLong | HostHyphen | HostBadChar

definition ldh :: "char \<Rightarrow> bool" where
  "ldh c = (is_lower c \<or> is_upper c \<or> is_digit c \<or> c = CHR ''-'')"

fun check_labels :: "string list \<Rightarrow> host_err + unit" where
  "check_labels [] = Inr ()"
| "check_labels (l # ls) =
     check (l = []) HostEmptyLabel
    (check (63 < length l) HostLabelTooLong
    (check (hd l = CHR ''-'' \<or> last l = CHR ''-'') HostHyphen
    (check (\<not> list_all ldh l) HostBadChar
      (check_labels ls))))"

definition validate_host :: "string \<Rightarrow> host_err + unit" where
  "validate_host h =
     check (h = []) HostRequired
    (check (contains_any h ''*?[]'') HostWildcard
    (check (parse_ip h \<noteq> None) HostRawIP
    (check (length (split_on (CHR ''.'') h) < 2) HostNotDotted
      (check_labels (split_on (CHR ''.'') h)))))"

section \<open>Endpoints, brokers, bundles\<close>

datatype endpoint_err = BadMethod string | BadKind string | BadPath path_err

definition validate_endpoint :: "order_endpoint \<Rightarrow> endpoint_err + unit" where
  "validate_endpoint e =
     check (oe_method e \<notin> set known_methods) (BadMethod (oe_method e))
    (check (oe_kind e \<notin> set known_kinds) (BadKind (oe_kind e))
      (wrap_err BadPath (validate_path (oe_path e))))"

datatype broker_err = BadId string | NoDisplayName | BadHost host_err | NoEndpoints
  | BadEndpoint nat endpoint_err | DupEndpoint string | NegativeRate

text \<open>\<open>brokerIDRe\<close>, \<open>^[a-z][a-z0-9_]{1,31}$\<close>.\<close>

definition broker_id_re :: "string \<Rightarrow> bool" where
  "broker_id_re s = (case s of [] \<Rightarrow> False
     | c # cs \<Rightarrow> is_lower c \<and> list_all (\<lambda>d. is_lower d \<or> is_digit d \<or> d = CHR ''_'') cs
         \<and> 1 \<le> length cs \<and> length cs \<le> 31)"

definition endpoint_key :: "order_endpoint \<Rightarrow> string" where
  "endpoint_key e = oe_method e @ '' '' @ oe_path e"

text \<open>The loop over the endpoints with the map \<open>seen\<close>; \<open>i\<close> is the loop index.\<close>

fun check_endpoints :: "nat \<Rightarrow> string set \<Rightarrow> order_endpoint list \<Rightarrow> broker_err + unit" where
  "check_endpoints i seen [] = Inr ()"
| "check_endpoints i seen (e # es) =
     andthen (wrap_err (BadEndpoint i) (validate_endpoint e)) (\<lambda>_.
       check (endpoint_key e \<in> seen) (DupEndpoint (endpoint_key e))
         (check_endpoints (Suc i) (insert (endpoint_key e) seen) es))"

definition validate_broker :: "broker_profile \<Rightarrow> broker_err + unit" where
  "validate_broker bp =
     check (\<not> broker_id_re (bp_id bp)) (BadId (bp_id bp))
    (check (trim_space (display_name bp) = []) NoDisplayName
    (andthen (wrap_err BadHost (validate_host (bp_host bp))) (\<lambda>_.
     check (order_endpoints bp = []) NoEndpoints
    (andthen (check_endpoints 0 {} (order_endpoints bp)) (\<lambda>_.
     check (per_user_rps (rate_limit bp) < 0 \<or> per_user_burst (rate_limit bp) < 0) NegativeRate
      (Inr ()))))))"

datatype bundle_err = BadSchemaVersion int | NoBundleVersion | NoIssuer | NoIssuedAt | NoMinProxyVersion
  | BadMinProxyVersion semver_err | NoBrokers | BadBroker nat string broker_err | DupBroker string

definition current_schema_version :: int where "current_schema_version = 1"

fun check_brokers :: "nat \<Rightarrow> string set \<Rightarrow> broker_profile list \<Rightarrow> bundle_err + unit" where
  "check_brokers i seen [] = Inr ()"
| "check_brokers i seen (b # bs) =
     andthen (wrap_err (BadBroker i (bp_id b)) (validate_broker b)) (\<lambda>_.
       check (bp_id b \<in> seen) (DupBroker (bp_id b))
         (check_brokers (Suc i) (insert (bp_id b) seen) bs))"

definition validate_bundle :: "broker_bundle \<Rightarrow> bundle_err + unit" where
  "validate_bundle b =
     check (schema_version b \<noteq> current_schema_version) (BadSchemaVersion (schema_version b))
    (check (trim_space (bundle_version b) = []) NoBundleVersion
    (check (trim_space (issuer b) = []) NoIssuer
    (check (issued_at b = 0) NoIssuedAt
    (check (trim_space (min_proxy_version b) = []) NoMinProxyVersion
    (andthen (wrap_err BadMinProxyVersion (parse_semver (min_proxy_version b))) (\<lambda>_.
     check (brokers b = []) NoBrokers
      (check_brokers 0 {} (brokers b))))))))"

section \<open>The language of path templates\<close>

text \<open>
  What the doc comment of \<open>validatePath\<close> describes: a sequence of literal bytes and named
  placeholders, written out.
\<close>

datatype item = Lit char | Var string

fun item_ok :: "item \<Rightarrow> bool" where
  "item_ok (Lit c) = is_valid_path_byte c"
| "item_ok (Var n) = is_valid_var_name n"

fun item_text :: "item \<Rightarrow> string" where
  "item_text (Lit c) = [c]"
| "item_text (Var n) = CHR ''{'' # n @ ''}''"

definition template_text :: "item list \<Rightarrow> string" where
  "template_text ts = concat (map item_text ts)"

lemma template_text_simps [simp]:
  "template_text [] = []" "template_text (t # ts) = item_text t @ template_text ts"
  by (simp_all add: template_text_def)

lemma valid_path_byte_not_brace:
  "is_valid_path_byte c \<Longrightarrow> c \<noteq> CHR ''{'' \<and> c \<noteq> CHR ''}''"
  by (auto simp: is_valid_path_byte_def char_class_defs)

lemma valid_path_byte_ascii: "is_valid_path_byte c \<Longrightarrow> is_ascii c"
  by (auto simp: is_valid_path_byte_def char_class_defs)

lemma valid_var_name_no_brace:
  "is_valid_var_name n \<Longrightarrow> CHR ''}'' \<notin> set n"
  by (auto simp: is_valid_var_name_def list_all_iff char_class_defs split: list.splits)

lemma scan_path_text: "list_all item_ok ts \<Longrightarrow> scan_path (template_text ts) = Inr ()"
proof (induction ts)
  case Nil
  then show ?case by simp
next
  case (Cons t ts)
  show ?case
  proof (cases t)
    case (Lit c)
    with Cons show ?thesis using valid_path_byte_not_brace [of c] by simp
  next
    case (Var n)
    with Cons.prems have n: "is_valid_var_name n" "CHR ''}'' \<notin> set n"
      by (auto dest: valid_var_name_no_brace)
    then have "index_byte (CHR ''{'' # n @ CHR ''}'' # template_text ts) (CHR ''}'') = Some (Suc (length n))"
      by (simp add: index_byte_append)
    with Cons Var n show ?thesis by simp
  qed
qed

lemma text_scan_path: "scan_path p = Inr () \<Longrightarrow> \<exists>ts. list_all item_ok ts \<and> p = template_text ts"
proof (induction p rule: scan_path.induct)
  case 1
  show ?case by (rule exI [of _ "[]"]) simp
next
  case (2 c cs)
  show ?case
  proof (cases "c = CHR ''{''")
    case True
    with "2.prems" obtain e where e: "index_byte (c # cs) (CHR ''}'') = Some e"
      by (auto split: option.splits)
    let ?n = "take (e - 1) cs"
    from "2.prems" e True have n: "is_valid_var_name ?n" and r: "scan_path (drop e cs) = Inr ()"
      by (auto simp: Let_def split: if_splits)
    from "2.IH"(1) [OF True e] n r obtain ts where ts: "list_all item_ok ts" "drop e cs = template_text ts"
      by auto
    from index_byte_Some [OF e] True obtain k where "e = Suc k" "k < length cs" "cs ! k = CHR ''}''"
      by (cases e) auto
    then have "cs = take k cs @ CHR ''}'' # drop (Suc k) cs" by (metis id_take_nth_drop)
    with \<open>e = Suc k\<close> True ts n show ?thesis
      by (intro exI [of _ "Var ?n # ts"]) simp
  next
    case False
    with "2.prems" have c: "is_valid_path_byte c" "scan_path cs = Inr ()" "c \<noteq> CHR ''}''"
      by (auto split: if_splits)
    with "2.IH"(2) False obtain ts where "list_all item_ok ts" "cs = template_text ts" by auto
    with c show ?thesis by (intro exI [of _ "Lit c # ts"]) simp
  qed
qed

lemma validate_path_iff:
  "validate_path p = Inr () \<longleftrightarrow> (\<exists>ts. list_all item_ok ts \<and> p = template_text (Lit (CHR ''/'') # ts))"
proof
  assume "validate_path p = Inr ()"
  then have "prefix ''/'' p" "scan_path p = Inr ()"
    by (simp_all add: validate_path_def has_prefix_def)
  then obtain q where p: "p = CHR ''/'' # q" and "scan_path q = Inr ()"
    by (auto simp: prefix_def)
  then show "\<exists>ts. list_all item_ok ts \<and> p = template_text (Lit (CHR ''/'') # ts)"
    using text_scan_path [of q] by auto
next
  assume "\<exists>ts. list_all item_ok ts \<and> p = template_text (Lit (CHR ''/'') # ts)"
  then obtain ts where ts: "list_all item_ok ts" "p = template_text (Lit (CHR ''/'') # ts)" by blast
  have "item_ok (Lit (CHR ''/''))" by (simp add: is_valid_path_byte_def)
  with ts have "scan_path p = Inr ()" using scan_path_text [of "Lit (CHR ''/'') # ts"] by simp
  with ts show "validate_path p = Inr ()" by (simp add: validate_path_def has_prefix_def)
qed

section \<open>Accepted hosts, endpoints, brokers and bundles\<close>

definition label_ok :: "string \<Rightarrow> bool" where
  "label_ok l = (l \<noteq> [] \<and> length l \<le> 63 \<and> hd l \<noteq> CHR ''-'' \<and> last l \<noteq> CHR ''-'' \<and> list_all ldh l)"

lemma check_labels_iff: "check_labels ls = Inr () \<longleftrightarrow> list_all label_ok ls"
  by (induction ls) (auto simp: label_ok_def)

lemma join_chars: "set (join [b] ps) \<subseteq> insert b (\<Union>p\<in>set ps. set p)"
  by (induction "[b]" ps rule: join.induct) auto

lemma no_wildcard: "list_all label_ok (split_on (CHR ''.'') h) \<Longrightarrow> \<not> contains_any h ''*?[]''"
proof -
  assume ok: "list_all label_ok (split_on (CHR ''.'') h)"
  have "ldh c \<or> c = CHR ''.''" if "c \<in> set h" for c
    using that ok join_chars [of "CHR ''.''" "split_on (CHR ''.'') h"]
    by (auto simp: join_split_on label_ok_def list_all_iff)
  then show ?thesis
    by (fastforce simp: contains_any_def list_ex_iff ldh_def char_class_defs)
qed

lemma validate_host_iff:
  "validate_host h = Inr () \<longleftrightarrow>
     parse_ip h = None \<and> 2 \<le> length (split_on (CHR ''.'') h) \<and> list_all label_ok (split_on (CHR ''.'') h)"
  by (auto simp: validate_host_def check_labels_iff no_wildcard)

lemma validate_endpoint_iff:
  "validate_endpoint e = Inr () \<longleftrightarrow>
     oe_method e \<in> set known_methods \<and> oe_kind e \<in> set known_kinds \<and> validate_path (oe_path e) = Inr ()"
  by (auto simp: validate_endpoint_def)

lemma known_method_no_space: "m \<in> set known_methods \<Longrightarrow> CHR '' '' \<notin> set m"
  by (auto simp: known_methods_def)

lemma endpoint_key_inject:
  assumes "oe_method e \<in> set known_methods" and "oe_method f \<in> set known_methods"
  shows "endpoint_key e = endpoint_key f \<longleftrightarrow> oe_method e = oe_method f \<and> oe_path e = oe_path f"
proof
  assume "endpoint_key e = endpoint_key f"
  then have "split_on (CHR '' '') (endpoint_key e) = split_on (CHR '' '') (endpoint_key f)" by simp
  with assms have "oe_method e = oe_method f"
    by (simp add: endpoint_key_def split_on_append known_method_no_space)
  with \<open>endpoint_key e = endpoint_key f\<close> show "oe_method e = oe_method f \<and> oe_path e = oe_path f"
    by (simp add: endpoint_key_def)
qed (simp add: endpoint_key_def)

lemma check_endpoints_iff:
  "check_endpoints i seen es = Inr () \<longleftrightarrow>
     (\<forall>e\<in>set es. validate_endpoint e = Inr ()) \<and> distinct (map endpoint_key es)
       \<and> endpoint_key ` set es \<inter> seen = {}"
  by (induction es arbitrary: i seen) auto

text \<open>The rules a broker has to meet, with the endpoint table keyed by method and path.\<close>

definition broker_ok :: "broker_profile \<Rightarrow> bool" where
  "broker_ok bp = (broker_id_re (bp_id bp) \<and> trim_space (display_name bp) \<noteq> []
     \<and> validate_host (bp_host bp) = Inr ()
     \<and> order_endpoints bp \<noteq> [] \<and> (\<forall>e\<in>set (order_endpoints bp). validate_endpoint e = Inr ())
     \<and> distinct (map (\<lambda>e. (oe_method e, oe_path e)) (order_endpoints bp))
     \<and> 0 \<le> per_user_rps (rate_limit bp) \<and> 0 \<le> per_user_burst (rate_limit bp))"

lemma distinct_endpoint_keys:
  "\<forall>e\<in>set es. oe_method e \<in> set known_methods \<Longrightarrow>
     distinct (map endpoint_key es) \<longleftrightarrow> distinct (map (\<lambda>e. (oe_method e, oe_path e)) es)"
  by (induction es) (auto simp: endpoint_key_inject image_iff)

lemma validate_broker_iff: "validate_broker bp = Inr () \<longleftrightarrow> broker_ok bp"
proof -
  have "\<forall>e\<in>set (order_endpoints bp). validate_endpoint e = Inr () \<Longrightarrow>
      distinct (map endpoint_key (order_endpoints bp))
      \<longleftrightarrow> distinct (map (\<lambda>e. (oe_method e, oe_path e)) (order_endpoints bp))"
    by (rule distinct_endpoint_keys) (simp add: validate_endpoint_iff)
  then show ?thesis
    by (auto simp: validate_broker_def broker_ok_def check_endpoints_iff)
qed

lemma check_brokers_iff:
  "check_brokers i seen bs = Inr () \<longleftrightarrow>
     (\<forall>b\<in>set bs. broker_ok b) \<and> distinct (map bp_id bs) \<and> bp_id ` set bs \<inter> seen = {}"
  by (induction bs arbitrary: i seen) (auto simp: validate_broker_iff)

definition bundle_ok :: "broker_bundle \<Rightarrow> bool" where
  "bundle_ok b = (schema_version b = current_schema_version
     \<and> trim_space (bundle_version b) \<noteq> [] \<and> trim_space (issuer b) \<noteq> [] \<and> issued_at b \<noteq> 0
     \<and> trim_space (min_proxy_version b) \<noteq> [] \<and> is_ok (parse_semver (min_proxy_version b))
     \<and> brokers b \<noteq> [] \<and> (\<forall>bp\<in>set (brokers b). broker_ok bp) \<and> distinct (map bp_id (brokers b)))"

lemma validate_bundle_iff: "validate_bundle b = Inr () \<longleftrightarrow> bundle_ok b"
  by (auto simp: validate_bundle_def bundle_ok_def check_brokers_iff is_ok_iff)

end
