(* ===== verification/Router.thy ===== *)
theory Router
  imports Bundle
begin

text \<open>
  The route table: \<open>internal/profile/router.go\<close> and the slot that publishes it,
  \<open>internal/profile/holder.go\<close>. A path template is compiled to an anchored regular expression;
  the only shapes the compiler writes are one literal rune and \<open>[^/]+\<close>, which are the two
  constructors of \<open>re\<close>, and \<open>re_match\<close> is the anchored match of their sequence. The lemmas relate
  the compiled table to the declarative reading of a template (\<open>instantiates\<close>) and to the bundle
  the table was built from.
\<close>

section \<open>Compiled templates\<close>

datatype re = Rune nat | Segment

datatype compile_err = Unclosed string

text \<open>
  The loop of \<open>compilePathTemplate\<close> at \<open>tmpl[i:]\<close>. \<open>string(c)\<close> of a byte is the rune with
  that number, and \<open>QuoteMeta\<close> makes it a literal, so \<open>regexp.Compile\<close> accepts whatever the loop
  writes.
\<close>

function compile_from :: "string \<Rightarrow> string \<Rightarrow> compile_err + re list" where
  "compile_from tmpl [] = Inr []"
| "compile_from tmpl (c # cs) =
     (if c = CHR ''{'' then
        (case index_byte (c # cs) (CHR ''}'') of
           None \<Rightarrow> Inl (Unclosed tmpl)
         | Some e \<Rightarrow> andthen (compile_from tmpl (drop e cs)) (\<lambda>rs. Inr (Segment # rs)))
      else andthen (compile_from tmpl cs) (\<lambda>rs. Inr (Rune (byte c) # rs)))"
  by pat_completeness auto
termination
  by (relation "measure (\<lambda>(t, s). length s)") auto

definition compile_path_template :: "string \<Rightarrow> compile_err + re list" where
  "compile_path_template tmpl = compile_from tmpl tmpl"

text \<open>The anchored match; \<open>[^/]\<close> takes any rune but the slash, line breaks included.\<close>

fun re_match :: "re list \<Rightarrow> nat list \<Rightarrow> bool" where
  "re_match [] xs = (xs = [])"
| "re_match (Rune r # rs) [] = False"
| "re_match (Rune r # rs) (x # xs) = (x = r \<and> re_match rs xs)"
| "re_match (Segment # rs) [] = False"
| "re_match (Segment # rs) (x # xs) = (x \<noteq> 47 \<and> (re_match rs xs \<or> re_match (Segment # rs) xs))"

definition match_string :: "re list \<Rightarrow> string \<Rightarrow> bool" where
  "match_string rs s = re_match rs (runes s)"

section \<open>The table\<close>

record compiled_route =
  cr_method :: string
  cr_template :: string
  cr_re :: "re list"
  cr_endpoint :: order_endpoint

record broker_routes =
  br_profile :: broker_profile
  br_routes :: "compiled_route list"

record router =
  rt_bundle_version :: string
  by_broker :: "string \<rightharpoonup> broker_routes"

record route_match =
  m_broker :: broker_profile
  m_endpoint :: order_endpoint

text \<open>The loop over \<open>br.routes\<close> in \<open>Lookup\<close>: the first route of that method whose pattern matches.\<close>

fun find_route :: "compiled_route list \<Rightarrow> string \<Rightarrow> string \<Rightarrow> compiled_route option" where
  "find_route [] meth p = None"
| "find_route (rt # rts) meth p =
     (if cr_method rt \<noteq> meth then find_route rts meth p
      else if match_string (cr_re rt) p then Some rt
      else find_route rts meth p)"

definition lookup_route :: "router \<Rightarrow> string \<Rightarrow> string \<Rightarrow> string \<Rightarrow> route_match option" where
  "lookup_route r brokerID meth p =
     (case by_broker r brokerID of
        None \<Rightarrow> None
      | Some br \<Rightarrow>
          if \<not> enabled (br_profile br) then None
          else map_option (\<lambda>rt. \<lparr>m_broker = br_profile br, m_endpoint = cr_endpoint rt\<rparr>)
                 (find_route (br_routes br) meth p))"

datatype build_err = RouteErr nat string nat compile_err

fun build_routes :: "nat \<Rightarrow> string \<Rightarrow> nat \<Rightarrow> order_endpoint list \<Rightarrow> build_err + compiled_route list" where
  "build_routes i bid j [] = Inr []"
| "build_routes i bid j (ep # eps) =
     andthen (wrap_err (RouteErr i bid j) (compile_path_template (oe_path ep))) (\<lambda>rs.
     andthen (build_routes i bid (Suc j) eps) (\<lambda>rts.
       Inr (\<lparr>cr_method = oe_method ep, cr_template = oe_path ep, cr_re = rs, cr_endpoint = ep\<rparr> # rts)))"

fun build_brokers :: "nat \<Rightarrow> (string \<rightharpoonup> broker_routes) \<Rightarrow> broker_profile list
    \<Rightarrow> build_err + (string \<rightharpoonup> broker_routes)" where
  "build_brokers i m [] = Inr m"
| "build_brokers i m (bp # bps) =
     andthen (build_routes i (bp_id bp) 0 (order_endpoints bp)) (\<lambda>rts.
       build_brokers (Suc i) (m(bp_id bp \<mapsto> \<lparr>br_profile = bp, br_routes = rts\<rparr>)) bps)"

definition build_router :: "broker_bundle \<Rightarrow> build_err + router" where
  "build_router b =
     andthen (build_brokers 0 Map.empty (brokers b)) (\<lambda>m.
       Inr \<lparr>rt_bundle_version = bundle_version b, by_broker = m\<rparr>)"

text \<open>
  \<open>Router.Brokers\<close> ranges over the map, in an order Go leaves open; \<open>ks\<close> is that order, any
  enumeration of the keys.
\<close>

definition router_brokers :: "string list \<Rightarrow> router \<Rightarrow> broker_profile list" where
  "router_brokers ks r = map (\<lambda>k. br_profile (the (by_broker r k))) ks"

definition iteration_order :: "string list \<Rightarrow> router \<Rightarrow> bool" where
  "iteration_order ks r = (distinct ks \<and> set ks = dom (by_broker r))"

section \<open>The holder\<close>

text \<open>An \<open>atomic.Pointer\<close> is a cell with the router or nil; \<open>Store\<close> returns what was there.\<close>

record holder = live :: "router option"

definition new_holder :: "router option \<Rightarrow> holder" where "new_holder r = \<lparr>live = r\<rparr>"
definition holder_load :: "holder \<Rightarrow> router option" where "holder_load h = live h"
definition holder_store :: "holder \<Rightarrow> router option \<Rightarrow> holder \<times> router option" where
  "holder_store h r = (h\<lparr>live := r\<rparr>, live h)"

section \<open>Templates and their instances\<close>

text \<open>
  What a template stands for: literals as they are, and for each placeholder a non-empty run of
  runes with no slash.
\<close>

inductive instantiates :: "item list \<Rightarrow> nat list \<Rightarrow> bool" where
  inst_done: "instantiates [] []"
| inst_lit: "instantiates ts xs \<Longrightarrow> instantiates (Lit c # ts) (byte c # xs)"
| inst_var: "seg \<noteq> [] \<Longrightarrow> 47 \<notin> set seg \<Longrightarrow> instantiates ts xs \<Longrightarrow> instantiates (Var n # ts) (seg @ xs)"

inductive_simps instantiates_Nil [simp]: "instantiates [] xs"
inductive_simps instantiates_Lit: "instantiates (Lit c # ts) xs"
inductive_simps instantiates_Var: "instantiates (Var n # ts) xs"

primrec item_re :: "item \<Rightarrow> re" where
  "item_re (Lit c) = Rune (byte c)"
| "item_re (Var n) = Segment"

lemma compile_from_text:
  "list_all item_ok ts \<Longrightarrow> compile_from t (template_text ts) = Inr (map item_re ts)"
proof (induction ts)
  case Nil
  then show ?case by simp
next
  case (Cons a ts)
  show ?case
  proof (cases a)
    case (Lit c)
    with Cons show ?thesis using valid_path_byte_not_brace [of c] by simp
  next
    case (Var n)
    with Cons.prems have "CHR ''}'' \<notin> set n" by (auto dest: valid_var_name_no_brace)
    then have "index_byte (CHR ''{'' # n @ CHR ''}'' # template_text ts) (CHR ''}'') = Some (Suc (length n))"
      by (simp add: index_byte_append)
    with Cons Var show ?thesis by simp
  qed
qed

lemma segment_match_iff:
  "re_match (Segment # rs) xs \<longleftrightarrow> (\<exists>seg ys. seg \<noteq> [] \<and> 47 \<notin> set seg \<and> xs = seg @ ys \<and> re_match rs ys)"
proof (induction xs)
  case Nil
  then show ?case by simp
next
  case (Cons x xs)
  show ?case (is "?l \<longleftrightarrow> ?r")
  proof
    assume ?l
    then have x: "x \<noteq> 47" and "re_match rs xs \<or> re_match (Segment # rs) xs" by simp_all
    then show ?r
    proof (elim disjE)
      assume "re_match rs xs"
      with x show ?r by (intro exI [of _ "[x]"] exI [of _ xs]) simp
    next
      assume "re_match (Segment # rs) xs"
      then obtain seg ys where "seg \<noteq> []" "47 \<notin> set seg" "xs = seg @ ys" "re_match rs ys"
        using Cons.IH by blast
      with x show ?r by (intro exI [of _ "x # seg"] exI [of _ ys]) simp
    qed
  next
    assume ?r
    then obtain seg ys where s: "seg \<noteq> []" "47 \<notin> set seg" "x # xs = seg @ ys" "re_match rs ys" by blast
    then obtain seg' where "seg = x # seg'" by (cases seg) auto
    with s show ?l using Cons.IH by (cases "seg' = []") auto
  qed
qed

lemma re_match_instantiates: "re_match (map item_re ts) xs \<longleftrightarrow> instantiates ts xs"
proof (induction ts arbitrary: xs)
  case Nil
  then show ?case by simp
next
  case (Cons t ts)
  show ?case
  proof (cases t)
    case (Lit c)
    with Cons show ?thesis by (cases xs) (auto simp: instantiates_Lit)
  next
    case (Var n)
    with Cons show ?thesis by (auto simp: instantiates_Var segment_match_iff simp del: re_match.simps)
  qed
qed

text \<open>A match has exactly the slashes of the template: no placeholder spans a path segment.\<close>

fun template_slashes :: "item list \<Rightarrow> nat" where
  "template_slashes [] = 0"
| "template_slashes (Lit c # ts) = (if byte c = 47 then 1 else 0) + template_slashes ts"
| "template_slashes (Var n # ts) = template_slashes ts"

lemma instantiates_slashes: "instantiates ts xs \<Longrightarrow> count_list xs 47 = template_slashes ts"
  by (induction rule: instantiates.induct) (auto simp: count_list_0_iff)

section \<open>What the table holds\<close>

text \<open>The route \<open>buildRouter\<close> makes of an endpoint, and the entry it makes of a broker.\<close>

definition route_of :: "order_endpoint \<Rightarrow> compiled_route" where
  "route_of ep = \<lparr>cr_method = oe_method ep, cr_template = oe_path ep,
     cr_re = (case compile_path_template (oe_path ep) of Inr rs \<Rightarrow> rs | Inl _ \<Rightarrow> []), cr_endpoint = ep\<rparr>"

definition entry_of :: "broker_profile \<Rightarrow> broker_routes" where
  "entry_of bp = \<lparr>br_profile = bp, br_routes = map route_of (order_endpoints bp)\<rparr>"

lemma build_routes_shape: "build_routes i bid j eps = Inr rts \<Longrightarrow> rts = map route_of eps"
  by (induction eps arbitrary: j rts) (auto simp: route_of_def)

lemma build_brokers_shape:
  "build_brokers i m bps = Inr m' \<Longrightarrow> m' = put_all bp_id entry_of m bps"
  by (induction bps arbitrary: i m) (auto dest!: build_routes_shape simp: entry_of_def)

lemma build_router_shape:
  "build_router b = Inr r \<Longrightarrow>
     rt_bundle_version r = bundle_version b \<and> by_broker r = put_all bp_id entry_of Map.empty (brokers b)"
  by (auto simp: build_router_def dest!: build_brokers_shape)

lemma valid_path_compiles: "validate_path p = Inr () \<Longrightarrow> \<exists>rs. compile_path_template p = Inr rs"
proof -
  assume "validate_path p = Inr ()"
  then have "scan_path p = Inr ()" by (simp add: validate_path_def)
  then obtain ts where "list_all item_ok ts" "p = template_text ts" using text_scan_path by blast
  then show ?thesis by (simp add: compile_path_template_def compile_from_text)
qed

lemma build_routes_total:
  "\<forall>e\<in>set eps. validate_path (oe_path e) = Inr () \<Longrightarrow> \<exists>rts. build_routes i bid j eps = Inr rts"
proof (induction eps arbitrary: j)
  case Nil
  then show ?case by simp
next
  case (Cons e eps)
  then obtain rs where "compile_path_template (oe_path e) = Inr rs"
    using valid_path_compiles by (meson list.set_intros(1))
  moreover obtain rts where "build_routes i bid (Suc j) eps = Inr rts"
    using Cons by (meson list.set_intros(2))
  ultimately show ?case by simp
qed

lemma build_brokers_total:
  "\<forall>bp\<in>set bps. broker_ok bp \<Longrightarrow> \<exists>m'. build_brokers i m bps = Inr m'"
proof (induction bps arbitrary: i m)
  case Nil
  then show ?case by simp
next
  case (Cons bp bps)
  then have "\<forall>e\<in>set (order_endpoints bp). validate_path (oe_path e) = Inr ()"
    by (simp add: broker_ok_def validate_endpoint_iff)
  then obtain rts where "build_routes i (bp_id bp) 0 (order_endpoints bp) = Inr rts"
    using build_routes_total by blast
  with Cons show ?case by simp
qed

lemma build_router_total: "bundle_ok b \<Longrightarrow> \<exists>r. build_router b = Inr r"
  using build_brokers_total [of "brokers b" 0 Map.empty]
  by (auto simp: build_router_def bundle_ok_def)

section \<open>Lookup against the declarative reading\<close>

definition endpoint_admits :: "order_endpoint \<Rightarrow> string \<Rightarrow> string \<Rightarrow> bool" where
  "endpoint_admits e meth p = (oe_method e = meth
     \<and> (\<exists>ts. list_all item_ok ts \<and> oe_path e = template_text ts \<and> instantiates ts (runes p)))"

lemma route_of_matches:
  assumes "validate_path (oe_path e) = Inr ()"
  shows "cr_method (route_of e) = meth \<and> match_string (cr_re (route_of e)) p \<longleftrightarrow> endpoint_admits e meth p"
proof -
  have compiled: "cr_re (route_of e) = map item_re ts"
    if "list_all item_ok ts" "oe_path e = template_text ts" for ts
    using that by (simp add: route_of_def compile_path_template_def compile_from_text)
  obtain ts where ts: "list_all item_ok ts" "oe_path e = template_text ts"
    using assms text_scan_path by (auto simp: validate_path_def)
  show ?thesis
  proof
    assume "cr_method (route_of e) = meth \<and> match_string (cr_re (route_of e)) p"
    then show "endpoint_admits e meth p"
      using ts compiled [OF ts]
      by (auto simp: endpoint_admits_def match_string_def re_match_instantiates route_of_def)
  next
    assume "endpoint_admits e meth p"
    then show "cr_method (route_of e) = meth \<and> match_string (cr_re (route_of e)) p"
      by (auto simp: endpoint_admits_def match_string_def re_match_instantiates compiled)
        (simp add: route_of_def)
  qed
qed

lemma find_route_find:
  "find_route rts meth p = find (\<lambda>rt. cr_method rt = meth \<and> match_string (cr_re rt) p) rts"
  by (induction rts) auto

lemma find_map_route:
  "\<forall>e\<in>set es. validate_path (oe_path e) = Inr () \<Longrightarrow>
     map_option cr_endpoint (find_route (map route_of es) meth p) = find (\<lambda>e. endpoint_admits e meth p) es"
  unfolding find_route_find
  by (induction es) (auto simp: route_of_matches, simp add: route_of_def)

text \<open>
  The specification of the allowlist: the enabled broker of that id, and the first of its endpoints,
  in bundle order, that admits the request.
\<close>

definition allowed :: "broker_bundle \<Rightarrow> string \<Rightarrow> string \<Rightarrow> string \<Rightarrow> route_match option" where
  "allowed b bid meth p =
     (case find (\<lambda>bp. bp_id bp = bid) (brokers b) of
        None \<Rightarrow> None
      | Some bp \<Rightarrow> if enabled bp
          then map_option (\<lambda>e. \<lparr>m_broker = bp, m_endpoint = e\<rparr>)
                 (find (\<lambda>e. endpoint_admits e meth p) (order_endpoints bp))
          else None)"

lemma lookup_allowed:
  assumes ok: "bundle_ok b" and r: "build_router b = Inr r"
  shows "lookup_route r bid meth p = allowed b bid meth p"
proof -
  have entry: "by_broker r bid = map_option entry_of (find (\<lambda>bp. bp_id bp = bid) (brokers b))"
    using build_router_shape [OF r] ok
    by (simp add: bundle_ok_def put_all_find split: option.splits)
  show ?thesis
  proof (cases "find (\<lambda>bp. bp_id bp = bid) (brokers b)")
    case None
    with entry show ?thesis by (simp add: lookup_route_def allowed_def)
  next
    case (Some bp)
    then have "bp \<in> set (brokers b)" by (auto simp: find_Some_iff)
    with ok have "\<forall>e\<in>set (order_endpoints bp). validate_path (oe_path e) = Inr ()"
      by (auto simp: bundle_ok_def broker_ok_def validate_endpoint_iff)
    from find_map_route [OF this, of meth p, symmetric]
    have "map_option (\<lambda>rt. \<lparr>m_broker = bp, m_endpoint = cr_endpoint rt\<rparr>)
        (find_route (map route_of (order_endpoints bp)) meth p)
      = map_option (\<lambda>e. \<lparr>m_broker = bp, m_endpoint = e\<rparr>)
        (find (\<lambda>e. endpoint_admits e meth p) (order_endpoints bp))"
      by (simp add: option.map_comp comp_def)
    with entry Some show ?thesis by (simp add: lookup_route_def allowed_def entry_of_def)
  qed
qed

end
