(* ===== verification/FileSystem.thy ===== *)
theory FileSystem
  imports Prelude GoStrings
begin

text \<open>
  The file system the program works on, as the calls of Go's \<open>os\<close> package it makes see it. A world
  holds the files (content and mode by path), the outcomes still to be drawn for system calls, a
  counter for the random part of temporary names, and the successive states of the files, latest
  first, so that a statement can speak of every instant at which the machine may stop.

  Any call may fail for a reason outside the program (permissions, a full disk, an I/O error): each
  call draws one outcome from \<open>faults\<close>, \<open>True\<close> for such a failure, and an empty list means no more
  failures. A failing call changes nothing. Directories are taken to exist; a missing one is such a
  failure. \<open>Rename\<close> replaces its target in one step.
\<close>

record fentry =
  content :: bytes
  mode :: nat

type_synonym files = "path \<rightharpoonup> fentry"

record world =
  files :: files
  faults :: "bool list"
  tmp_seq :: nat
  history :: "files list"

datatype os_err = NotExist | Failure

text \<open>Drawing an outcome, and publishing a new state of the files.\<close>

definition draw :: "world \<Rightarrow> bool \<times> world" where
  "draw w = (case faults w of [] \<Rightarrow> (False, w) | f # fs \<Rightarrow> (f, w\<lparr>faults := fs\<rparr>))"

definition publish :: "files \<Rightarrow> world \<Rightarrow> world" where
  "publish m w = w\<lparr>files := m, history := m # history w\<rparr>"

definition content_of :: "world \<Rightarrow> path \<Rightarrow> bytes option" where
  "content_of w p = map_option content (files w p)"

definition exists_file :: "world \<Rightarrow> path \<Rightarrow> bool" where
  "exists_file w p = (files w p \<noteq> None)"

section \<open>Calls\<close>

definition os_read_file :: "path \<Rightarrow> world \<Rightarrow> (os_err + bytes) \<times> world" where
  "os_read_file p w = (case draw w of (f, w') \<Rightarrow>
     (if f then Inl Failure
      else case files w' p of None \<Rightarrow> Inl NotExist | Some fl \<Rightarrow> Inr (content fl), w'))"

definition os_stat :: "path \<Rightarrow> world \<Rightarrow> (os_err + unit) \<times> world" where
  "os_stat p w = (case draw w of (f, w') \<Rightarrow>
     (if f then Inl Failure else if files w' p = None then Inl NotExist else Inr (), w'))"

definition os_remove :: "path \<Rightarrow> world \<Rightarrow> (os_err + unit) \<times> world" where
  "os_remove p w = (case draw w of (f, w') \<Rightarrow>
     if f then (Inl Failure, w')
     else if files w' p = None then (Inl NotExist, w')
     else (Inr (), publish ((files w')(p := None)) w'))"

definition os_rename :: "path \<Rightarrow> path \<Rightarrow> world \<Rightarrow> (os_err + unit) \<times> world" where
  "os_rename src dst w = (case draw w of (f, w') \<Rightarrow>
     if f then (Inl Failure, w')
     else case files w' src of
       None \<Rightarrow> (Inl NotExist, w')
     | Some fl \<Rightarrow> (Inr (), publish ((files w')(src := None, dst \<mapsto> fl)) w'))"

text \<open>\<open>os.CreateTemp(dir, base + ".tmp.*")\<close>: an empty file of mode 0600 under a fresh name.\<close>

definition tmp_name :: "path \<Rightarrow> nat \<Rightarrow> path" where
  "tmp_name p n = p @ ''.tmp.'' @ nat_str n"

definition os_create_temp :: "path \<Rightarrow> world \<Rightarrow> (os_err + path) \<times> world" where
  "os_create_temp p w = (case draw w of (f, w') \<Rightarrow>
     let t = tmp_name p (tmp_seq w'); w'' = w'\<lparr>tmp_seq := Suc (tmp_seq w')\<rparr> in
     if f \<or> files w'' t \<noteq> None then (Inl Failure, w'')
     else (Inr t, publish ((files w'')(t \<mapsto> \<lparr>content = [], mode = 384\<rparr>)) w''))"

text \<open>Writing to, changing the mode of, and closing the open temporary file at \<open>t\<close>.\<close>

definition file_write :: "path \<Rightarrow> bytes \<Rightarrow> world \<Rightarrow> (os_err + unit) \<times> world" where
  "file_write t data w = (case draw w of (f, w') \<Rightarrow>
     if f then (Inl Failure, w')
     else case files w' t of
       None \<Rightarrow> (Inr (), w')
     | Some fl \<Rightarrow> (Inr (), publish ((files w')(t \<mapsto> fl\<lparr>content := content fl @ data\<rparr>)) w'))"

definition file_chmod :: "path \<Rightarrow> nat \<Rightarrow> world \<Rightarrow> (os_err + unit) \<times> world" where
  "file_chmod t m w = (case draw w of (f, w') \<Rightarrow>
     if f then (Inl Failure, w')
     else case files w' t of
       None \<Rightarrow> (Inr (), w')
     | Some fl \<Rightarrow> (Inr (), publish ((files w')(t \<mapsto> fl\<lparr>mode := m\<rparr>)) w'))"

definition file_close :: "world \<Rightarrow> (os_err + unit) \<times> world" where
  "file_close w = (case draw w of (f, w') \<Rightarrow> (if f then Inl Failure else Inr (), w'))"

text \<open>
  \<open>os.Create\<close> empties an existing file and keeps its mode, a new one gets 0666; \<open>os.WriteFile\<close> does so with
  the mode given and then writes, so a failure between the two leaves an empty file.
\<close>

definition os_create_mode :: "nat \<Rightarrow> path \<Rightarrow> world \<Rightarrow> (os_err + unit) \<times> world" where
  "os_create_mode m p w = (case draw w of (f, w') \<Rightarrow>
     if f then (Inl Failure, w')
     else (Inr (), publish ((files w')(p \<mapsto> \<lparr>content = [],
        mode = (case files w' p of None \<Rightarrow> m | Some fl \<Rightarrow> mode fl)\<rparr>)) w'))"

definition os_create :: "path \<Rightarrow> world \<Rightarrow> (os_err + unit) \<times> world" where
  "os_create p w = os_create_mode 438 p w"

definition os_write_file :: "path \<Rightarrow> bytes \<Rightarrow> nat \<Rightarrow> world \<Rightarrow> (os_err + unit) \<times> world" where
  "os_write_file p d m w =
     (case os_create_mode m p w of
        (Inl e, w1) \<Rightarrow> (Inl e, w1)
      | (Inr _, w1) \<Rightarrow> (case file_write p d w1 of
          (Inl e, w2) \<Rightarrow> (Inl e, snd (file_close w2))
        | (Inr _, w2) \<Rightarrow> file_close w2))"

text \<open>\<open>os.MkdirAll\<close>: directories are not part of the world, so it can only fail.\<close>

definition os_mkdir_all :: "path \<Rightarrow> world \<Rightarrow> (os_err + unit) \<times> world" where
  "os_mkdir_all p w = (case draw w of (f, w') \<Rightarrow> (if f then Inl Failure else Inr (), w'))"

lemmas os_defs = os_read_file_def os_stat_def os_remove_def os_rename_def os_create_temp_def
  file_write_def file_chmod_def file_close_def draw_def publish_def

section \<open>Effect of each call\<close>

lemma draw_cases:
  obtains (ok) w' where "draw w = (False, w')" "files w' = files w" "tmp_seq w' = tmp_seq w" "history w' = history w"
  | (fault) w' where "draw w = (True, w')" "files w' = files w" "tmp_seq w' = tmp_seq w" "history w' = history w"
  by (cases "faults w") (auto simp: draw_def split: bool.splits)

text \<open>A run without failures: nothing is left to fail.\<close>

definition healthy :: "world \<Rightarrow> bool" where "healthy w = (list_all (\<lambda>f. \<not> f) (faults w))"

lemma draw_healthy: "healthy w \<Longrightarrow> \<exists>w'. draw w = (False, w') \<and> healthy w' \<and> files w' = files w
    \<and> tmp_seq w' = tmp_seq w \<and> history w' = history w"
  by (cases "faults w") (auto simp: draw_def healthy_def)

lemma publish_simps [simp]:
  "files (publish m w) = m" "faults (publish m w) = faults w" "tmp_seq (publish m w) = tmp_seq w"
  "history (publish m w) = m # history w" "healthy (publish m w) = healthy w"
  by (simp_all add: publish_def healthy_def)

lemma reads_frame [fs_frame]:
  "os_read_file p w = (r, w') \<Longrightarrow> files w' = files w"
  "os_stat p w = (r', w') \<Longrightarrow> files w' = files w"
  "file_close w = (r', w') \<Longrightarrow> files w' = files w"
  by (cases w rule: draw_cases; auto simp: os_read_file_def os_stat_def file_close_def)+

lemma os_read_file_ok: "os_read_file p w = (Inr d, w') \<Longrightarrow> content_of w p = Some d"
  by (cases w rule: draw_cases) (auto simp: os_read_file_def content_of_def split: option.splits)

lemma os_stat_ok: "os_stat p w = (Inr u, w') \<Longrightarrow> files w p \<noteq> None"
  by (cases w rule: draw_cases) (auto simp: os_stat_def split: if_splits)

lemma os_stat_missing: "os_stat p w = (Inl NotExist, w') \<Longrightarrow> files w p = None"
  by (cases w rule: draw_cases) (auto simp: os_stat_def split: if_splits)

lemma os_remove_frame [fs_frame]:
  "os_remove p w = (r, w') \<Longrightarrow> q \<noteq> p \<Longrightarrow> files w' q = files w q"
  by (cases w rule: draw_cases) (auto simp: os_remove_def split: if_splits)

lemma os_rename_frame [fs_frame]:
  "os_rename src dst w = (r, w') \<Longrightarrow> q \<noteq> src \<Longrightarrow> q \<noteq> dst \<Longrightarrow> files w' q = files w q"
  by (cases w rule: draw_cases) (auto simp: os_rename_def split: if_splits option.splits)

lemma os_rename_ok:
  "os_rename src dst w = (Inr u, w') \<Longrightarrow> \<exists>fl. files w src = Some fl \<and> files w' = (files w)(src := None, dst \<mapsto> fl)"
  by (cases w rule: draw_cases) (auto simp: os_rename_def split: if_splits option.splits)

lemma os_rename_err: "os_rename src dst w = (Inl e, w') \<Longrightarrow> files w' = files w"
  by (cases w rule: draw_cases) (auto simp: os_rename_def split: if_splits option.splits)

lemma os_create_temp_ok:
  "os_create_temp p w = (Inr t, w') \<Longrightarrow>
     t = tmp_name p (tmp_seq w) \<and> files w t = None \<and> files w' = (files w)(t \<mapsto> \<lparr>content = [], mode = 384\<rparr>)"
  by (cases w rule: draw_cases) (auto simp: os_create_temp_def Let_def split: if_splits)

lemma os_create_temp_err: "os_create_temp p w = (Inl e, w') \<Longrightarrow> files w' = files w"
  by (cases w rule: draw_cases) (auto simp: os_create_temp_def Let_def split: if_splits)

lemma file_write_frame [fs_frame]:
  "file_write t d w = (r, w') \<Longrightarrow> q \<noteq> t \<Longrightarrow> files w' q = files w q"
  "file_chmod t m w = (r, w') \<Longrightarrow> q \<noteq> t \<Longrightarrow> files w' q = files w q"
  by (cases w rule: draw_cases; auto simp: file_write_def file_chmod_def split: if_splits option.splits)+

lemma os_create_frame [fs_frame]:
  "os_create_mode m p w = (r, w') \<Longrightarrow> q \<noteq> p \<Longrightarrow> files w' q = files w q"
  "os_create p w = (r, w') \<Longrightarrow> q \<noteq> p \<Longrightarrow> files w' q = files w q"
  by (cases w rule: draw_cases; auto simp: os_create_mode_def os_create_def)+

lemma os_create_ok:
  "os_create_mode m p w = (Inr u, w') \<Longrightarrow> content_of w' p = Some []"
  by (cases w rule: draw_cases) (auto simp: os_create_mode_def content_of_def)

lemma file_write_ok:
  "file_write p d w = (Inr u, w') \<Longrightarrow> content_of w' p = map_option (\<lambda>c. c @ d) (content_of w p)"
  by (cases w rule: draw_cases) (auto simp: file_write_def content_of_def split: option.splits)

lemma os_write_file_frame [fs_frame]:
  "os_write_file p d m w = (r, w') \<Longrightarrow> q \<noteq> p \<Longrightarrow> files w' q = files w q"
  unfolding os_write_file_def
  by (auto split: prod.splits sum.splits dest!: os_create_frame file_write_frame reads_frame(3))
    (metis reads_frame(3) prod.collapse)

lemma os_write_file_ok:
  "os_write_file p d m w = (Inr u, w') \<Longrightarrow> content_of w' p = Some d"
  unfolding os_write_file_def
  by (auto split: prod.splits sum.splits simp: content_of_def dest!: os_create_ok file_write_ok reads_frame(3))

text \<open>What each call does when nothing is left to fail.\<close>

lemma os_read_file_healthy:
  "healthy w \<Longrightarrow> content_of w p = Some d \<Longrightarrow>
     \<exists>w'. os_read_file p w = (Inr d, w') \<and> healthy w' \<and> files w' = files w"
  using draw_healthy [of w] by (auto simp: os_read_file_def content_of_def)

lemma os_read_file_missing:
  "healthy w \<Longrightarrow> files w p = None \<Longrightarrow>
     \<exists>w'. os_read_file p w = (Inl NotExist, w') \<and> healthy w' \<and> files w' = files w"
  using draw_healthy [of w] by (auto simp: os_read_file_def)

lemma os_stat_healthy:
  "healthy w \<Longrightarrow> \<exists>w'. os_stat p w = (if files w p = None then Inl NotExist else Inr (), w')
     \<and> healthy w' \<and> files w' = files w"
  using draw_healthy [of w] by (auto simp: os_stat_def)

lemma file_close_healthy: "healthy w \<Longrightarrow> \<exists>w'. file_close w = (Inr (), w') \<and> healthy w' \<and> files w' = files w"
  using draw_healthy [of w] by (auto simp: file_close_def)

lemma os_create_healthy:
  assumes "healthy w"
  shows "\<exists>fl w'. os_create p w = (Inr (), w') \<and> healthy w' \<and> content fl = [] \<and> files w' = (files w)(p \<mapsto> fl)"
proof -
  let ?fl = "\<lparr>content = [], mode = case files w p of None \<Rightarrow> 438 | Some fl \<Rightarrow> mode fl\<rparr>"
  have "content ?fl = []" by simp
  with draw_healthy [OF assms] show ?thesis
    by (intro exI [of _ ?fl]) (auto simp: os_create_def os_create_mode_def)
qed

lemma file_write_healthy:
  "healthy w \<Longrightarrow> files w p = Some fl \<Longrightarrow>
     \<exists>w'. file_write p d w = (Inr (), w') \<and> healthy w' \<and> files w' = (files w)(p \<mapsto> fl\<lparr>content := content fl @ d\<rparr>)"
  using draw_healthy [of w] by (auto simp: file_write_def)

lemma os_rename_healthy:
  "healthy w \<Longrightarrow> files w p = Some fl \<Longrightarrow>
     \<exists>w'. os_rename p q w = (Inr (), w') \<and> healthy w' \<and> files w' = (files w)(p := None, q \<mapsto> fl)"
  using draw_healthy [of w] by (auto simp: os_rename_def)

lemma os_remove_healthy:
  "healthy w \<Longrightarrow> files w p = Some fl \<Longrightarrow>
     \<exists>w'. os_remove p w = (Inr (), w') \<and> healthy w' \<and> files w' = (files w)(p := None)"
  using draw_healthy [of w] by (auto simp: os_remove_def)

lemma tmp_name_neq [simp]: "tmp_name p n \<noteq> p" "p \<noteq> tmp_name p n"
  by (auto simp: tmp_name_def)

end
