(* ===== verification/Load.thy ===== *)
theory Load
  imports Router FileSystem
begin

text \<open>
  Loading a bundle, \<open>internal/profile/load.go\<close>: read the three files, check the detached signature
  against the pinned key, decode strictly, validate, enforce the version gates, build the router.

  Not modelled but taken as parameters, with no assumption on them: the cryptographic routines and
  the PEM and PKIX parsers of Go's \<open>crypto\<close> and \<open>encoding\<close> packages (record \<open>crypto\<close>), and the
  strict decoder of the third-party package \<open>yaml.v3\<close> (record \<open>yaml_codec\<close>: the first
  document of the bytes, and what a second call of \<open>Decode\<close> finds).
\<close>

section \<open>Parameters\<close>

datatype pkix_key = EcdsaKey string bytes | OtherKey string

record crypto =
  pem_decode :: "bytes \<Rightarrow> (string \<times> bytes) option"
  parse_pkix :: "bytes \<Rightarrow> pkix_key option"
  sha256 :: "bytes \<Rightarrow> bytes"
  verify_asn1 :: "bytes \<Rightarrow> bytes \<Rightarrow> bytes \<Rightarrow> bool"

datatype yaml_tail = AnotherDocument | EndOfInput | BadTail

record yaml_codec =
  yaml_first :: "bytes \<Rightarrow> broker_bundle option"
  yaml_rest :: "bytes \<Rightarrow> yaml_tail"

section \<open>Operations\<close>

record load_options =
  lo_bundle_path :: path
  lo_sig_path :: path
  lo_pubkey_path :: path
  lo_binary_version :: string
  lo_previous_version :: string

record load_result =
  lr_bundle :: broker_bundle
  lr_router :: router

datatype pubkey_err = PubkeyRead os_err | NoPemBlock | PemType string | BadPkix | NotEcdsa string | NotP256 string

datatype load_err = ReadBundle os_err | ReadSignature os_err | PubkeyErr pubkey_err
  | SignatureEmpty | SignatureInvalid | YamlParse | YamlExtraDocument | YamlTrailing
  | Invalid bundle_err | VersionGate semver_err | MinVersionExceeds string string
  | DowngradeRefused string string | BuildErr build_err

text \<open>The part of \<open>readPubkey\<close> after the file was read.\<close>

definition decode_pubkey :: "crypto \<Rightarrow> bytes \<Rightarrow> pubkey_err + bytes" where
  "decode_pubkey C raw =
     (case pem_decode C raw of
        None \<Rightarrow> Inl NoPemBlock
      | Some (ty, der) \<Rightarrow>
          check (ty \<noteq> ''PUBLIC KEY'') (PemType ty)
            (case parse_pkix C der of
               None \<Rightarrow> Inl BadPkix
             | Some (OtherKey ty') \<Rightarrow> Inl (NotEcdsa ty')
             | Some (EcdsaKey curve pub) \<Rightarrow> check (curve \<noteq> ''P-256'') (NotP256 curve) (Inr pub)))"

definition read_pubkey :: "crypto \<Rightarrow> path \<Rightarrow> world \<Rightarrow> (pubkey_err + bytes) \<times> world" where
  "read_pubkey C p w = (case os_read_file p w of
       (Inl e, w') \<Rightarrow> (Inl (PubkeyRead e), w')
     | (Inr raw, w') \<Rightarrow> (decode_pubkey C raw, w'))"

definition verify_signature :: "crypto \<Rightarrow> bytes \<Rightarrow> bytes \<Rightarrow> bytes \<Rightarrow> load_err + unit" where
  "verify_signature C pub msg sig =
     check (sig = []) SignatureEmpty
    (check (\<not> verify_asn1 C pub (sha256 C msg) sig) SignatureInvalid (Inr ()))"

definition decode_bundle :: "yaml_codec \<Rightarrow> bytes \<Rightarrow> load_err + broker_bundle" where
  "decode_bundle Y data =
     (case yaml_first Y data of
        None \<Rightarrow> Inl YamlParse
      | Some b \<Rightarrow> (case yaml_rest Y data of
            AnotherDocument \<Rightarrow> Inl YamlExtraDocument
          | BadTail \<Rightarrow> Inl YamlTrailing
          | EndOfInput \<Rightarrow> Inr b))"

definition enforce_version_gates :: "broker_bundle \<Rightarrow> load_options \<Rightarrow> load_err + unit" where
  "enforce_version_gates b opts =
     andthen
       (if lo_binary_version opts \<noteq> [] \<and> lo_binary_version opts \<noteq> ''dev''
        then andthen (wrap_err VersionGate (compare_semver (lo_binary_version opts) (min_proxy_version b)))
               (\<lambda>cmp. check (cmp < 0) (MinVersionExceeds (min_proxy_version b) (lo_binary_version opts)) (Inr ()))
        else Inr ())
       (\<lambda>_. check (lo_previous_version opts \<noteq> [] \<and> bundle_version b \<le> lo_previous_version opts)
              (DowngradeRefused (bundle_version b) (lo_previous_version opts)) (Inr ()))"

text \<open>\<open>LoadAndVerify\<close> once the three files are read.\<close>

definition verify_bytes ::
    "crypto \<Rightarrow> yaml_codec \<Rightarrow> load_options \<Rightarrow> bytes \<Rightarrow> bytes \<Rightarrow> bytes \<Rightarrow> load_err + load_result" where
  "verify_bytes C Y opts pub data sig =
     andthen (verify_signature C pub data sig) (\<lambda>_.
     andthen (decode_bundle Y data) (\<lambda>b.
     andthen (wrap_err Invalid (validate_bundle b)) (\<lambda>_.
     andthen (enforce_version_gates b opts) (\<lambda>_.
     andthen (wrap_err BuildErr (build_router b)) (\<lambda>r.
       Inr \<lparr>lr_bundle = b, lr_router = r\<rparr>)))))"

definition load_and_verify ::
    "crypto \<Rightarrow> yaml_codec \<Rightarrow> load_options \<Rightarrow> world \<Rightarrow> (load_err + load_result) \<times> world" where
  "load_and_verify C Y opts w =
     (case os_read_file (lo_bundle_path opts) w of
        (Inl e, w1) \<Rightarrow> (Inl (ReadBundle e), w1)
      | (Inr data, w1) \<Rightarrow>
     (case os_read_file (lo_sig_path opts) w1 of
        (Inl e, w2) \<Rightarrow> (Inl (ReadSignature e), w2)
      | (Inr sig, w2) \<Rightarrow>
     (case read_pubkey C (lo_pubkey_path opts) w2 of
        (Inl e, w3) \<Rightarrow> (Inl (PubkeyErr e), w3)
      | (Inr pub, w3) \<Rightarrow> (verify_bytes C Y opts pub data sig, w3))))"

section \<open>What a successful load guarantees\<close>

text \<open>
  The gates as a predicate: the bundle bytes, their signature and the pinned key at the three paths,
  and the bundle that may be published.
\<close>

definition version_gates_ok :: "broker_bundle \<Rightarrow> load_options \<Rightarrow> bool" where
  "version_gates_ok b opts =
     ((lo_binary_version opts \<notin> {[], ''dev''} \<longrightarrow>
         (\<exists>v w. parse_semver (lo_binary_version opts) = Inr v \<and> parse_semver (min_proxy_version b) = Inr w \<and> w \<le> v))
      \<and> (lo_previous_version opts \<noteq> [] \<longrightarrow> lo_previous_version opts < bundle_version b))"

definition bytes_ok :: "crypto \<Rightarrow> yaml_codec \<Rightarrow> load_options \<Rightarrow> bytes \<Rightarrow> bytes \<Rightarrow> bytes \<Rightarrow> broker_bundle \<Rightarrow> bool" where
  "bytes_ok C Y opts pub data sig b =
     (sig \<noteq> [] \<and> verify_asn1 C pub (sha256 C data) sig
      \<and> yaml_first Y data = Some b \<and> yaml_rest Y data = EndOfInput
      \<and> bundle_ok b \<and> version_gates_ok b opts)"

lemma compare_semver_Inr:
  "compare_semver a b = Inr c \<longleftrightarrow> (\<exists>v w. parse_semver a = Inr v \<and> parse_semver b = Inr w
     \<and> c = (if v < w then -1 else if w < v then 1 else 0))"
  by (auto simp: compare_semver_def compare_loop_order)

lemma enforce_version_gates_iff: "enforce_version_gates b opts = Inr () \<longleftrightarrow> version_gates_ok b opts"
proof -
  have "(\<exists>cmp. compare_semver v m = Inr cmp \<and> \<not> cmp < 0) \<longleftrightarrow>
      (\<exists>x y. parse_semver v = Inr x \<and> parse_semver m = Inr y \<and> y \<le> x)" for v m
    by (cases "parse_semver v"; cases "parse_semver m")
       (auto simp: compare_semver_def compare_loop_order not_less)
  then show ?thesis
    by (auto simp: enforce_version_gates_def version_gates_ok_def not_le)
qed

lemma verify_bytes_iff:
  "verify_bytes C Y opts pub data sig = Inr res \<longleftrightarrow>
     bytes_ok C Y opts pub data sig (lr_bundle res) \<and> build_router (lr_bundle res) = Inr (lr_router res)"
proof -
  have "decode_bundle Y data = Inr b \<longleftrightarrow> yaml_first Y data = Some b \<and> yaml_rest Y data = EndOfInput" for b
    by (auto simp: decode_bundle_def split: option.splits yaml_tail.splits)
  then show ?thesis
    by (cases res) (auto simp: verify_bytes_def bytes_ok_def verify_signature_def validate_bundle_iff
        enforce_version_gates_iff)
qed

lemma verify_bytes_total:
  "bytes_ok C Y opts pub data sig b \<Longrightarrow>
     \<exists>r. build_router b = Inr r \<and> verify_bytes C Y opts pub data sig = Inr \<lparr>lr_bundle = b, lr_router = r\<rparr>"
  using build_router_total [of b] by (auto simp: verify_bytes_iff bytes_ok_def)

text \<open>The pinned key at a path of the world.\<close>

definition pinned :: "crypto \<Rightarrow> world \<Rightarrow> path \<Rightarrow> bytes \<Rightarrow> bool" where
  "pinned C w p pub = (\<exists>raw. content_of w p = Some raw \<and> decode_pubkey C raw = Inr pub)"

definition loadable :: "crypto \<Rightarrow> yaml_codec \<Rightarrow> load_options \<Rightarrow> world \<Rightarrow> load_result \<Rightarrow> bool" where
  "loadable C Y opts w res =
     (\<exists>data sig pub. content_of w (lo_bundle_path opts) = Some data
        \<and> content_of w (lo_sig_path opts) = Some sig \<and> pinned C w (lo_pubkey_path opts) pub
        \<and> bytes_ok C Y opts pub data sig (lr_bundle res)
        \<and> build_router (lr_bundle res) = Inr (lr_router res))"

lemma content_of_cong: "files w' = files w \<Longrightarrow> content_of w' = content_of w"
  by (rule ext) (simp add: content_of_def)

lemma read_pubkey_frame [fs_frame]: "read_pubkey C p w = (r, w') \<Longrightarrow> files w' = files w"
  by (auto simp: read_pubkey_def split: prod.splits sum.splits dest: reads_frame)

lemma read_pubkey_ok: "read_pubkey C p w = (Inr pub, w') \<Longrightarrow> pinned C w p pub"
  by (auto simp: read_pubkey_def pinned_def split: prod.splits sum.splits dest: os_read_file_ok)

lemma load_frame [fs_frame]: "load_and_verify C Y opts w = (r, w') \<Longrightarrow> files w' = files w"
  unfolding load_and_verify_def
  by (auto split: prod.splits sum.splits dest!: reads_frame read_pubkey_frame)

lemma load_sound:
  assumes "load_and_verify C Y opts w = (Inr res, w')"
  shows "loadable C Y opts w res"
proof -
  from assms obtain data w1 sig w2 pub where
      1: "os_read_file (lo_bundle_path opts) w = (Inr data, w1)"
    and 2: "os_read_file (lo_sig_path opts) w1 = (Inr sig, w2)"
    and 3: "read_pubkey C (lo_pubkey_path opts) w2 = (Inr pub, w')"
    and 4: "verify_bytes C Y opts pub data sig = Inr res"
    by (auto simp: load_and_verify_def split: prod.splits sum.splits)
  have w1: "content_of w1 = content_of w"
    by (rule content_of_cong) (rule reads_frame(1) [OF 1])
  then have w2: "content_of w2 = content_of w"
    using content_of_cong [OF reads_frame(1) [OF 2]] by simp
  have "content_of w (lo_bundle_path opts) = Some data" "content_of w (lo_sig_path opts) = Some sig"
      "pinned C w (lo_pubkey_path opts) pub"
    using os_read_file_ok [OF 1] os_read_file_ok [OF 2] read_pubkey_ok [OF 3]
    by (simp_all add: pinned_def w1 w2)
  with 4 show ?thesis by (auto simp: loadable_def verify_bytes_iff)
qed

lemma load_complete:
  assumes "healthy w" and "loadable C Y opts w res"
  shows "fst (load_and_verify C Y opts w) = Inr res"
proof -
  from assms(2) obtain data sig pub raw where
      d: "content_of w (lo_bundle_path opts) = Some data" "content_of w (lo_sig_path opts) = Some sig"
         "content_of w (lo_pubkey_path opts) = Some raw" "decode_pubkey C raw = Inr pub"
    and b: "bytes_ok C Y opts pub data sig (lr_bundle res)" "build_router (lr_bundle res) = Inr (lr_router res)"
    by (auto simp: loadable_def pinned_def)
  obtain w1 where w1: "os_read_file (lo_bundle_path opts) w = (Inr data, w1)" "healthy w1" "files w1 = files w"
    using os_read_file_healthy [OF assms(1) d(1)] by blast
  obtain w2 where w2: "os_read_file (lo_sig_path opts) w1 = (Inr sig, w2)" "healthy w2" "files w2 = files w"
    using os_read_file_healthy [OF w1(2)] d(2) w1(3) by (metis content_of_cong)
  obtain w3 where w3: "os_read_file (lo_pubkey_path opts) w2 = (Inr raw, w3)"
    using os_read_file_healthy [OF w2(2)] d(3) w2(3) by (metis content_of_cong)
  from b have "verify_bytes C Y opts pub data sig = Inr res" by (simp add: verify_bytes_iff)
  with w1 w2 w3 d(4) show ?thesis
    by (simp add: load_and_verify_def read_pubkey_def)
qed

end
