(* ===== verification/Fixtures.thy ===== *)
theory Fixtures
  imports Load
begin

text \<open>
  Concrete inputs for the witnesses: a bundle with one broker in several versions, a decoder that knows
  these bundles by name, a key, and a signature scheme that accepts the signature ``sig''. They stand
  in for the code outside the repository only where a theorem is applied to a concrete input.
\<close>

definition ex_endpoints :: "order_endpoint list" where
  "ex_endpoints =
     [\<lparr>oe_method = ''POST'', oe_path = ''/orders'', oe_kind = ''place''\<rparr>,
      \<lparr>oe_method = ''DELETE'', oe_path = ''/orders/{order_id}'', oe_kind = ''cancel''\<rparr>]"

definition ex_broker :: broker_profile where
  "ex_broker = \<lparr>bp_id = ''acme'', display_name = ''Acme'', bp_host = ''api.acme.com'', enabled = True,
     order_endpoints = ex_endpoints,
     idempotency = \<lparr>client_order_id_header = [], client_order_id_body_path = [], echo_in_response_path = []\<rparr>,
     rate_limit = \<lparr>per_user_rps = 5, per_user_burst = 10\<rparr>\<rparr>"

definition ex_bundle :: "string \<Rightarrow> broker_bundle" where
  "ex_bundle v = \<lparr>schema_version = 1, bundle_version = v, issued_at = 1, issuer = ''tesseract'',
     min_proxy_version = ''1.0.0'', brokers = [ex_broker]\<rparr>"

definition ex_yaml :: yaml_codec where
  "ex_yaml = \<lparr>yaml_first = (\<lambda>d. if d = ''A'' then Some (ex_bundle ''2026-01-01'')
       else if d = ''B'' then Some (ex_bundle ''2026-02-01'') else None), yaml_rest = (\<lambda>_. EndOfInput)\<rparr>"

definition ex_crypto :: crypto where
  "ex_crypto = \<lparr>pem_decode = (\<lambda>d. Some (''PUBLIC KEY'', d)), parse_pkix = (\<lambda>d. Some (EcdsaKey ''P-256'' d)),
     sha256 = (\<lambda>m. m), verify_asn1 = (\<lambda>k m s. k = ''key'' \<and> s = ''sig'')\<rparr>"

text \<open>The files of a proxy that runs bundle A, with or without its signature, and no failures to come.\<close>

definition ex_entry :: "bytes \<Rightarrow> fentry" where "ex_entry d = \<lparr>content = d, mode = 384\<rparr>"

definition ex_world :: "bool list \<Rightarrow> world" where
  "ex_world fs = \<lparr>files = [''b'' \<mapsto> ex_entry ''A'', ''s'' \<mapsto> ex_entry ''sig'', ''k'' \<mapsto> ex_entry ''key''],
     faults = fs, tmp_seq = 0, history = []\<rparr>"

definition ex_options :: "string \<Rightarrow> load_options" where
  "ex_options prev = \<lparr>lo_bundle_path = ''b'', lo_sig_path = ''s'', lo_pubkey_path = ''k'',
     lo_binary_version = ''1.2.0'', lo_previous_version = prev\<rparr>"

lemmas ex_defs = ex_endpoints_def ex_broker_def ex_bundle_def ex_yaml_def ex_crypto_def ex_world_def
  ex_entry_def ex_options_def

lemma ex_bundle_ok:
  "validate_bundle (ex_bundle ''2026-01-01'') = Inr ()" "validate_bundle (ex_bundle ''2026-02-01'') = Inr ()"
  by code_simp+

end
