(* ===== verification/ProfileFacts.thy ===== *)
theory ProfileFacts
  imports Fixtures
begin

text \<open>
  The properties of the profile package: what bundle validation accepts, what a path template matches,
  that the router answers as the bundle says, and what a load guarantees.
\<close>

section \<open>The allowlist as an interface\<close>

text \<open>
  What the proxy relies on in a routing table: \<open>look\<close> answers for a broker id, a method and a path
  exactly what \<open>spec\<close> admits. A client only needs the two directions.
\<close>

locale allowlist =
  fixes look :: "router \<Rightarrow> string \<Rightarrow> string \<Rightarrow> string \<Rightarrow> route_match option"
    and spec :: "broker_bundle \<Rightarrow> string \<Rightarrow> string \<Rightarrow> string \<Rightarrow> route_match option"
    and built :: "broker_bundle \<Rightarrow> router \<Rightarrow> bool"
  assumes look_spec: "built b r \<Longrightarrow> look r bid meth p = spec b bid meth p"
    and spec_sound: "built b r \<Longrightarrow> spec b bid meth p = Some m \<Longrightarrow>
          m_broker m \<in> set (brokers b) \<and> bp_id (m_broker m) = bid \<and> enabled (m_broker m)
          \<and> m_endpoint m \<in> set (order_endpoints (m_broker m)) \<and> endpoint_admits (m_endpoint m) meth p"
begin

lemma look_sound:
  assumes "built b r" and "look r bid meth p = Some m"
  shows "m_broker m \<in> set (brokers b)" and "bp_id (m_broker m) = bid" and "enabled (m_broker m)"
    and "m_endpoint m \<in> set (order_endpoints (m_broker m))" and "endpoint_admits (m_endpoint m) meth p"
  using spec_sound [OF assms(1), of bid meth p m] look_spec [OF assms(1), of bid meth p] assms(2) by auto

lemma look_unlisted:
  assumes "built b r" and "bid \<notin> bp_id ` set (brokers b)"
  shows "look r bid meth p = None"
  using look_sound [OF assms(1), of bid meth p] assms(2) by (cases "look r bid meth p") auto

end

definition router_for :: "broker_bundle \<Rightarrow> router \<Rightarrow> bool" where
  "router_for b r = (bundle_ok b \<and> build_router b = Inr r)"

interpretation routes: allowlist lookup_route allowed router_for
proof (unfold_locales, goal_cases)
  case (1 b r bid meth p)
  then show ?case by (simp add: router_for_def lookup_allowed)
next
  case (2 b r bid meth p m)
  then show ?case
    by (auto simp: allowed_def find_Some_iff split: option.splits if_splits)
qed

section \<open>Properties\<close>


text \<open>
  A path that validates is a template; it compiles, and the compiled pattern matches exactly
  the paths got by putting a non-empty run of runes without a slash for each placeholder. So a match
  has as many slashes as the template.
\<close>

theorem template_language:
  assumes "validate_path p = Inr ()"
  shows "\<exists>ts rs. list_all item_ok ts \<and> p = template_text ts \<and> compile_path_template p = Inr rs
      \<and> (\<forall>s. match_string rs s \<longleftrightarrow> instantiates ts (runes s))
      \<and> (\<forall>s. match_string rs s \<longrightarrow> count_list (runes s) 47 = template_slashes ts)"
proof -
  from assms obtain ts where ts: "list_all item_ok ts" "p = template_text ts"
    using text_scan_path by (auto simp: validate_path_def)
  then have "compile_path_template p = Inr (map item_re ts)"
    by (simp add: compile_path_template_def compile_from_text)
  with ts show ?thesis
    by (intro exI [of _ ts] exI [of _ "map item_re ts"])
       (simp add: match_string_def re_match_instantiates instantiates_slashes)
qed

lemma ex_path_ok: "validate_path ''/orders/{order_id}'' = Inr ()"
  by code_simp

theorem template_language_witness:
  "\<exists>ts rs. list_all item_ok ts \<and> ''/orders/{order_id}'' = template_text ts
      \<and> compile_path_template ''/orders/{order_id}'' = Inr rs
      \<and> (\<forall>s. match_string rs s \<longleftrightarrow> instantiates ts (runes s))
      \<and> (\<forall>s. match_string rs s \<longrightarrow> count_list (runes s) 47 = template_slashes ts)"
  by (rule template_language [OF ex_path_ok])

text \<open>
  C25: the router built from a valid bundle answers every broker id, method and path as the bundle
  says: the enabled broker of that id with the first of its endpoints that admits the request, and
  nothing otherwise. Building it cannot fail.
\<close>

theorem lookup_is_allowed:
  assumes "bundle_ok b"
  shows "\<exists>r. build_router b = Inr r \<and> rt_bundle_version r = bundle_version b
      \<and> (\<forall>bid meth p. lookup_route r bid meth p = allowed b bid meth p)"
proof -
  from build_router_total [OF assms] obtain r where r: "build_router b = Inr r" by blast
  with assms have "router_for b r" by (simp add: router_for_def)
  with r show ?thesis
    using routes.look_spec build_router_shape [OF r] by blast
qed

theorem lookup_is_allowed_witness:
  "\<exists>r. build_router (ex_bundle ''2026-01-01'') = Inr r
      \<and> rt_bundle_version r = bundle_version (ex_bundle ''2026-01-01'')
      \<and> (\<forall>bid meth p. lookup_route r bid meth p = allowed (ex_bundle ''2026-01-01'') bid meth p)"
  using ex_bundle_ok(1) by (intro lookup_is_allowed) (simp add: validate_bundle_iff)

text \<open>
  C2: a load never changes a file, and what it returns is a bundle whose bytes carry a valid signature
  under the pinned key, that decodes as one document, validates and passes the version gates, with
  the router built from it; and without I/O failures every such triple of files loads.
\<close>

theorem load_guarantees:
  assumes "load_and_verify C Y opts w = (r, w')"
  shows "files w' = files w \<and> (\<forall>res. r = Inr res \<longrightarrow> loadable C Y opts w res)
      \<and> (healthy w \<longrightarrow> (\<forall>res. loadable C Y opts w res \<longrightarrow> r = Inr res))"
proof (intro conjI allI impI)
  show "files w' = files w" by (rule load_frame [OF assms])
  show "loadable C Y opts w res" if "r = Inr res" for res
    using load_sound assms that by blast
  show "r = Inr res" if "healthy w" "loadable C Y opts w res" for res
    using load_complete [OF that] assms by simp
qed

theorem load_guarantees_witness:
  "\<exists>r w'. load_and_verify ex_crypto ex_yaml (ex_options ''2025'') (ex_world []) = (r, w')
      \<and> is_ok r \<and> files w' = files (ex_world [])
      \<and> (\<forall>res. r = Inr res \<longrightarrow> loadable ex_crypto ex_yaml (ex_options ''2025'') (ex_world []) res)"
proof -
  have "is_ok (fst (load_and_verify ex_crypto ex_yaml (ex_options ''2025'') (ex_world [])))"
    by code_simp
  then show ?thesis
    using load_guarantees [OF prod.collapse [symmetric],
        of ex_crypto ex_yaml "ex_options ''2025''" "ex_world []"] prod.collapse by metis
qed

text \<open>
  A version written out with or without the leading v parses back, and comparing two written
  versions is comparing their numbers, major first.
\<close>

theorem semver_round_trip:
  assumes "parse_semver s = Inr v" and "parse_semver t = Inr w"
  shows "parse_semver (semver_string v) = Inr v
      \<and> compare_semver s t = Inr (if v < w then -1 else if w < v then 1 else 0)"
  using assms parse_semver_nonneg [of s]
  by (cases v) (simp add: compare_semver_order parse_semver_string)

theorem semver_round_trip_witness:
  "parse_semver ''v1.10.2'' = Inr (Semver 1 10 2) \<and> compare_semver ''v1.10.2'' ''1.9.7'' = Inr 1"
proof -
  have p: "parse_semver ''v1.10.2'' = Inr (Semver 1 10 2)" by code_simp
  have q: "parse_semver ''1.9.7'' = Inr (Semver 1 9 7)" by code_simp
  have l: "Semver 1 9 7 < Semver 1 10 2 \<and> \<not> Semver 1 10 2 < Semver 1 9 7" by code_simp
  show ?thesis using semver_round_trip [OF p q] p l by simp
qed

text \<open>
  A host that is an address to a resolver but not to \<open>net.ParseIP\<close> passes validation.
\<close>

theorem host_numeric_accepted: "validate_host ''127.1'' = Inr ()"
  by code_simp

end
