(* ===== verification/Staging.thy ===== *)
theory Staging
  imports FileSystem
begin

text \<open>
  The file routines behind both self-updates: writing a file through a temporary sibling
  (\<open>writeAtomic\<close> of \<open>internal/bundleupd/updater.go\<close>, \<open>writeExecutable\<close> of
  \<open>internal/binupd/binupd.go\<close>) and rotating a staged file into place (the two functions
  \<open>promote\<close>). The contract of a rotation is the locale \<open>rotation\<close>; both \<open>promote\<close>s are interpreted
  as one, so what follows from it, including what is on disk at every instant, is proved once.
\<close>

section \<open>Writing through a temporary file\<close>

text \<open>\<open>defer\<close>-style clean-up: the result of the removal is ignored.\<close>

definition cleanup :: "path \<Rightarrow> world \<Rightarrow> world" where
  "cleanup t w = snd (os_remove t w)"

definition write_atomic :: "path \<Rightarrow> bytes \<Rightarrow> world \<Rightarrow> (os_err + unit) \<times> world" where
  "write_atomic p data w =
     (case os_create_temp p w of
        (Inl e, w1) \<Rightarrow> (Inl e, w1)
      | (Inr t, w1) \<Rightarrow>
     (case file_write t data w1 of
        (Inl e, w2) \<Rightarrow> (Inl e, cleanup t (snd (file_close w2)))
      | (Inr _, w2) \<Rightarrow>
     (case file_close w2 of
        (Inl e, w3) \<Rightarrow> (Inl e, cleanup t w3)
      | (Inr _, w3) \<Rightarrow>
     (case os_rename t p w3 of
        (Inl e, w4) \<Rightarrow> (Inl e, cleanup t w4)
      | (Inr _, w4) \<Rightarrow> (Inr (), w4)))))"

datatype exec_err = CreateStaged os_err | WriteStaged os_err | ChmodStaged os_err
  | CloseStaged os_err | RenameStaged os_err

definition write_executable :: "path \<Rightarrow> bytes \<Rightarrow> world \<Rightarrow> (exec_err + unit) \<times> world" where
  "write_executable p data w =
     (case os_create_temp p w of
        (Inl e, w1) \<Rightarrow> (Inl (CreateStaged e), w1)
      | (Inr t, w1) \<Rightarrow>
     (case file_write t data w1 of
        (Inl e, w2) \<Rightarrow> (Inl (WriteStaged e), cleanup t (snd (file_close w2)))
      | (Inr _, w2) \<Rightarrow>
     (case file_chmod t 493 w2 of
        (Inl e, w3) \<Rightarrow> (Inl (ChmodStaged e), cleanup t (snd (file_close w3)))
      | (Inr _, w3) \<Rightarrow>
     (case file_close w3 of
        (Inl e, w4) \<Rightarrow> (Inl (CloseStaged e), cleanup t w4)
      | (Inr _, w4) \<Rightarrow>
     (case os_rename t p w4 of
        (Inl e, w5) \<Rightarrow> (Inl (RenameStaged e), cleanup t w5)
      | (Inr _, w5) \<Rightarrow> (Inr (), w5))))))"

text \<open>Nothing but the target and one temporary sibling is touched.\<close>

definition only_touches :: "path set \<Rightarrow> world \<Rightarrow> world \<Rightarrow> bool" where
  "only_touches P w w' = (\<forall>q. q \<notin> P \<longrightarrow> files w' q = files w q)"

lemma only_touches_refl [simp]: "only_touches P w w"
  by (simp add: only_touches_def)

lemma only_touches_trans: "only_touches P w w' \<Longrightarrow> only_touches Q w' w'' \<Longrightarrow> only_touches (P \<union> Q) w w''"
  by (simp add: only_touches_def)

lemma only_touches_mono: "only_touches P w w' \<Longrightarrow> P \<subseteq> Q \<Longrightarrow> only_touches Q w w'"
  by (auto simp: only_touches_def)

lemma only_touches_files: "files w' = files w \<Longrightarrow> only_touches P w w'"
  by (simp add: only_touches_def)

text \<open>
  What each call that acts on the temporary file \<open>t\<close> touches, as transitive steps: a chain of them
  touches \<open>t\<close> only.
\<close>

lemma touches_step:
  "only_touches {t} w w1 \<Longrightarrow> only_touches {t} w1 w2 \<Longrightarrow> only_touches {t} w w2"
  by (simp add: only_touches_def)

lemma touches_cleanup: "only_touches {t} w (cleanup t w)"
  by (cases "os_remove t w") (auto simp: only_touches_def cleanup_def dest: os_remove_frame)

lemma touches_write: "file_write t d w = (r, w') \<Longrightarrow> only_touches {t} w w'"
  by (auto simp: only_touches_def dest: file_write_frame)

lemma touches_chmod: "file_chmod t m w = (r, w') \<Longrightarrow> only_touches {t} w w'"
  by (auto simp: only_touches_def dest: file_write_frame)

lemma touches_close: "file_close w = (r, w') \<Longrightarrow> only_touches {t} w w'"
  by (simp add: only_touches_def reads_frame)

lemma touches_close_snd: "only_touches {t} w (snd (file_close w))"
  by (cases "file_close w") (simp add: touches_close)

lemma touches_rename_err: "os_rename a b w = (Inl e, w') \<Longrightarrow> only_touches {t} w w'"
  by (simp add: only_touches_def os_rename_err)

lemma touches_create: "os_create_temp p w = (Inr t, w') \<Longrightarrow> only_touches {t} w w'"
  by (auto simp: only_touches_def dest: os_create_temp_ok)

lemma write_kept:
  assumes "file_write t d w = (Inr u, w')" and "files w t = Some fl"
  shows "files w' t = Some (fl\<lparr>content := content fl @ d\<rparr>)"
  using assms by (cases w rule: draw_cases) (auto simp: file_write_def split: if_splits option.splits)

lemma chmod_kept:
  assumes "file_chmod t m w = (Inr u, w')" and "files w t = Some fl"
  shows "files w' t = Some (fl\<lparr>mode := m\<rparr>)"
  using assms by (cases w rule: draw_cases) (auto simp: file_chmod_def split: if_splits option.splits)

lemmas touches_intros = touches_cleanup touches_write touches_chmod touches_close touches_close_snd
  touches_rename_err touches_create

lemma write_atomic_err:
  assumes "write_atomic p data w = (Inl e, w')"
  shows "only_touches {tmp_name p (tmp_seq w)} w w'"
proof (cases "os_create_temp p w")
  case (Pair r w1)
  show ?thesis
  proof (cases r)
    case (Inl e')
    with Pair assms show ?thesis
      by (auto simp: write_atomic_def intro: only_touches_files dest: os_create_temp_err)
  next
    case (Inr t)
    with Pair have t: "t = tmp_name p (tmp_seq w)" and c: "only_touches {t} w w1"
      by (auto dest: os_create_temp_ok touches_create)
    from assms Pair Inr have "only_touches {t} w1 w'"
      by (auto simp: write_atomic_def split: prod.splits sum.splits
          intro: touches_intros touches_step [OF touches_write touches_cleanup]
            touches_step [OF touches_write touches_step [OF touches_close touches_cleanup]]
            touches_step [OF touches_write touches_step [OF touches_close_snd touches_cleanup]]
            touches_step [OF touches_write touches_step [OF touches_close
              touches_step [OF touches_rename_err touches_cleanup]]])
    with c t show ?thesis by (auto intro: touches_step)
  qed
qed

lemma write_atomic_ok:
  assumes "write_atomic p data w = (Inr u, w')"
  shows "files w' = (files w)(p \<mapsto> \<lparr>content = data, mode = 384\<rparr>)"
proof -
  from assms obtain t w1 w2 w3 u1 u2 where
      1: "os_create_temp p w = (Inr t, w1)" and 2: "file_write t data w1 = (Inr u1, w2)"
    and 3: "file_close w2 = (Inr u2, w3)" and 4: "os_rename t p w3 = (Inr u, w')"
    by (auto simp: write_atomic_def split: prod.splits sum.splits)
  from os_create_temp_ok [OF 1] have t: "t \<noteq> p" "files w t = None"
      "files w1 = (files w)(t \<mapsto> \<lparr>content = [], mode = 384\<rparr>)" by auto
  from write_kept [OF 2] t have "files w2 t = Some \<lparr>content = data, mode = 384\<rparr>" by simp
  moreover from touches_write [OF 2] t have "files w2 q = files w q" if "q \<noteq> t" for q
    using that by (simp add: only_touches_def)
  moreover have "files w3 = files w2" using 3 by (rule reads_frame)
  ultimately show ?thesis
    using os_rename_ok [OF 4] t by (auto simp: fun_eq_iff)
qed

lemma write_executable_err:
  assumes "write_executable p data w = (Inl e, w')"
  shows "only_touches {tmp_name p (tmp_seq w)} w w'"
proof (cases "os_create_temp p w")
  case (Pair r w1)
  show ?thesis
  proof (cases r)
    case (Inl e')
    with Pair assms show ?thesis
      by (auto simp: write_executable_def intro: only_touches_files dest: os_create_temp_err)
  next
    case (Inr t)
    with Pair have t: "t = tmp_name p (tmp_seq w)" and c: "only_touches {t} w w1"
      by (auto dest: os_create_temp_ok touches_create)
    from assms Pair Inr have "only_touches {t} w1 w'"
      by (auto simp: write_executable_def split: prod.splits sum.splits
          intro: touches_step [OF touches_write touches_step [OF touches_close_snd touches_cleanup]]
            touches_step [OF touches_write touches_step [OF touches_chmod
              touches_step [OF touches_close_snd touches_cleanup]]]
            touches_step [OF touches_write touches_step [OF touches_chmod
              touches_step [OF touches_close touches_cleanup]]]
            touches_step [OF touches_write touches_step [OF touches_chmod
              touches_step [OF touches_close touches_step [OF touches_rename_err touches_cleanup]]]])
    with c t show ?thesis by (auto intro: touches_step)
  qed
qed

lemma write_executable_ok:
  assumes "write_executable p data w = (Inr u, w')"
  shows "files w' = (files w)(p \<mapsto> \<lparr>content = data, mode = 493\<rparr>)"
proof -
  from assms obtain t w1 w2 w3 w4 u1 u2 u3 where
      1: "os_create_temp p w = (Inr t, w1)" and 2: "file_write t data w1 = (Inr u1, w2)"
    and 3: "file_chmod t 493 w2 = (Inr u2, w3)" and 4: "file_close w3 = (Inr u3, w4)"
    and 5: "os_rename t p w4 = (Inr u, w')"
    by (auto simp: write_executable_def split: prod.splits sum.splits)
  from os_create_temp_ok [OF 1] have t: "t \<noteq> p" "files w t = None"
      "files w1 = (files w)(t \<mapsto> \<lparr>content = [], mode = 384\<rparr>)" by auto
  from write_kept [OF 2] t have "files w2 t = Some \<lparr>content = data, mode = 384\<rparr>" by simp
  from chmod_kept [OF 3 this] have "files w3 t = Some \<lparr>content = data, mode = 493\<rparr>" by simp
  moreover from touches_write [OF 2] touches_chmod [OF 3] t have "files w3 q = files w q" if "q \<noteq> t" for q
    using that by (simp add: only_touches_def)
  moreover have "files w4 = files w3" using 4 by (rule reads_frame)
  ultimately show ?thesis
    using os_rename_ok [OF 5] t by (auto simp: fun_eq_iff)
qed

section \<open>Rotating a staged file into place\<close>

text \<open>
  The files after the first rename (the current file is now the previous one) and after the second
  (the staged file is current).
\<close>

definition rotated :: "path \<Rightarrow> path \<Rightarrow> files \<Rightarrow> files" where
  "rotated cur prev m = (case m cur of None \<Rightarrow> m | Some old \<Rightarrow> m(cur := None, prev \<mapsto> old))"

definition installed :: "path \<Rightarrow> path \<Rightarrow> path \<Rightarrow> files \<Rightarrow> files" where
  "installed cur staged prev m = (rotated cur prev m)(staged := None, cur := m staged)"

text \<open>
  The states that became visible during a call, oldest state of the files first: from \<open>m\<close>, through
  the states \<open>ms\<close> in order, each call adding to the history.
\<close>

definition passes :: "world \<Rightarrow> files list \<Rightarrow> world \<Rightarrow> bool" where
  "passes w ms w' = (history w' = rev ms @ history w \<and> files w' = (if ms = [] then files w else last ms))"

lemma passes_trans: "passes w ms w1 \<Longrightarrow> passes w1 ns w2 \<Longrightarrow> passes w (ms @ ns) w2"
  by (auto simp: passes_def)

lemma passes_stat: "os_stat p w = (r, w') \<Longrightarrow> passes w [] w'"
  by (cases w rule: draw_cases) (auto simp: passes_def os_stat_def)

lemma passes_rename_ok: "os_rename s d w = (Inr u, w') \<Longrightarrow> passes w [files w'] w'"
  by (cases w rule: draw_cases) (auto simp: passes_def os_rename_def split: if_splits option.splits)

lemma passes_rename_err: "os_rename s d w = (Inl e, w') \<Longrightarrow> passes w [] w'"
  by (cases w rule: draw_cases) (auto simp: passes_def os_rename_def split: if_splits option.splits)

text \<open>
  A property of the files that holds at every instant of a call. A call that acts on one path only keeps
  every property that does not look at that path.
\<close>

definition stays :: "(files \<Rightarrow> bool) \<Rightarrow> world \<Rightarrow> world \<Rightarrow> bool" where
  "stays P w w' = (\<exists>ms. passes w ms w' \<and> list_all P ms)"

definition ignores :: "path \<Rightarrow> (files \<Rightarrow> bool) \<Rightarrow> bool" where
  "ignores t P = (\<forall>m v. P (m(t := v)) = P m)"

lemma ignores_upd: "ignores t P \<Longrightarrow> P (m(t := v)) = P m"
  by (simp add: ignores_def)

lemma stays_refl: "stays P w w"
  by (auto simp: stays_def passes_def intro: exI [of _ "[]"])

lemma stays_trans: "stays P w w1 \<Longrightarrow> stays P w1 w2 \<Longrightarrow> stays P w w2"
  unfolding stays_def by (metis passes_trans list_all_append)

lemma stays_end: "stays P w w' \<Longrightarrow> P (files w) \<Longrightarrow> P (files w')"
  by (auto simp: stays_def passes_def list_all_iff)

lemma stays_none: "files w' = files w \<Longrightarrow> history w' = history w \<Longrightarrow> stays P w w'"
  by (auto simp: stays_def passes_def intro: exI [of _ "[]"])

lemma stays_one: "P (files w') \<Longrightarrow> history w' = files w' # history w \<Longrightarrow> stays P w w'"
  by (auto simp: stays_def passes_def intro: exI [of _ "[files w']"])

lemma stays_reads:
  "os_read_file p w = (r, w') \<Longrightarrow> stays P w w'"
  "os_stat p w = (r', w') \<Longrightarrow> stays P w w'"
  "file_close w = (r', w') \<Longrightarrow> stays P w w'"
  by (cases w rule: draw_cases; auto simp: os_read_file_def os_stat_def file_close_def intro!: stays_none)+

lemma stays_close_snd: "stays P w (snd (file_close w))"
  by (cases "file_close w") (simp add: stays_reads)

lemma stays_create:
  assumes "os_create t w = (r, w')" and "ignores t P" and "P (files w)"
  shows "stays P w w'"
  using assms(1,3)
  by (cases w rule: draw_cases)
    (auto simp: os_create_def os_create_mode_def ignores_upd [OF assms(2)] intro: stays_none stays_one)

lemma stays_write:
  assumes "file_write t d w = (r, w')" and "ignores t P" and "P (files w)"
  shows "stays P w w'"
  using assms(1,3)
  by (cases w rule: draw_cases)
    (auto simp: file_write_def ignores_upd [OF assms(2)] split: option.splits intro: stays_none stays_one)

lemma stays_remove:
  assumes "os_remove t w = (r, w')" and "P (files w)" and "P ((files w)(t := None))"
  shows "stays P w w'"
  using assms by (cases w rule: draw_cases) (auto simp: os_remove_def split: if_splits intro: stays_none stays_one)

lemma stays_cleanup: "ignores t P \<Longrightarrow> P (files w) \<Longrightarrow> stays P w (cleanup t w)"
  using stays_remove [of t w _ _ P] by (cases "os_remove t w") (auto simp: cleanup_def ignores_upd)

lemma stays_rename_err: "os_rename s d w = (Inl e, w') \<Longrightarrow> stays P w w'"
  using passes_rename_err by (fastforce simp: stays_def)

lemma stays_rename:
  assumes "os_rename s d w = (Inr u, w')" and "P (files w')"
  shows "stays P w w'"
  using passes_rename_ok [OF assms(1)] assms(2) by (fastforce simp: stays_def)

text \<open>
  The first half of a rotation, in either of its two ways, and what the second half makes of it: it
  passes through at most the rotated state and ends with the staged file installed, or fails.
\<close>

definition half_rotated :: "path \<Rightarrow> path \<Rightarrow> world \<Rightarrow> world \<Rightarrow> bool" where
  "half_rotated cur prev w w1 =
     (\<exists>ms. passes w ms w1 \<and> set ms \<subseteq> {rotated cur prev (files w)} \<and> files w1 = rotated cur prev (files w))"

definition rotation_done :: "path \<Rightarrow> path \<Rightarrow> path \<Rightarrow> world \<Rightarrow> world \<Rightarrow> bool" where
  "rotation_done cur staged prev w w' =
     (files w staged \<noteq> None
      \<and> (\<exists>ms. passes w (ms @ [installed cur staged prev (files w)]) w' \<and> set ms \<subseteq> {rotated cur prev (files w)}))"

definition rotation_failed :: "path \<Rightarrow> path \<Rightarrow> world \<Rightarrow> world \<Rightarrow> bool" where
  "rotation_failed cur prev w w' = (\<exists>ms. passes w ms w' \<and> set ms \<subseteq> {rotated cur prev (files w)})"

lemma half_present:
  assumes "os_stat cur w = (Inr u, w1)" and "os_rename cur prev w1 = (Inr u', w2)"
  shows "cur \<noteq> prev \<Longrightarrow> half_rotated cur prev w w2"
proof -
  assume d: "cur \<noteq> prev"
  have f1: "files w1 = files w" using assms(1) by (rule reads_frame)
  from os_rename_ok [OF assms(2)] f1 d have f2: "files w2 = rotated cur prev (files w)"
    by (auto simp: rotated_def)
  from passes_trans [OF passes_stat [OF assms(1)] passes_rename_ok [OF assms(2)]] f2
  have "passes w [rotated cur prev (files w)] w2" by simp
  with f2 show "half_rotated cur prev w w2" by (auto simp: half_rotated_def)
qed

lemma half_absent: "os_stat cur w = (Inl NotExist, w1) \<Longrightarrow> half_rotated cur prev w w1"
  using os_stat_missing [of cur w w1] reads_frame(2) [of cur w _ w1] passes_stat [of cur w _ w1]
  by (auto simp: half_rotated_def rotated_def intro!: exI [of _ "[]"])

lemma half_then_install:
  assumes d: "distinct [cur, staged, prev]" and h: "half_rotated cur prev w w1"
    and r: "os_rename staged cur w1 = (Inr u, w')"
  shows "rotation_done cur staged prev w w'"
proof -
  from h obtain ms where p: "passes w ms w1" and f: "files w1 = rotated cur prev (files w)"
      and ms: "set ms \<subseteq> {rotated cur prev (files w)}" by (auto simp: half_rotated_def)
  from os_rename_ok [OF r] obtain fl where fl: "files w1 staged = Some fl"
    and f': "files w' = (files w1)(staged := None, cur \<mapsto> fl)" by blast
  from d f fl have s: "files w staged = Some fl" by (auto simp: rotated_def split: option.splits)
  with f f' have i: "files w' = installed cur staged prev (files w)" by (simp add: installed_def)
  from passes_trans [OF p passes_rename_ok [OF r]] i s ms show ?thesis by (auto simp: rotation_done_def)
qed

lemma half_then_failed:
  "half_rotated cur prev w w1 \<Longrightarrow> os_rename staged cur w1 = (Inl e, w') \<Longrightarrow> rotation_failed cur prev w w'"
  using passes_trans [OF _ passes_rename_err, of w _ w1 staged cur e w']
  by (auto simp: half_rotated_def rotation_failed_def)

lemma stat_failed: "os_stat cur w = (r, w') \<Longrightarrow> rotation_failed cur prev w w'"
  by (auto simp: rotation_failed_def dest: passes_stat intro: exI [of _ "[]"])

lemma rotate_failed:
  "os_stat cur w = (r, w1) \<Longrightarrow> os_rename cur prev w1 = (Inl e, w') \<Longrightarrow> rotation_failed cur prev w w'"
  using passes_trans [OF passes_stat passes_rename_err, of cur w r w1 cur prev e w']
  by (auto simp: rotation_failed_def intro: exI [of _ "[]"])

lemmas rotation_intros = half_present half_absent half_then_install half_then_failed stat_failed rotate_failed

locale rotation =
  fixes rot :: "path \<Rightarrow> path \<Rightarrow> path \<Rightarrow> world \<Rightarrow> ('e + unit) \<times> world"
    and fits :: "path \<Rightarrow> path \<Rightarrow> path \<Rightarrow> bool"
  assumes fits_distinct: "fits cur staged prev \<Longrightarrow> distinct [cur, staged, prev]"
    and rot_ok: "fits cur staged prev \<Longrightarrow> rot cur staged prev w = (Inr u, w') \<Longrightarrow>
          rotation_done cur staged prev w w'"
    and rot_err: "fits cur staged prev \<Longrightarrow> rot cur staged prev w = (Inl e, w') \<Longrightarrow>
          rotation_failed cur prev w w'"
begin

lemma rot_installs:
  assumes "fits cur staged prev" and "rot cur staged prev w = (Inr u, w')"
  shows "files w' cur = files w staged" and "files w staged \<noteq> None" and "files w' staged = None"
    and "files w cur \<noteq> None \<Longrightarrow> files w' prev = files w cur"
    and "only_touches {cur, staged, prev} w w'"
proof -
  from rot_ok [OF assms] have f: "files w' = installed cur staged prev (files w)"
    and s: "files w staged \<noteq> None" by (auto simp: passes_def rotation_done_def)
  from fits_distinct [OF assms(1)] have d: "cur \<noteq> staged" "cur \<noteq> prev" "staged \<noteq> prev" by auto
  show "files w' cur = files w staged" "files w' staged = None"
    using f d by (simp_all add: installed_def)
  show "files w staged \<noteq> None" by (rule s)
  show "files w cur \<noteq> None \<Longrightarrow> files w' prev = files w cur"
    using f d by (auto simp: installed_def rotated_def)
  show "only_touches {cur, staged, prev} w w'"
    using f by (auto simp: only_touches_def installed_def rotated_def split: option.splits)
qed

lemma rot_failed:
  assumes "fits cur staged prev" and "rot cur staged prev w = (Inl e, w')"
  shows "files w' = files w \<or> files w' = rotated cur prev (files w)"
    and "only_touches {cur, prev} w w'" and "files w' staged = files w staged"
proof -
  from rot_err [OF assms] obtain ms where ms: "passes w ms w'" "set ms \<subseteq> {rotated cur prev (files w)}"
    by (auto simp: rotation_failed_def)
  then show f: "files w' = files w \<or> files w' = rotated cur prev (files w)"
    by (cases ms rule: rev_cases) (auto simp: passes_def)
  from fits_distinct [OF assms(1)] have d: "cur \<noteq> staged" "staged \<noteq> prev" by auto
  show "only_touches {cur, prev} w w'" "files w' staged = files w staged"
    using f d by (auto simp: only_touches_def rotated_def split: option.splits)
qed

text \<open>
  At every instant of a rotation, whether it succeeds or not, either a current file is there or the
  old one is at the previous path and the staged one is still staged.
\<close>

lemma rot_crash_safe:
  assumes fits: "fits cur staged prev" and run: "rot cur staged prev w = (r, w')"
  shows "\<exists>ms. passes w ms w' \<and> (\<forall>m\<in>set ms. m cur \<noteq> None
            \<or> m prev = (if files w cur = None then files w prev else files w cur) \<and> m staged = files w staged)"
proof -
  from fits_distinct [OF fits] have d: "cur \<noteq> staged" "cur \<noteq> prev" "staged \<noteq> prev" by auto
  let ?safe = "\<lambda>m. m cur \<noteq> None
            \<or> m prev = (if files w cur = None then files w prev else files w cur) \<and> m staged = files w staged"
  have mid: "?safe (rotated cur prev (files w))"
    using d by (auto simp: rotated_def split: option.splits)
  show ?thesis
  proof (cases r)
    case (Inl e)
    with rot_err [OF fits] run mid show ?thesis by (fastforce simp: rotation_failed_def)
  next
    case (Inr u)
    with run have "rot cur staged prev w = (Inr u, w')" by simp
    from rot_ok [OF fits this] obtain ms where s: "files w staged \<noteq> None"
      and p: "passes w (ms @ [installed cur staged prev (files w)]) w'" "set ms \<subseteq> {rotated cur prev (files w)}"
      by (auto simp: rotation_done_def)
    from s d have "?safe (installed cur staged prev (files w))" by (simp add: installed_def)
    with mid p show ?thesis by (intro exI [of _ "ms @ [installed cur staged prev (files w)]"]) auto
  qed
qed

end

end
