(* ===== verification/BundleUpd.thy ===== *)
theory BundleUpd
  imports Load Staging
begin

text \<open>
  The bundle updater: \<open>internal/bundleupd/updater.go\<close> and its production fetcher
  \<open>internal/bundleupd/http_fetcher.go\<close>. A poll fetches a candidate, stages it, verifies it through
  \<open>load_and_verify\<close> and, on success, promotes both files and publishes the router. The contract the
  updater expects of a fetcher is the locale \<open>fetcher\<close>; the HTTP fetcher is interpreted as one.
\<close>

section \<open>Fetching\<close>

text \<open>
  The HTTP client is outside the program: a GET of a URL with an \<open>If-None-Match\<close> value (empty for
  none) gives one of these; the body is \<open>None\<close> when reading it fails.
\<close>

datatype http_outcome = RequestInvalid | TransportFailure | HttpResponse nat string "bytes option"

datatype fetch_err = NoClient | RequestErr | DoErr | BadStatus nat | BodyErr | BodyTooLarge nat
  | SignatureFetch fetch_err

record fetch_result =
  fr_not_modified :: bool
  fr_bundle :: bytes
  fr_signature :: bytes
  fr_etag :: string

definition max_bundle_bytes :: nat where "max_bundle_bytes = 1048576"
definition max_sig_bytes :: nat where "max_sig_bytes = 1024"

text \<open>\<open>getWithEtag\<close>; \<open>io.LimitReader\<close> hands over at most \<open>cap + 1\<close> bytes.\<close>

definition get_with_etag ::
    "(string \<Rightarrow> string \<Rightarrow> http_outcome) \<Rightarrow> string \<Rightarrow> string \<Rightarrow> nat \<Rightarrow> fetch_err + bytes \<times> string \<times> bool" where
  "get_with_etag http url lastETag cap =
     (case http url lastETag of
        RequestInvalid \<Rightarrow> Inl RequestErr
      | TransportFailure \<Rightarrow> Inl DoErr
      | HttpResponse status etag body \<Rightarrow>
          if status = 304 then Inr ([], etag, True)
          else if status \<noteq> 200 then Inl (BadStatus status)
          else (case body of
              None \<Rightarrow> Inl BodyErr
            | Some b \<Rightarrow> (let read = take (cap + 1) b in
                check (cap < length read) (BodyTooLarge cap) (Inr (read, etag, False)))))"

definition http_fetch ::
    "(string \<Rightarrow> string \<Rightarrow> http_outcome) option \<Rightarrow> string \<Rightarrow> string \<Rightarrow> string \<Rightarrow> fetch_err + fetch_result" where
  "http_fetch client bundleURL sigURL lastETag =
     (case client of
        None \<Rightarrow> Inl NoClient
      | Some http \<Rightarrow>
          andthen (get_with_etag http bundleURL lastETag max_bundle_bytes) (\<lambda>(bundleBytes, etag, notModified).
            if notModified
            then Inr \<lparr>fr_not_modified = True, fr_bundle = [], fr_signature = [], fr_etag = []\<rparr>
            else andthen (wrap_err SignatureFetch (get_with_etag http sigURL [] max_sig_bytes))
                   (\<lambda>(sigBytes, _, _).
                     Inr \<lparr>fr_not_modified = False, fr_bundle = bundleBytes, fr_signature = sigBytes,
                          fr_etag = etag\<rparr>)))"

locale fetcher =
  fixes fetch :: "string \<Rightarrow> fetch_err + fetch_result"
  assumes not_modified_empty: "fetch e = Inr r \<Longrightarrow> fr_not_modified r \<Longrightarrow> fr_bundle r = [] \<and> fr_signature r = []"
    and bundle_bounded: "fetch e = Inr r \<Longrightarrow> length (fr_bundle r) \<le> max_bundle_bytes"
    and signature_bounded: "fetch e = Inr r \<Longrightarrow> length (fr_signature r) \<le> max_sig_bytes"

lemma get_with_etag_bound:
  "get_with_etag http url e cap = Inr (b, t, nm) \<Longrightarrow> length b \<le> cap \<and> (nm \<longrightarrow> b = [])"
  by (auto simp: get_with_etag_def Let_def split: http_outcome.splits option.splits if_splits)

interpretation http_fetcher: fetcher "http_fetch client bundleURL sigURL" for client bundleURL sigURL
  by unfold_locales
     (auto simp: http_fetch_def max_sig_bytes_def max_bundle_bytes_def split: option.splits if_splits
        dest!: get_with_etag_bound)

section \<open>Promotion\<close>

datatype promote_err = StatErr os_err | RotateErr os_err | PromoteErr os_err

definition promote :: "path \<Rightarrow> path \<Rightarrow> world \<Rightarrow> (promote_err + unit) \<times> world" where
  "promote current staged w =
     (let previous = current @ ''.previous'';
          install = (\<lambda>w. case os_rename staged current w of
              (Inl e, w') \<Rightarrow> (Inl (PromoteErr e), w') | (Inr _, w') \<Rightarrow> (Inr (), w'))
      in case os_stat current w of
        (Inr _, w1) \<Rightarrow> (case os_rename current previous w1 of
            (Inl e, w2) \<Rightarrow> (Inl (RotateErr e), w2)
          | (Inr _, w2) \<Rightarrow> install w2)
      | (Inl NotExist, w1) \<Rightarrow> install w1
      | (Inl Failure, w1) \<Rightarrow> (Inl (StatErr Failure), w1))"

definition previous_fits :: "path \<Rightarrow> path \<Rightarrow> path \<Rightarrow> bool" where
  "previous_fits cur staged prev = (prev = cur @ ''.previous'' \<and> distinct [cur, staged, prev])"

interpretation bundle_rotation: rotation "\<lambda>cur staged prev. promote cur staged" previous_fits
proof (unfold_locales, goal_cases)
  case (1 cur staged prev)
  then show ?case by (auto simp: previous_fits_def)
next
  case (2 cur staged prev w u w')
  then show ?case
    by (auto simp: promote_def previous_fits_def Let_def split: prod.splits sum.splits os_err.splits
        intro: half_then_install half_present half_absent)
next
  case (3 cur staged prev w e w')
  then show ?case
    by (auto simp: promote_def previous_fits_def Let_def split: prod.splits sum.splits os_err.splits
        intro: half_then_failed half_present half_absent stat_failed rotate_failed)
qed

section \<open>One poll\<close>

record up_opts =
  uo_bundle_path :: path
  uo_sig_path :: path
  uo_pubkey_path :: path
  uo_binary_version :: string

text \<open>
  The updater's own state, with the holder it publishes to and the bundles handed to the \<open>OnSwap\<close> hook,
  oldest first. \<open>New\<close> starts with no ETag and the zero hash.
\<close>

record updater =
  up_holder :: holder
  last_etag :: string
  last_hash :: bytes
  swaps :: "broker_bundle list"

datatype new_err = FetcherRequired | HolderRequired | IntervalNotPositive | PathsRequired

definition new_updater :: "holder \<Rightarrow> updater" where
  "new_updater h = \<lparr>up_holder = h, last_etag = [], last_hash = replicate 32 (char_of (0 :: nat)), swaps = []\<rparr>"

definition bundleupd_New :: "bool \<Rightarrow> holder option \<Rightarrow> int \<Rightarrow> up_opts \<Rightarrow> new_err + updater" where
  "bundleupd_New fetcher_given h interval o' =
     check (\<not> fetcher_given) FetcherRequired
    (case h of
       None \<Rightarrow> Inl HolderRequired
     | Some h' \<Rightarrow> check (interval \<le> 0) IntervalNotPositive
        (check (uo_bundle_path o' = [] \<or> uo_sig_path o' = [] \<or> uo_pubkey_path o' = []) PathsRequired
        (Inr (new_updater h'))))"

datatype tick_err = FetchFailed fetch_err | EmptyFetch | StageBundle os_err | StageSignature os_err
  | VerifyFailed load_err | PromoteBundle promote_err | PromoteSignature promote_err

definition staged_bundle :: "up_opts \<Rightarrow> path" where "staged_bundle o' = uo_bundle_path o' @ ''.staged''"
definition staged_sig :: "up_opts \<Rightarrow> path" where "staged_sig o' = uo_sig_path o' @ ''.staged''"

text \<open>Staging both files; a bundle whose signature could not be staged is removed again.\<close>

definition stage :: "up_opts \<Rightarrow> fetch_result \<Rightarrow> world \<Rightarrow> (tick_err + unit) \<times> world" where
  "stage o' res w =
     (case write_atomic (staged_bundle o') (fr_bundle res) w of
        (Inl e, w1) \<Rightarrow> (Inl (StageBundle e), w1)
      | (Inr _, w1) \<Rightarrow>
     (case write_atomic (staged_sig o') (fr_signature res) w1 of
        (Inl e, w2) \<Rightarrow> (Inl (StageSignature e), cleanup (staged_bundle o') w2)
      | (Inr _, w2) \<Rightarrow> (Inr (), w2)))"

text \<open>Verifying the staged pair against the version now live; a refused pair is removed.\<close>

definition staged_options :: "up_opts \<Rightarrow> updater \<Rightarrow> load_options" where
  "staged_options o' u = \<lparr>lo_bundle_path = staged_bundle o', lo_sig_path = staged_sig o',
     lo_pubkey_path = uo_pubkey_path o', lo_binary_version = uo_binary_version o',
     lo_previous_version = (case holder_load (up_holder u) of None \<Rightarrow> [] | Some r \<Rightarrow> rt_bundle_version r)\<rparr>"

definition verify_staged ::
    "crypto \<Rightarrow> yaml_codec \<Rightarrow> up_opts \<Rightarrow> updater \<Rightarrow> world \<Rightarrow> (tick_err + load_result) \<times> world" where
  "verify_staged C Y o' u w =
     (case load_and_verify C Y (staged_options o' u) w of
        (Inl e, w1) \<Rightarrow> (Inl (VerifyFailed e), cleanup (staged_sig o') (cleanup (staged_bundle o') w1))
      | (Inr lr, w1) \<Rightarrow> (Inr lr, w1))"

definition promote_pair :: "up_opts \<Rightarrow> world \<Rightarrow> (tick_err + unit) \<times> world" where
  "promote_pair o' w =
     (case promote (uo_bundle_path o') (staged_bundle o') w of
        (Inl e, w1) \<Rightarrow> (Inl (PromoteBundle e), w1)
      | (Inr _, w1) \<Rightarrow>
     (case promote (uo_sig_path o') (staged_sig o') w1 of
        (Inl e, w2) \<Rightarrow> (Inl (PromoteSignature e), w2)
      | (Inr _, w2) \<Rightarrow> (Inr (), w2)))"

text \<open>\<open>Tick\<close>: \<open>fetch\<close> is the answer of the \<open>Fetcher\<close> to the ETag it is given.\<close>

definition tick ::
    "crypto \<Rightarrow> yaml_codec \<Rightarrow> up_opts \<Rightarrow> (string \<Rightarrow> fetch_err + fetch_result) \<Rightarrow> updater \<Rightarrow> world
       \<Rightarrow> (tick_err + unit) \<times> updater \<times> world" where
  "tick C Y o' fetch u w =
     (case fetch (last_etag u) of
        Inl e \<Rightarrow> (Inl (FetchFailed e), u, w)
      | Inr res \<Rightarrow>
      if fr_not_modified res then (Inr (), u, w)
      else if fr_bundle res = [] \<or> fr_signature res = [] then (Inl EmptyFetch, u, w)
      else (let hash = sha256 C (fr_bundle res) in
      if hash = last_hash u then (Inr (), u\<lparr>last_etag := fr_etag res\<rparr>, w)
      else (case stage o' res w of
        (Inl e, w1) \<Rightarrow> (Inl e, u, w1)
      | (Inr _, w1) \<Rightarrow>
     (case verify_staged C Y o' u w1 of
        (Inl e, w2) \<Rightarrow> (Inl e, u, w2)
      | (Inr lr, w2) \<Rightarrow>
     (case promote_pair o' w2 of
        (Inl e, w3) \<Rightarrow> (Inl e, u, w3)
      | (Inr _, w3) \<Rightarrow>
          (Inr (), u\<lparr>up_holder := fst (holder_store (up_holder u) (Some (lr_router lr))),
                     last_hash := hash, last_etag := fr_etag res,
                     swaps := swaps u @ [lr_bundle lr]\<rparr>, w3))))))"

section \<open>The polling loop\<close>

text \<open>
  What wakes \<open>Run\<close>, with the answer the fetcher would give at that moment. \<open>Poke\<close> puts a token into a
  channel of capacity one, so a second poke before the loop runs adds nothing; a wake-up through the
  channel takes the token.
\<close>

datatype up_event = Poke | Ticker "string \<Rightarrow> fetch_err + fetch_result"
  | PokeReceived "string \<Rightarrow> fetch_err + fetch_result" | CtxDone

record up_run =
  ur_updater :: updater
  ur_world :: world
  poke_pending :: bool
  stopped :: bool
  warnings :: "tick_err list"

definition run_tick ::
    "crypto \<Rightarrow> yaml_codec \<Rightarrow> up_opts \<Rightarrow> (string \<Rightarrow> fetch_err + fetch_result) \<Rightarrow> up_run \<Rightarrow> up_run" where
  "run_tick C Y o' fetch s =
     (case tick C Y o' fetch (ur_updater s) (ur_world s) of
        (Inl e, u, w) \<Rightarrow> s\<lparr>ur_updater := u, ur_world := w, warnings := warnings s @ [e]\<rparr>
      | (Inr _, u, w) \<Rightarrow> s\<lparr>ur_updater := u, ur_world := w\<rparr>)"

fun run_step :: "crypto \<Rightarrow> yaml_codec \<Rightarrow> up_opts \<Rightarrow> up_run \<Rightarrow> up_event \<Rightarrow> up_run" where
  "run_step C Y o' s Poke = s\<lparr>poke_pending := True\<rparr>"
| "run_step C Y o' s (Ticker fetch) = (if stopped s then s else run_tick C Y o' fetch s)"
| "run_step C Y o' s (PokeReceived fetch) =
     (if stopped s \<or> \<not> poke_pending s then s else run_tick C Y o' fetch (s\<lparr>poke_pending := False\<rparr>))"
| "run_step C Y o' s CtxDone = s\<lparr>stopped := True\<rparr>"

definition run_updater :: "crypto \<Rightarrow> yaml_codec \<Rightarrow> up_opts \<Rightarrow> up_run \<Rightarrow> up_event list \<Rightarrow> up_run" where
  "run_updater C Y o' s es = foldl (run_step C Y o') s es"

end
