(* ===== verification/BundleUpdFacts.thy ===== *)
theory BundleUpdFacts
  imports BundleUpd ProfileFacts
begin

text \<open>
  What a poll of the bundle updater does to the files, the live bundle and its own state, and what the
  polling loop keeps over any sequence of polls.
\<close>

section \<open>Which files a poll can reach\<close>

definition previous_of :: "path \<Rightarrow> path" where "previous_of p = p @ ''.previous''"

text \<open>The files a poll must not disturb unless it promotes, and the two it stages.\<close>

definition settled :: "up_opts \<Rightarrow> path list" where
  "settled o' = [uo_bundle_path o', previous_of (uo_bundle_path o'),
     uo_sig_path o', previous_of (uo_sig_path o'), uo_pubkey_path o']"

text \<open>
  The configured paths do not collide: all are different, and none of them is a temporary name of a
  staged file.
\<close>

definition paths_ok :: "up_opts \<Rightarrow> bool" where
  "paths_ok o' = (distinct (staged_bundle o' # staged_sig o' # settled o')
     \<and> list_all (\<lambda>q. \<not> prefix (staged_bundle o' @ ''.tmp.'') q \<and> \<not> prefix (staged_sig o' @ ''.tmp.'') q)
         (staged_bundle o' # staged_sig o' # settled o'))"

lemma paths_ok_tmp:
  assumes "paths_ok o'" and "q \<in> set (staged_bundle o' # staged_sig o' # settled o')"
  shows "q \<noteq> tmp_name (staged_bundle o') n" and "q \<noteq> tmp_name (staged_sig o') n"
proof -
  have p: "prefix (p @ ''.tmp.'') (tmp_name p n)" for p
    by (simp add: tmp_name_def)
  from assms have "\<not> prefix (staged_bundle o' @ ''.tmp.'') q" "\<not> prefix (staged_sig o' @ ''.tmp.'') q"
    unfolding paths_ok_def list_all_iff by blast+
  then show "q \<noteq> tmp_name (staged_bundle o') n" "q \<noteq> tmp_name (staged_sig o') n"
    using p by metis+
qed

lemma paths_ok_settled:
  "paths_ok o' \<Longrightarrow> q \<in> set (settled o') \<Longrightarrow> q \<noteq> staged_bundle o' \<and> q \<noteq> staged_sig o'"
  by (auto simp: paths_ok_def)

lemma paths_ok_fits:
  assumes "paths_ok o'"
  shows "previous_fits (uo_bundle_path o') (staged_bundle o') (previous_of (uo_bundle_path o'))"
    and "previous_fits (uo_sig_path o') (staged_sig o') (previous_of (uo_sig_path o'))"
  using assms by (auto simp: paths_ok_def settled_def previous_fits_def previous_of_def)

definition unsettled_only :: "up_opts \<Rightarrow> world \<Rightarrow> world \<Rightarrow> bool" where
  "unsettled_only o' w w' = (\<forall>q\<in>set (settled o'). files w' q = files w q)"

lemma unsettled_trans:
  "unsettled_only o' w w1 \<Longrightarrow> unsettled_only o' w1 w2 \<Longrightarrow> unsettled_only o' w w2"
  by (simp add: unsettled_only_def)

lemma unsettled_cleanup:
  "paths_ok o' \<Longrightarrow> p = staged_bundle o' \<or> p = staged_sig o' \<Longrightarrow> unsettled_only o' w (cleanup p w)"
  using touches_cleanup [of p w]
  by (auto simp: unsettled_only_def only_touches_def dest: paths_ok_settled)

lemma unsettled_write:
  assumes "paths_ok o'" and "p = staged_bundle o' \<or> p = staged_sig o'" and "write_atomic p d w = (r, w')"
  shows "unsettled_only o' w w'"
proof -
  have "q \<noteq> p \<and> q \<noteq> tmp_name p (tmp_seq w)" if "q \<in> set (settled o')" for q
    using that assms(1,2) paths_ok_tmp [of o' q] paths_ok_settled [of o' q] by auto
  then show ?thesis
    using assms(3) by (cases r) (auto simp: unsettled_only_def only_touches_def
        dest!: write_atomic_ok write_atomic_err)
qed

lemma stage_unsettled: "paths_ok o' \<Longrightarrow> stage o' res w = (r, w') \<Longrightarrow> unsettled_only o' w w'"
  by (auto simp: stage_def split: prod.splits sum.splits
      intro: unsettled_write unsettled_trans [OF unsettled_write unsettled_write]
        unsettled_trans [OF unsettled_write unsettled_trans [OF unsettled_write unsettled_cleanup]])

lemma unsettled_load: "load_and_verify C Y opts w = (r, w') \<Longrightarrow> unsettled_only o' w w'"
  by (simp add: unsettled_only_def load_frame)

lemma verify_unsettled: "paths_ok o' \<Longrightarrow> verify_staged C Y o' u w = (r, w') \<Longrightarrow> unsettled_only o' w w'"
  by (auto simp: verify_staged_def split: prod.splits sum.splits
      intro: unsettled_load unsettled_trans [OF unsettled_load
        unsettled_trans [OF unsettled_cleanup unsettled_cleanup]])

lemma stage_ok:
  assumes "stage o' res w = (Inr u, w')"
  shows "files w' = (files w)(staged_bundle o' \<mapsto> \<lparr>content = fr_bundle res, mode = 384\<rparr>,
                              staged_sig o' \<mapsto> \<lparr>content = fr_signature res, mode = 384\<rparr>)"
  using assms by (auto simp: stage_def split: prod.splits sum.splits dest!: write_atomic_ok)

lemma verify_staged_ok:
  assumes "verify_staged C Y o' u w = (Inr lr, w')"
  shows "files w' = files w" and "loadable C Y (staged_options o' u) w lr"
proof -
  from assms have l: "load_and_verify C Y (staged_options o' u) w = (Inr lr, w')"
    by (auto simp: verify_staged_def split: prod.splits sum.splits)
  show "files w' = files w" by (rule load_frame [OF l])
  show "loadable C Y (staged_options o' u) w lr" by (rule load_sound [OF l])
qed

text \<open>Both rotations done: the staged pair is current, the old pair is at the previous paths.\<close>

definition pair_installed :: "up_opts \<Rightarrow> world \<Rightarrow> world \<Rightarrow> bool" where
  "pair_installed o' w w' =
     (files w' (uo_bundle_path o') = files w (staged_bundle o')
      \<and> files w' (uo_sig_path o') = files w (staged_sig o')
      \<and> (files w (uo_bundle_path o') \<noteq> None \<longrightarrow>
           files w' (previous_of (uo_bundle_path o')) = files w (uo_bundle_path o'))
      \<and> (files w (uo_sig_path o') \<noteq> None \<longrightarrow>
           files w' (previous_of (uo_sig_path o')) = files w (uo_sig_path o'))
      \<and> files w' (uo_pubkey_path o') = files w (uo_pubkey_path o'))"

lemma promote_pair_split:
  assumes "promote_pair o' w = (r, w')"
  obtains (bundle_failed) e where "promote (uo_bundle_path o') (staged_bundle o') w = (Inl e, w')"
      "r = Inl (PromoteBundle e)"
  | (sig_failed) e w1 where "promote (uo_bundle_path o') (staged_bundle o') w = (Inr (), w1)"
      "promote (uo_sig_path o') (staged_sig o') w1 = (Inl e, w')" "r = Inl (PromoteSignature e)"
  | (both) w1 where "promote (uo_bundle_path o') (staged_bundle o') w = (Inr (), w1)"
      "promote (uo_sig_path o') (staged_sig o') w1 = (Inr (), w')" "r = Inr ()"
  using assms by (auto simp: promote_pair_def split: prod.splits sum.splits)

lemma promote_pair_ok:
  assumes ok: "paths_ok o'" and run: "promote_pair o' w = (Inr u, w')"
  shows "pair_installed o' w w'"
  using run
proof (cases rule: promote_pair_split)
  case (both w1)
  note fits = paths_ok_fits [OF ok]
  note b = bundle_rotation.rot_installs [OF fits(1) both(1)]
  note s = bundle_rotation.rot_installs [OF fits(2) both(2)]
  have d: "distinct (staged_bundle o' # staged_sig o' # settled o')"
    using ok by (simp add: paths_ok_def)
  have keep1: "files w1 q = files w q"
    if "q \<in> {staged_sig o', uo_sig_path o', previous_of (uo_sig_path o'), uo_pubkey_path o'}" for q
    using b(5) that d by (auto simp: only_touches_def settled_def)
  have keep2: "files w' q = files w1 q"
    if "q \<in> {uo_bundle_path o', previous_of (uo_bundle_path o'), uo_pubkey_path o'}" for q
    using s(5) that d by (auto simp: only_touches_def settled_def)
  show ?thesis
    using b(1,4) s(1,4) by (simp add: pair_installed_def keep1 keep2)
qed auto

section \<open>What a poll does\<close>

text \<open>
  A poll has four outcomes: nothing new, the same content again, a refusal, or a swap. The trace of a
  poll that got as far as staging is spelled out by \<open>tick_cases\<close>; the lemmas after it read the
  outcomes off it.
\<close>

lemma tick_cases:
  assumes "tick C Y o' fetch u w = (r, u', w')"
  obtains (early) "(\<exists>e. r = Inl (FetchFailed e)) \<or> r = Inl EmptyFetch
      \<or> r = Inr () \<and> (\<exists>res. fetch (last_etag u) = Inr res \<and> fr_not_modified res)" "u' = u" "w' = w"
  | (same) res where "fetch (last_etag u) = Inr res" "\<not> fr_not_modified res"
      "sha256 C (fr_bundle res) = last_hash u" "r = Inr ()" "u' = u\<lparr>last_etag := fr_etag res\<rparr>" "w' = w"
  | (stage_failed) res e where "fetch (last_etag u) = Inr res" "stage o' res w = (Inl e, w')" "r = Inl e" "u' = u"
  | (refused) res w1 e where "fetch (last_etag u) = Inr res" "stage o' res w = (Inr (), w1)"
      "verify_staged C Y o' u w1 = (Inl e, w')" "r = Inl e" "u' = u"
  | (half) res w1 lr w2 e where "fetch (last_etag u) = Inr res" "stage o' res w = (Inr (), w1)"
      "verify_staged C Y o' u w1 = (Inr lr, w2)" "promote_pair o' w2 = (Inl e, w')" "r = Inl e" "u' = u"
  | (swapped) res w1 lr w2 where "fetch (last_etag u) = Inr res" "\<not> fr_not_modified res"
      "stage o' res w = (Inr (), w1)" "verify_staged C Y o' u w1 = (Inr lr, w2)"
      "promote_pair o' w2 = (Inr (), w')" "r = Inr ()"
      "u' = u\<lparr>up_holder := fst (holder_store (up_holder u) (Some (lr_router lr))),
              last_hash := sha256 C (fr_bundle res), last_etag := fr_etag res, swaps := swaps u @ [lr_bundle lr]\<rparr>"
proof (cases "fetch (last_etag u)")
  case (Inl e)
  with assms show ?thesis by (intro early) (auto simp: tick_def)
next
  case Inr': (Inr res)
  show ?thesis
  proof (cases "fr_not_modified res \<or> fr_bundle res = [] \<or> fr_signature res = []
      \<or> sha256 C (fr_bundle res) = last_hash u")
    case True
    note t = assms [unfolded tick_def Inr' sum.case Let_def]
    show ?thesis
    proof (cases "fr_not_modified res \<or> fr_bundle res = [] \<or> fr_signature res = []")
      case e: True
      with t Inr' show ?thesis by (intro early) (auto split: if_splits)
    next
      case e: False
      with t True Inr' show ?thesis by (intro same [of res]) simp_all
    qed
  next
    case False
    then have n: "\<not> fr_not_modified res" "\<not> (fr_bundle res = [] \<or> fr_signature res = [])"
        "sha256 C (fr_bundle res) \<noteq> last_hash u" by simp_all
    note t = assms [unfolded tick_def Inr' sum.case if_not_P [OF n(1)] if_not_P [OF n(2)] Let_def if_not_P [OF n(3)]]
    obtain rs w1 where st: "stage o' res w = (rs, w1)" by (cases "stage o' res w")
    show ?thesis
    proof (cases rs)
      case (Inl e)
      with t n(1) st Inr' show ?thesis by (intro stage_failed [of res e]) simp_all
    next
      case r1: (Inr x1)
      obtain rv w2 where v: "verify_staged C Y o' u w1 = (rv, w2)" by (cases "verify_staged C Y o' u w1")
      show ?thesis
      proof (cases rv)
        case (Inl e)
        with t n(1) st v r1 Inr' show ?thesis by (intro refused [of res w1 e]) simp_all
      next
        case r2: (Inr lr)
        obtain rp w3 where p: "promote_pair o' w2 = (rp, w3)" by (cases "promote_pair o' w2")
        show ?thesis
        proof (cases rp)
          case (Inl e)
          with t n(1) st v p r1 r2 Inr' show ?thesis by (intro half [of res w1 lr w2 e]) simp_all
        next
          case r3: (Inr x3)
          with t n(1) st v p r1 r2 Inr' show ?thesis by (intro swapped [of res w1 lr w2]) simp_all
        qed
      qed
    qed
  qed
qed

definition live_version :: "updater \<Rightarrow> string" where
  "live_version u = (case holder_load (up_holder u) of None \<Rightarrow> [] | Some r \<Rightarrow> rt_bundle_version r)"

text \<open>
  What a swap to \<open>b\<close> guarantees: the answer of the fetcher is the pair now on disk, its signature holds
  under the pinned key, the bundle decodes, validates and passes the gates against the version that
  was live, the router built from it is live, and the pair it replaced is at the previous paths.
\<close>

definition swapped_to ::
    "crypto \<Rightarrow> yaml_codec \<Rightarrow> up_opts \<Rightarrow> fetch_result \<Rightarrow> updater \<Rightarrow> world \<Rightarrow> updater \<Rightarrow> world \<Rightarrow> broker_bundle \<Rightarrow> bool" where
  "swapped_to C Y o' res u w u' w' b =
     ((\<exists>pub. pinned C w (uo_pubkey_path o') pub
          \<and> bytes_ok C Y (staged_options o' u) pub (fr_bundle res) (fr_signature res) b)
      \<and> (\<exists>r. build_router b = Inr r \<and> holder_load (up_holder u') = Some r)
      \<and> last_hash u' = sha256 C (fr_bundle res) \<and> last_etag u' = fr_etag res \<and> swaps u' = swaps u @ [b]
      \<and> content_of w' (uo_bundle_path o') = Some (fr_bundle res)
      \<and> content_of w' (uo_sig_path o') = Some (fr_signature res)
      \<and> (\<forall>p\<in>{uo_bundle_path o', uo_sig_path o'}. files w p \<noteq> None \<longrightarrow> files w' (previous_of p) = files w p)
      \<and> files w' (uo_pubkey_path o') = files w (uo_pubkey_path o'))"

lemma swap_facts:
  assumes ok: "paths_ok o'" and st: "stage o' res w = (Inr (), w1)"
    and v: "verify_staged C Y o' u w1 = (Inr lr, w2)" and p: "promote_pair o' w2 = (Inr (), w')"
  shows "swapped_to C Y o' res u w
      (u\<lparr>up_holder := fst (holder_store (up_holder u) (Some (lr_router lr))),
         last_hash := sha256 C (fr_bundle res), last_etag := fr_etag res, swaps := swaps u @ [lr_bundle lr]\<rparr>)
      w' (lr_bundle lr)"
proof -
  have d: "distinct (staged_bundle o' # staged_sig o' # settled o')"
    using ok by (simp add: paths_ok_def)
  note f1 = stage_ok [OF st] and f2 = verify_staged_ok(1) [OF v] and l = verify_staged_ok(2) [OF v]
  note i = promote_pair_ok [OF ok p, unfolded pair_installed_def f2]
  have kept: "files w1 q = files w q" if "q \<in> set (settled o')" for q
    using stage_unsettled [OF ok st] that by (simp add: unsettled_only_def)
  have c: "files w1 (staged_bundle o') = Some \<lparr>content = fr_bundle res, mode = 384\<rparr>"
      "files w1 (staged_sig o') = Some \<lparr>content = fr_signature res, mode = 384\<rparr>"
    using d by (simp_all add: f1)
  have k: "files w1 (uo_pubkey_path o') = files w (uo_pubkey_path o')"
      "files w1 (uo_bundle_path o') = files w (uo_bundle_path o')"
      "files w1 (uo_sig_path o') = files w (uo_sig_path o')"
    by (simp_all add: kept settled_def)
  from l have "\<exists>pub. pinned C w (uo_pubkey_path o') pub
      \<and> bytes_ok C Y (staged_options o' u) pub (fr_bundle res) (fr_signature res) (lr_bundle lr)"
    by (auto simp: loadable_def staged_options_def pinned_def content_of_def c k)
  moreover from l have "build_router (lr_bundle lr) = Inr (lr_router lr)"
    by (auto simp: loadable_def)
  moreover have "content_of w' (uo_bundle_path o') = Some (fr_bundle res)"
      "content_of w' (uo_sig_path o') = Some (fr_signature res)"
      "files w' (uo_pubkey_path o') = files w (uo_pubkey_path o')"
      "files w (uo_bundle_path o') \<noteq> None \<longrightarrow>
         files w' (previous_of (uo_bundle_path o')) = files w (uo_bundle_path o')"
      "files w (uo_sig_path o') \<noteq> None \<longrightarrow>
         files w' (previous_of (uo_sig_path o')) = files w (uo_sig_path o')"
    using i by (simp_all add: content_of_def c k)
  ultimately show ?thesis
    unfolding swapped_to_def by (simp add: holder_store_def holder_load_def)
qed

text \<open>The five outcomes without their traces.\<close>

lemma tick_ok_cases:
  assumes ok: "paths_ok o'" and run: "tick C Y o' fetch u w = (Inr x, u', w')"
  obtains (quiet) "up_holder u' = up_holder u" "last_hash u' = last_hash u" "swaps u' = swaps u" "w' = w"
  | (swap) res b where "fetch (last_etag u) = Inr res" "\<not> fr_not_modified res"
      "swapped_to C Y o' res u w u' w' b"
  using run
proof (cases rule: tick_cases)
  case (swapped res w1 lr w2)
  with swap_facts [OF ok swapped(3) swapped(4) swapped(5)] swap show ?thesis by metis
qed (auto intro: quiet)

lemma promote_pair_err:
  assumes ok: "paths_ok o'" and run: "promote_pair o' w = (Inl e, w')"
  shows "\<exists>p. e = PromoteBundle p \<or> e = PromoteSignature p"
  using run by (cases rule: promote_pair_split) auto

lemma verify_staged_err: "verify_staged C Y o' u w = (Inl e, w') \<Longrightarrow> \<exists>l. e = VerifyFailed l"
  by (auto simp: verify_staged_def split: prod.splits sum.splits)

lemma stage_err: "stage o' res w = (Inl e, w') \<Longrightarrow> (\<exists>l. e = StageBundle l) \<or> (\<exists>l. e = StageSignature l)"
  by (auto simp: stage_def split: prod.splits sum.splits)

lemma tick_err_cases:
  assumes ok: "paths_ok o'" and run: "tick C Y o' fetch u w = (Inl e, u', w')"
  obtains (kept) "u' = u" "unsettled_only o' w w'"
  | (half) res w1 lr w2 p where "u' = u" "fetch (last_etag u) = Inr res" "stage o' res w = (Inr (), w1)"
      "verify_staged C Y o' u w1 = (Inr lr, w2)" "promote_pair o' w2 = (Inl e, w')"
      "e = PromoteBundle p \<or> e = PromoteSignature p"
  using run
proof (cases rule: tick_cases)
  case (half res w1 lr w2 e')
  with promote_pair_err [OF ok half(4)] that(2) show ?thesis by auto
next
  case (refused res w1 e')
  with stage_unsettled [OF ok refused(2)] verify_unsettled [OF ok refused(3)] show ?thesis
    by (intro kept) (auto intro: unsettled_trans)
qed (use stage_unsettled [OF ok] in \<open>auto intro: kept simp: unsettled_only_def\<close>)

section \<open>Properties of one poll\<close>

text \<open>
  C3: a poll that succeeds either changes neither the live router nor any file (not modified, or the
  content of the last swap again), or it swaps to the fetched bundle: the pair now on disk is the
  fetched pair, its ECDSA signature holds under the pinned key, the bundle is valid and newer than
  the one that was live, the router built from it is live, and the replaced pair is kept as the
  previous one.
\<close>

theorem tick_swaps:
  assumes "paths_ok o'" and "tick C Y o' fetch u w = (Inr x, u', w')"
  shows "up_holder u' = up_holder u \<and> swaps u' = swaps u \<and> w' = w
    \<or> (\<exists>res b. fetch (last_etag u) = Inr res \<and> swapped_to C Y o' res u w u' w' b)"
  using assms by (cases rule: tick_ok_cases) auto

text \<open>
  C4: a poll that fails leaves the updater and the live router as they were. The current and
  previous files and the key are untouched as well, unless the failure is in promoting a verified
  pair.
\<close>

theorem tick_fail_closed:
  assumes "paths_ok o'" and "tick C Y o' fetch u w = (Inl e, u', w')"
  shows "u' = u \<and> ((\<forall>p. e \<noteq> PromoteBundle p \<and> e \<noteq> PromoteSignature p) \<longrightarrow> (\<forall>q\<in>set (settled o'). files w' q = files w q))"
  using assms
proof (cases rule: tick_err_cases)
  case kept
  then show ?thesis by (simp add: unsettled_only_def)
qed auto

text \<open>
  When the signature cannot be promoted after the bundle was, the old router stays live but
  the pair on disk is torn: the current bundle is the new one while the current signature is the old
  one or missing, and the new signature is still staged.
\<close>

theorem tick_torn_pair:
  assumes ok: "paths_ok o'" and run: "tick C Y o' fetch u w = (Inl (PromoteSignature p), u', w')"
  shows "u' = u \<and> (\<exists>res. fetch (last_etag u) = Inr res
      \<and> content_of w' (uo_bundle_path o') = Some (fr_bundle res)
      \<and> content_of w' (staged_sig o') = Some (fr_signature res)
      \<and> (files w' (uo_sig_path o') = files w (uo_sig_path o') \<or> files w' (uo_sig_path o') = None))"
  using run
proof (cases rule: tick_cases)
  case (half res w1 lr w2 e)
  have d: "distinct (staged_bundle o' # staged_sig o' # settled o')"
    using ok by (simp add: paths_ok_def)
  note fits = paths_ok_fits [OF ok]
  note f1 = stage_ok [OF half(2)] and f2 = verify_staged_ok(1) [OF half(3)]
  from half(4,5) obtain w3 where b: "promote (uo_bundle_path o') (staged_bundle o') w2 = (Inr (), w3)"
      and s: "promote (uo_sig_path o') (staged_sig o') w3 = (Inl p, w')"
    by (auto elim: promote_pair_split)
  note B = bundle_rotation.rot_installs [OF fits(1) b] and S = bundle_rotation.rot_failed [OF fits(2) s]
  have "files w' (uo_bundle_path o') = files w3 (uo_bundle_path o')"
    using S(2) d by (simp add: only_touches_def settled_def)
  moreover have "files w3 (staged_sig o') = files w1 (staged_sig o')"
      "files w3 (uo_sig_path o') = files w (uo_sig_path o')"
    using B(5) f2 f1 d by (auto simp: only_touches_def settled_def)
  moreover have "files w' (uo_sig_path o') = files w3 (uo_sig_path o') \<or> files w' (uo_sig_path o') = None"
    using S(1) d by (auto simp: rotated_def settled_def split: option.splits)
  moreover have "files w1 (staged_bundle o') = Some \<lparr>content = fr_bundle res, mode = 384\<rparr>"
      "files w1 (staged_sig o') = Some \<lparr>content = fr_signature res, mode = 384\<rparr>"
    using d by (simp_all add: f1)
  ultimately have "content_of w' (uo_bundle_path o') = Some (fr_bundle res)"
      "content_of w' (staged_sig o') = Some (fr_signature res)"
      "files w' (uo_sig_path o') = files w (uo_sig_path o') \<or> files w' (uo_sig_path o') = None"
    using B(1) S(3) f2 by (auto simp: content_of_def)
  with half(1,6) show ?thesis by blast
qed (auto dest: stage_err verify_staged_err)

text \<open>
  The poll that heals a torn pair (the same answer fetched again, this time promoted) leaves
  a previous pair that does not belong together: the previous bundle is the new bundle, so rolling
  back no longer reaches the bundle that was live before.
\<close>

theorem tick_retry_after_torn_pair:
  assumes ok: "paths_ok o'" and torn: "tick C Y o' fetch u w = (Inl (PromoteSignature p), u1, w1)"
    and again: "tick C Y o' fetch u1 w1 = (Inr x, u2, w2)" and new: "swaps u2 \<noteq> swaps u"
  shows "\<exists>res. fetch (last_etag u) = Inr res \<and> content_of w2 (uo_bundle_path o') = Some (fr_bundle res)
      \<and> content_of w2 (previous_of (uo_bundle_path o')) = Some (fr_bundle res)
      \<and> (files w (uo_sig_path o') = files w1 (uo_sig_path o') \<and> files w (uo_sig_path o') \<noteq> None \<longrightarrow>
           files w2 (previous_of (uo_sig_path o')) = files w (uo_sig_path o'))"
proof -
  have "u1 = u \<and> (\<exists>res. fetch (last_etag u) = Inr res
      \<and> content_of w1 (uo_bundle_path o') = Some (fr_bundle res))"
    using torn
  proof (cases rule: tick_cases)
    case (half res v lr v' e)
    have d: "distinct (staged_bundle o' # staged_sig o' # settled o')"
      using ok by (simp add: paths_ok_def)
    note fits = paths_ok_fits [OF ok]
    from half(4,5) obtain v3 where b: "promote (uo_bundle_path o') (staged_bundle o') v' = (Inr (), v3)"
        and s: "promote (uo_sig_path o') (staged_sig o') v3 = (Inl p, w1)"
      by (auto elim: promote_pair_split)
    have "files w1 (uo_bundle_path o') = files v3 (uo_bundle_path o')"
      using bundle_rotation.rot_failed(2) [OF fits(2) s] d by (simp add: only_touches_def settled_def)
    also have "\<dots> = Some \<lparr>content = fr_bundle res, mode = 384\<rparr>"
      using bundle_rotation.rot_installs(1) [OF fits(1) b] verify_staged_ok(1) [OF half(3)]
        stage_ok [OF half(2)] d by simp
    finally show ?thesis
      using half(1,6) by (simp add: content_of_def)
  qed (auto dest: stage_err verify_staged_err)
  then obtain res where u1: "u1 = u" and res: "fetch (last_etag u) = Inr res"
    and c: "content_of w1 (uo_bundle_path o') = Some (fr_bundle res)" by blast
  from ok again show ?thesis
  proof (cases rule: tick_ok_cases)
    case quiet
    with new u1 show ?thesis by simp
  next
    case (swap res' b)
    with res u1 have s: "swapped_to C Y o' res u w1 u2 w2 b" by simp
    with c have "files w2 (previous_of (uo_bundle_path o')) = files w1 (uo_bundle_path o')"
      by (auto simp: swapped_to_def content_of_def)
    with s c res show ?thesis by (intro exI [of _ res]) (auto simp: swapped_to_def content_of_def)
  qed
qed

lemma swapped_newer:
  "swapped_to C Y o' res u w u' w' b \<Longrightarrow> live_version u \<noteq> [] \<Longrightarrow> live_version u < bundle_version b"
  by (auto simp: swapped_to_def bytes_ok_def version_gates_ok_def staged_options_def live_version_def)

lemma build_router_version: "build_router b = Inr r \<Longrightarrow> rt_bundle_version r = bundle_version b"
  by (auto simp: build_router_def split: sum.splits)

lemma swapped_live:
  "swapped_to C Y o' res u w u' w' b \<Longrightarrow> live_version u' = bundle_version b \<and> swaps u' = swaps u @ [b]"
  by (auto simp: swapped_to_def live_version_def dest: build_router_version)

text \<open>
  The hash of the bundle loaded at start-up is never recorded, so when the first answer is
  the very bundle that is live (same version) the poll fails as a downgrade and the ETag is not
  stored; the next poll asks with the same ETag again.
\<close>

theorem tick_same_version_refused:
  assumes ok: "paths_ok o'" and f: "fetch (last_etag u) = Inr res" "\<not> fr_not_modified res"
    and h: "sha256 C (fr_bundle res) \<noteq> last_hash u" and live: "live_version u \<noteq> []"
    and same: "yaml_first Y (fr_bundle res) = Some b" "bundle_version b = live_version u"
  shows "\<exists>e w'. tick C Y o' fetch u w = (Inl e, u, w')"
proof -
  obtain r u' w' where t: "tick C Y o' fetch u w = (r, u', w')" by (cases "tick C Y o' fetch u w")
  from t show ?thesis
  proof (cases rule: tick_cases)
    case (swapped res' w1 lr w2)
    with f have s: "swapped_to C Y o' res u w u' w' (lr_bundle lr)"
      using swap_facts [OF ok swapped(3-5)] by simp
    with same have "lr_bundle lr = b" by (auto simp: swapped_to_def bytes_ok_def)
    with swapped_newer [OF s live] same(2) show ?thesis by simp
  qed (use f h t in auto)
qed

section \<open>Properties of the polling loop\<close>

text \<open>The versions that were live, in order, when the first one was \<open>v0\<close> and \<open>bs\<close> were swapped in.\<close>

definition rising :: "string \<Rightarrow> broker_bundle list \<Rightarrow> bool" where
  "rising v0 bs = sorted_wrt (<) (v0 # map bundle_version bs)"

lemma rising_snoc:
  "rising v0 bs \<Longrightarrow> last (v0 # map bundle_version bs) < bundle_version b \<Longrightarrow> rising v0 (bs @ [b])"
  by (cases bs rule: rev_cases)
     (auto simp: rising_def sorted_wrt_append dest: less_trans)

definition run_inv :: "string \<Rightarrow> broker_bundle list \<Rightarrow> up_run \<Rightarrow> bool" where
  "run_inv v0 start s = (\<exists>bs. swaps (ur_updater s) = start @ bs \<and> rising v0 bs
     \<and> live_version (ur_updater s) = last (v0 # map bundle_version bs))"

lemma run_tick_inv:
  assumes ok: "paths_ok o'" and v0: "v0 \<noteq> []" and inv: "run_inv v0 start s"
  shows "run_inv v0 start (run_tick C Y o' fetch s)"
proof -
  obtain r u w where t: "tick C Y o' fetch (ur_updater s) (ur_world s) = (r, u, w)"
    by (cases "tick C Y o' fetch (ur_updater s) (ur_world s)")
  from inv obtain bs where bs: "swaps (ur_updater s) = start @ bs" "rising v0 bs"
      "live_version (ur_updater s) = last (v0 # map bundle_version bs)"
    by (auto simp: run_inv_def)
  have nonempty: "last (v0 # map bundle_version bs) \<noteq> []"
    using bs(2) v0 by (cases bs rule: rev_cases) (auto simp: rising_def sorted_wrt_append)
  show ?thesis
  proof (cases r)
    case (Inl e)
    from ok t [unfolded Inl] have "u = ur_updater s" by (cases rule: tick_err_cases)
    with inv t Inl show ?thesis by (simp add: run_inv_def run_tick_def)
  next
    case (Inr x)
    from ok t [unfolded Inr] show ?thesis
    proof (cases rule: tick_ok_cases)
      case quiet
      with inv t Inr show ?thesis by (simp add: run_inv_def run_tick_def live_version_def)
    next
      case (swap res b)
      from swapped_newer [OF swap(3)] bs(3) nonempty
      have "rising v0 (bs @ [b])" by (intro rising_snoc [OF bs(2)]) simp
      with swapped_live [OF swap(3)] bs t Inr show ?thesis
        by (auto simp: run_inv_def run_tick_def intro!: exI [of _ "bs @ [b]"])
    qed
  qed
qed

lemma run_step_inv:
  assumes "paths_ok o'" and "v0 \<noteq> []" and "run_inv v0 start s"
  shows "run_inv v0 start (run_step C Y o' s e)"
proof -
  have same: "run_inv v0 start (s\<lparr>poke_pending := b\<rparr>)" "run_inv v0 start (s\<lparr>stopped := b\<rparr>)" for b
    using assms(3) by (simp_all add: run_inv_def)
  show ?thesis
    using assms same by (cases e) (auto intro: run_tick_inv)
qed

text \<open>
  C5: over any sequence of ticks, pokes and cancellation, whatever the fetcher answers and
  whichever system calls fail, the versions that go live strictly increase from the version that was
  live first: the updater never goes back.
\<close>

theorem run_updater_versions_rise:
  assumes "paths_ok o'" and "live_version (ur_updater s) \<noteq> []"
  shows "\<exists>bs. swaps (ur_updater (run_updater C Y o' s es)) = swaps (ur_updater s) @ bs
      \<and> sorted_wrt (<) (live_version (ur_updater s) # map bundle_version bs)
      \<and> live_version (ur_updater (run_updater C Y o' s es))
          = last (live_version (ur_updater s) # map bundle_version bs)"
proof -
  have "run_inv (live_version (ur_updater s)) (swaps (ur_updater s)) (run_updater C Y o' s es)"
    unfolding run_updater_def
  proof (induction es rule: rev_induct)
    case Nil
    show ?case by (auto simp: run_inv_def rising_def)
  next
    case (snoc e es)
    with run_step_inv [OF assms] show ?case by simp
  qed
  then show ?thesis by (simp add: run_inv_def rising_def)
qed

text \<open>
  C29: at every instant of a promotion, whether it succeeds or fails, either a current file exists,
  or the old current file is at the previous path and the staged file is still staged.
\<close>

theorem promote_crash_safe:
  assumes "distinct [cur, staged, previous_of cur]" and "promote cur staged w = (r, w')"
  shows "\<exists>ms. history w' = rev ms @ history w
      \<and> (\<forall>m\<in>set ms. m cur \<noteq> None
           \<or> m (previous_of cur) = (if files w cur = None then files w (previous_of cur) else files w cur)
             \<and> m staged = files w staged)"
proof -
  have "previous_fits cur staged (previous_of cur)"
    using assms(1) by (simp add: previous_fits_def previous_of_def)
  from bundle_rotation.rot_crash_safe [OF this assms(2)] show ?thesis
    by (auto simp: passes_def)
qed

section \<open>Witnesses\<close>

text \<open>
  A proxy that runs bundle A (signed, at \<open>b\<close>, \<open>s\<close>, \<open>k\<close>) and a fetcher that offers bundle B, or A again,
  or an older one.
\<close>

definition ex_up_opts :: up_opts where
  "ex_up_opts = \<lparr>uo_bundle_path = ''b'', uo_sig_path = ''s'', uo_pubkey_path = ''k'', uo_binary_version = ''1.2.0''\<rparr>"

definition ex_updater :: updater where
  "ex_updater = new_updater (new_holder
     (case build_router (ex_bundle ''2026-01-01'') of Inr r \<Rightarrow> Some r | Inl _ \<Rightarrow> None))"

definition ex_fetch :: "bytes \<Rightarrow> string \<Rightarrow> fetch_err + fetch_result" where
  "ex_fetch d _ = Inr \<lparr>fr_not_modified = False, fr_bundle = d, fr_signature = ''sig'', fr_etag = ''e1''\<rparr>"

definition ex_tick :: "bytes \<Rightarrow> updater \<Rightarrow> world \<Rightarrow> (tick_err + unit) \<times> updater \<times> world" where
  "ex_tick d = tick ex_crypto ex_yaml ex_up_opts (ex_fetch d)"

definition is_torn :: "tick_err + unit \<Rightarrow> bool" where
  "is_torn r = (case r of Inl (PromoteSignature _) \<Rightarrow> True | _ \<Rightarrow> False)"

lemma ex_paths_ok: "paths_ok ex_up_opts" by code_simp

lemma ex_live: "live_version ex_updater \<noteq> []" by code_simp

lemma ex_tick_ok: "is_ok (fst (ex_tick ''B'' ex_updater (ex_world [])))" by code_simp

lemma ex_tick_err: "\<not> is_ok (fst (ex_tick ''C'' ex_updater (ex_world [])))" by code_simp

text \<open>The sixteenth system call of the poll, the rotation of the signature, fails.\<close>

definition ex_torn :: "(tick_err + unit) \<times> updater \<times> world" where
  "ex_torn = ex_tick ''B'' ex_updater (ex_world (replicate 15 False @ [True]))"

lemma ex_is_torn: "is_torn (fst ex_torn)" by code_simp

lemma ex_retried:
  "is_ok (fst (ex_tick ''B'' (fst (snd ex_torn)) (snd (snd ex_torn))))
     \<and> length (swaps (fst (snd (ex_tick ''B'' (fst (snd ex_torn)) (snd (snd ex_torn)))))) = 1" by code_simp

lemma is_torn_Inl: "is_torn r \<Longrightarrow> \<exists>p. r = Inl (PromoteSignature p)"
  by (auto simp: is_torn_def split: sum.splits tick_err.splits)

theorem tick_swaps_witness:
  "\<exists>u' w'. ex_tick ''B'' ex_updater (ex_world []) = (Inr (), u', w')
     \<and> (up_holder u' = up_holder ex_updater \<and> swaps u' = swaps ex_updater \<and> w' = ex_world []
        \<or> (\<exists>res b. ex_fetch ''B'' (last_etag ex_updater) = Inr res
             \<and> swapped_to ex_crypto ex_yaml ex_up_opts res ex_updater (ex_world []) u' w' b))"
proof -
  obtain u' w' where t: "ex_tick ''B'' ex_updater (ex_world []) = (Inr (), u', w')"
    using is_ok_Inr [OF ex_tick_ok] by (metis old.unit.exhaust prod.collapse)
  from tick_swaps [OF ex_paths_ok t [unfolded ex_tick_def]] t show ?thesis by blast
qed

theorem tick_fail_closed_witness:
  "\<exists>e w'. ex_tick ''C'' ex_updater (ex_world []) = (Inl e, ex_updater, w')"
proof -
  obtain e u' w' where t: "ex_tick ''C'' ex_updater (ex_world []) = (Inl e, u', w')"
    using not_ok_Inl [OF ex_tick_err] by (metis prod.collapse)
  from tick_fail_closed [OF ex_paths_ok t [unfolded ex_tick_def]] t show ?thesis by blast
qed

lemma ex_torn_split: "\<exists>p. ex_torn = (Inl (PromoteSignature p), fst (snd ex_torn), snd (snd ex_torn))"
  using is_torn_Inl [OF ex_is_torn] by (metis prod.collapse)

theorem tick_torn_pair_witness:
  "fst (snd ex_torn) = ex_updater \<and> (\<exists>res. ex_fetch ''B'' (last_etag ex_updater) = Inr res
      \<and> content_of (snd (snd ex_torn)) (uo_bundle_path ex_up_opts) = Some (fr_bundle res))"
proof -
  obtain p where "ex_torn = (Inl (PromoteSignature p), fst (snd ex_torn), snd (snd ex_torn))"
    using ex_torn_split by blast
  from tick_torn_pair [OF ex_paths_ok this [unfolded ex_torn_def ex_tick_def]]
  show ?thesis by (auto simp: ex_torn_def ex_tick_def)
qed

theorem tick_retry_after_torn_pair_witness:
  "\<exists>u2 w2 res. ex_tick ''B'' (fst (snd ex_torn)) (snd (snd ex_torn)) = (Inr (), u2, w2)
      \<and> ex_fetch ''B'' (last_etag ex_updater) = Inr res
      \<and> content_of w2 (previous_of (uo_bundle_path ex_up_opts)) = Some (fr_bundle res)"
proof -
  obtain p where t: "ex_torn = (Inl (PromoteSignature p), fst (snd ex_torn), snd (snd ex_torn))"
    using ex_torn_split by blast
  obtain u2 w2 where a: "ex_tick ''B'' (fst (snd ex_torn)) (snd (snd ex_torn)) = (Inr (), u2, w2)"
    using is_ok_Inr [OF conjunct1 [OF ex_retried]] by (metis old.unit.exhaust prod.collapse)
  with ex_retried have "length (swaps u2) = 1" by simp
  moreover have "swaps ex_updater = []" by (simp add: ex_updater_def new_updater_def)
  ultimately have n: "swaps u2 \<noteq> swaps ex_updater" by auto
  from tick_retry_after_torn_pair [OF ex_paths_ok t [unfolded ex_torn_def ex_tick_def]
      a [unfolded ex_torn_def ex_tick_def] n] a
  show ?thesis by blast
qed

theorem tick_same_version_refused_witness:
  "\<exists>e w'. ex_tick ''A'' ex_updater (ex_world []) = (Inl e, ex_updater, w')"
proof -
  have same: "bundle_version (ex_bundle ''2026-01-01'') = live_version ex_updater" by code_simp
  have y: "yaml_first ex_yaml ''A'' = Some (ex_bundle ''2026-01-01'')" by (simp add: ex_yaml_def)
  have h: "sha256 ex_crypto ''A'' \<noteq> last_hash ex_updater"
    by (simp add: ex_crypto_def ex_updater_def new_updater_def numeral_eq_Suc)
  show ?thesis
    using tick_same_version_refused [OF ex_paths_ok, of "ex_fetch ''A''" ex_updater _ ex_crypto ex_yaml
        "ex_bundle ''2026-01-01''" "ex_world []"] same y h ex_live
    by (simp add: ex_tick_def ex_fetch_def)
qed

definition ex_run :: up_run where
  "ex_run = \<lparr>ur_updater = ex_updater, ur_world = ex_world [], poke_pending = False, stopped = False, warnings = []\<rparr>"

definition ex_events :: "up_event list" where
  "ex_events = [Poke, PokeReceived (ex_fetch ''B''), Ticker (ex_fetch ''A''), CtxDone]"

lemma ex_run_swaps: "length (swaps (ur_updater (run_updater ex_crypto ex_yaml ex_up_opts ex_run ex_events))) = 1"
  by code_simp

theorem run_updater_versions_rise_witness:
  "\<exists>b. swaps (ur_updater (run_updater ex_crypto ex_yaml ex_up_opts ex_run ex_events)) = [b]
      \<and> live_version ex_updater < bundle_version b"
proof -
  have l: "live_version (ur_updater ex_run) \<noteq> []" using ex_live by (simp add: ex_run_def)
  have n: "swaps (ur_updater ex_run) = []" by (simp add: ex_run_def ex_updater_def new_updater_def)
  from run_updater_versions_rise [OF ex_paths_ok l, of ex_crypto ex_yaml ex_events] n ex_run_swaps
  show ?thesis by (auto simp: length_Suc_conv ex_run_def)
qed

theorem promote_crash_safe_witness:
  "\<exists>r w' ms. promote ''b'' ''n'' ((ex_world [])\<lparr>files := [''b'' \<mapsto> ex_entry ''A'', ''n'' \<mapsto> ex_entry ''B'']\<rparr>) = (r, w')
      \<and> is_ok r \<and> history w' = rev ms \<and> length ms = 2
      \<and> (\<forall>m\<in>set ms. m ''b'' \<noteq> None \<or> m ''b.previous'' = Some (ex_entry ''A'') \<and> m ''n'' = Some (ex_entry ''B''))"
proof -
  let ?w = "(ex_world [])\<lparr>files := [''b'' \<mapsto> ex_entry ''A'', ''n'' \<mapsto> ex_entry ''B'']\<rparr>"
  have d: "distinct [''b'', ''n'', previous_of ''b'']" by (simp add: previous_of_def)
  have r: "is_ok (fst (promote ''b'' ''n'' ?w)) \<and> length (history (snd (promote ''b'' ''n'' ?w))) = 2"
    by code_simp
  from promote_crash_safe [OF d prod.collapse [symmetric], of ?w] r
  show ?thesis
    by (auto simp: ex_world_def previous_of_def intro!: exI [of _ "fst (promote ''b'' ''n'' ?w)"]
        exI [of _ "snd (promote ''b'' ''n'' ?w)"])
qed

end
