(* ===== verification/BinUpd.thy ===== *)
theory BinUpd
  imports Fixtures Staging
begin

text \<open>
  The binary updater, \<open>internal/binupd/binupd.go\<close>: a signed binary is verified, staged with mode 0755 and
  rotated into place; \<open>Rollback\<close> exchanges the current and the previous binary. Its rotation is an
  instance of the locale \<open>rotation\<close>, as the bundle updater's is.
\<close>

section \<open>Construction\<close>

record bin_opts =
  bo_pubkey_path :: path
  bo_current_path :: path
  bo_previous_path :: path
  bo_staged_path :: path

record receiver =
  rc_opts :: bin_opts
  rc_pub :: bytes

datatype bin_err = PathRequired string | BinPubkeyRead os_err | BinPemBlock | BinPkix | BinNotEcdsa string
  | BinNotP256 string | BinSignatureEmpty | BinSignatureInvalid | BinStage exec_err
  | BinStat os_err | BinRotate os_err | BinPromote os_err
  | NoPrevious os_err | StashCurrent os_err | PromotePrevious os_err | DemoteCurrent os_err

definition bin_decode_pubkey :: "crypto \<Rightarrow> bytes \<Rightarrow> bin_err + bytes" where
  "bin_decode_pubkey C raw =
     (case pem_decode C raw of
        None \<Rightarrow> Inl BinPemBlock
      | Some (ty, der) \<Rightarrow> check (ty \<noteq> ''PUBLIC KEY'') BinPemBlock
          (case parse_pkix C der of
             None \<Rightarrow> Inl BinPkix
           | Some (OtherKey t) \<Rightarrow> Inl (BinNotEcdsa t)
           | Some (EcdsaKey curve pub) \<Rightarrow> check (curve \<noteq> ''P-256'') (BinNotP256 curve) (Inr pub)))"

definition bin_read_pubkey :: "crypto \<Rightarrow> path \<Rightarrow> world \<Rightarrow> (bin_err + bytes) \<times> world" where
  "bin_read_pubkey C p w = (case os_read_file p w of
       (Inl e, w') \<Rightarrow> (Inl (BinPubkeyRead e), w')
     | (Inr raw, w') \<Rightarrow> (bin_decode_pubkey C raw, w'))"

text \<open>
  \<open>New\<close> ranges over a map literal from option names to values to find an empty one, in an order Go
  leaves open: \<open>names\<close> is that order, any list of the four names.
\<close>

definition bin_option :: "bin_opts \<Rightarrow> string \<Rightarrow> path" where
  "bin_option o' n =
     (if n = ''PubkeyPath'' then bo_pubkey_path o'
      else if n = ''CurrentPath'' then bo_current_path o'
      else if n = ''PreviousPath'' then bo_previous_path o'
      else bo_staged_path o')"

definition binupd_New :: "crypto \<Rightarrow> string list \<Rightarrow> bin_opts \<Rightarrow> world \<Rightarrow> (bin_err + receiver) \<times> world" where
  "binupd_New C names o' w =
     (case find (\<lambda>n. bin_option o' n = []) names of
        Some n \<Rightarrow> (Inl (PathRequired n), w)
      | None \<Rightarrow> (case bin_read_pubkey C (bo_pubkey_path o') w of
          (Inl e, w') \<Rightarrow> (Inl e, w')
        | (Inr pub, w') \<Rightarrow> (Inr \<lparr>rc_opts = o', rc_pub = pub\<rparr>, w')))"

section \<open>Applying and rolling back\<close>

definition bin_promote :: "path \<Rightarrow> path \<Rightarrow> path \<Rightarrow> world \<Rightarrow> (bin_err + unit) \<times> world" where
  "bin_promote current staged previous w =
     (let install = (\<lambda>w. case os_rename staged current w of
              (Inl e, w') \<Rightarrow> (Inl (BinPromote e), w') | (Inr _, w') \<Rightarrow> (Inr (), w'))
      in case os_stat current w of
        (Inr _, w1) \<Rightarrow> (case os_rename current previous w1 of
            (Inl e, w2) \<Rightarrow> (Inl (BinRotate e), w2)
          | (Inr _, w2) \<Rightarrow> install w2)
      | (Inl NotExist, w1) \<Rightarrow> install w1
      | (Inl Failure, w1) \<Rightarrow> (Inl (BinStat Failure), w1))"

definition apply_binary :: "crypto \<Rightarrow> receiver \<Rightarrow> bytes \<Rightarrow> bytes \<Rightarrow> world \<Rightarrow> (bin_err + unit) \<times> world" where
  "apply_binary C r binary signature w =
     (let o' = rc_opts r in
      if signature = [] then (Inl BinSignatureEmpty, w)
      else if \<not> verify_asn1 C (rc_pub r) (sha256 C binary) signature then (Inl BinSignatureInvalid, w)
      else (case write_executable (bo_staged_path o') binary w of
        (Inl e, w1) \<Rightarrow> (Inl (BinStage e), w1)
      | (Inr _, w1) \<Rightarrow>
     (case bin_promote (bo_current_path o') (bo_staged_path o') (bo_previous_path o') w1 of
        (Inl e, w2) \<Rightarrow> (Inl e, cleanup (bo_staged_path o') w2)
      | (Inr _, w2) \<Rightarrow> (Inr (), w2))))"

definition rollback_tmp :: "bin_opts \<Rightarrow> path" where
  "rollback_tmp o' = bo_current_path o' @ ''.rollback-tmp''"

definition rollback :: "receiver \<Rightarrow> world \<Rightarrow> (bin_err + unit) \<times> world" where
  "rollback r w =
     (let o' = rc_opts r; tmp = rollback_tmp o' in
     (case os_stat (bo_previous_path o') w of
        (Inl e, w1) \<Rightarrow> (Inl (NoPrevious e), w1)
      | (Inr _, w1) \<Rightarrow>
     (case os_rename (bo_current_path o') tmp w1 of
        (Inl e, w2) \<Rightarrow> (Inl (StashCurrent e), w2)
      | (Inr _, w2) \<Rightarrow>
     (case os_rename (bo_previous_path o') (bo_current_path o') w2 of
        (Inl e, w3) \<Rightarrow> (Inl (PromotePrevious e), snd (os_rename tmp (bo_current_path o') w3))
      | (Inr _, w3) \<Rightarrow>
     (case os_rename tmp (bo_previous_path o') w3 of
        (Inl e, w4) \<Rightarrow> (Inl (DemoteCurrent e), w4)
      | (Inr _, w4) \<Rightarrow> (Inr (), w4))))))"

section \<open>The rotation of binaries\<close>

interpretation binary_rotation: rotation bin_promote "\<lambda>cur staged prev. distinct [cur, staged, prev]"
proof (unfold_locales, goal_cases)
  case (1 cur staged prev)
  then show ?case .
next
  case (2 cur staged prev w u w')
  then show ?case
    by (auto simp: bin_promote_def Let_def split: prod.splits sum.splits os_err.splits
        intro: half_then_install half_present half_absent)
next
  case (3 cur staged prev w e w')
  then show ?case
    by (auto simp: bin_promote_def Let_def split: prod.splits sum.splits os_err.splits
        intro: half_then_failed half_present half_absent stat_failed rotate_failed)
qed

text \<open>The configured paths are different, and none is a temporary name.\<close>

definition bin_paths_ok :: "bin_opts \<Rightarrow> bool" where
  "bin_paths_ok o' =
     (distinct [bo_current_path o', bo_staged_path o', bo_previous_path o', rollback_tmp o']
      \<and> \<not> prefix (bo_staged_path o' @ ''.tmp.'') (bo_current_path o')
      \<and> \<not> prefix (bo_staged_path o' @ ''.tmp.'') (bo_previous_path o'))"

lemma bin_paths_tmp:
  "bin_paths_ok o' \<Longrightarrow> bo_current_path o' \<noteq> tmp_name (bo_staged_path o') n
     \<and> bo_previous_path o' \<noteq> tmp_name (bo_staged_path o') n"
  by (auto simp: bin_paths_ok_def tmp_name_def)

lemma apply_binary_cases:
  assumes "apply_binary C r bin sg w = (res, w')"
  obtains (unsigned) "res = Inl BinSignatureEmpty \<or> res = Inl BinSignatureInvalid" "w' = w"
  | (unstaged) e where "res = Inl (BinStage e)" "write_executable (bo_staged_path (rc_opts r)) bin w = (Inl e, w')"
  | (unpromoted) w1 e w2 where "res = Inl e" "write_executable (bo_staged_path (rc_opts r)) bin w = (Inr (), w1)"
      "bin_promote (bo_current_path (rc_opts r)) (bo_staged_path (rc_opts r)) (bo_previous_path (rc_opts r)) w1
         = (Inl e, w2)" "w' = cleanup (bo_staged_path (rc_opts r)) w2"
  | (applied) w1 where "res = Inr ()" "sg \<noteq> []" "verify_asn1 C (rc_pub r) (sha256 C bin) sg"
      "write_executable (bo_staged_path (rc_opts r)) bin w = (Inr (), w1)"
      "bin_promote (bo_current_path (rc_opts r)) (bo_staged_path (rc_opts r)) (bo_previous_path (rc_opts r)) w1
         = (Inr (), w')"
  using assms
  by (auto simp: apply_binary_def Let_def split: prod.splits sum.splits if_splits)

section \<open>Properties\<close>

text \<open>
  C30: a binary is installed only with a signature that holds under the pinned key; then it is the
  current file with mode 0755, the binary it replaced is the previous one, and no staged copy is left.
\<close>

theorem apply_installs:
  assumes ok: "bin_paths_ok (rc_opts r)" and run: "apply_binary C r bin sg w = (Inr u, w')"
  shows "sg \<noteq> [] \<and> verify_asn1 C (rc_pub r) (sha256 C bin) sg
      \<and> files w' (bo_current_path (rc_opts r)) = Some \<lparr>content = bin, mode = 493\<rparr>
      \<and> files w' (bo_staged_path (rc_opts r)) = None
      \<and> (files w (bo_current_path (rc_opts r)) \<noteq> None \<longrightarrow>
           files w' (bo_previous_path (rc_opts r)) = files w (bo_current_path (rc_opts r)))"
  using run
proof (cases rule: apply_binary_cases)
  case (applied w1)
  from ok have d: "distinct [bo_current_path (rc_opts r), bo_staged_path (rc_opts r), bo_previous_path (rc_opts r)]"
    by (simp add: bin_paths_ok_def)
  note i = binary_rotation.rot_installs [OF d applied(5)]
  have f1: "files w1 = (files w)(bo_staged_path (rc_opts r) \<mapsto> \<lparr>content = bin, mode = 493\<rparr>)"
    by (rule write_executable_ok [OF applied(4)])
  show ?thesis
    using applied(2,3) i(1,3,4) d by (simp add: f1)
qed auto

text \<open>
  When applying a binary fails, the binary that was current is still current, or, if the
  failure is that of the second rename, there is no current binary and it is at the previous path.
  Only then is the claim of the doc comment, that the current binary stays in place, not met.
\<close>

theorem apply_failure_keeps_binary:
  assumes ok: "bin_paths_ok (rc_opts r)" and run: "apply_binary C r bin sg w = (Inl e, w')"
    and cur: "files w (bo_current_path (rc_opts r)) = Some f"
  shows "files w' (bo_current_path (rc_opts r)) = Some f
      \<or> (\<exists>os. e = BinPromote os) \<and> files w' (bo_current_path (rc_opts r)) = None
         \<and> files w' (bo_previous_path (rc_opts r)) = Some f"
  using run
proof (cases rule: apply_binary_cases)
  case (unstaged e')
  from write_executable_err [OF this(2)] bin_paths_tmp [OF ok] cur show ?thesis
    by (simp add: only_touches_def)
next
  case (unpromoted w1 e' w2)
  let ?c = "bo_current_path (rc_opts r)" and ?s = "bo_staged_path (rc_opts r)"
    and ?p = "bo_previous_path (rc_opts r)"
  from ok have d: "distinct [?c, ?s, ?p]" by (simp add: bin_paths_ok_def)
  have c1: "files w1 ?c = Some f"
    using write_executable_ok [OF unpromoted(2)] d cur by simp
  have keep: "files w' q = files w2 q" if "q \<noteq> ?s" for q
    using touches_cleanup [of ?s w2] that unpromoted(4) by (simp add: only_touches_def)
  consider "files w2 ?c = Some f" | "\<exists>os. e = BinPromote os" "files w2 = rotated ?c ?p (files w1)"
    using binary_rotation.rot_failed(1) [OF d unpromoted(3)] unpromoted(1,3) c1
    by (auto simp: bin_promote_def Let_def split: prod.splits sum.splits os_err.splits
        dest!: reads_frame os_rename_err)
  then show ?thesis
    using keep [of ?c] keep [of ?p] d c1 by cases (auto simp: rotated_def)
qed (use cur in auto)

lemma rollback_ok:
  assumes ok: "bin_paths_ok (rc_opts r)" and run: "rollback r w = (Inr u, w')"
  shows "files w (bo_current_path (rc_opts r)) \<noteq> None" and "files w (bo_previous_path (rc_opts r)) \<noteq> None"
    and "files w' = (files w)(bo_current_path (rc_opts r) := files w (bo_previous_path (rc_opts r)),
           bo_previous_path (rc_opts r) := files w (bo_current_path (rc_opts r)), rollback_tmp (rc_opts r) := None)"
proof -
  let ?c = "bo_current_path (rc_opts r)" and ?p = "bo_previous_path (rc_opts r)" and ?t = "rollback_tmp (rc_opts r)"
  from ok have d: "?c \<noteq> ?p" "?c \<noteq> ?t" "?p \<noteq> ?t" by (auto simp: bin_paths_ok_def)
  from run obtain u0 w1 u1 w2 u2 w3 u3 where
      0: "os_stat ?p w = (Inr u0, w1)" and 1: "os_rename ?c ?t w1 = (Inr u1, w2)"
    and 2: "os_rename ?p ?c w2 = (Inr u2, w3)" and 3: "os_rename ?t ?p w3 = (Inr u3, w')"
    by (auto simp: rollback_def Let_def split: prod.splits sum.splits)
  have f1: "files w1 = files w" using 0 by (rule reads_frame)
  from os_rename_ok [OF 1] f1 obtain a where a: "files w ?c = Some a" "files w2 = (files w)(?c := None, ?t \<mapsto> a)" by auto
  from os_rename_ok [OF 2] a d obtain b where b: "files w ?p = Some b" "files w3 = (files w2)(?p := None, ?c \<mapsto> b)" by auto
  from os_rename_ok [OF 3] a b d have f: "files w' = (files w3)(?t := None, ?p \<mapsto> a)" by auto
  show "files w ?c \<noteq> None" "files w ?p \<noteq> None" using a b by simp_all
  show "files w' = (files w)(?c := files w ?p, ?p := files w ?c, ?t := None)"
    using a b f d by (auto simp: fun_eq_iff)
qed

text \<open>
  C32: a rollback that succeeds exchanges the current and the previous binary and touches nothing else
  but its temporary name; so rolling back twice restores both.
\<close>

theorem rollback_exchanges:
  assumes ok: "bin_paths_ok (rc_opts r)" and run: "rollback r w = (Inr u, w1)" and again: "rollback r w1 = (Inr u', w2)"
  shows "files w1 (bo_current_path (rc_opts r)) = files w (bo_previous_path (rc_opts r))
      \<and> files w1 (bo_previous_path (rc_opts r)) = files w (bo_current_path (rc_opts r))
      \<and> (\<forall>q. q \<noteq> rollback_tmp (rc_opts r) \<longrightarrow> files w2 q = files w q)"
  using rollback_ok(3) [OF ok run] rollback_ok(3) [OF ok again] ok
  by (auto simp: bin_paths_ok_def)

text \<open>
  A rollback that fails never loses the binary that was current: it is still current, or it
  is at the temporary name. In the second case either the previous binary is current now, or moving
  it failed and moving the old one back failed too.
\<close>

theorem rollback_failure_keeps_binary:
  assumes ok: "bin_paths_ok (rc_opts r)" and run: "rollback r w = (Inl e, w')"
    and cur: "files w (bo_current_path (rc_opts r)) = Some f"
  shows "files w' (bo_current_path (rc_opts r)) = Some f
      \<or> files w' (rollback_tmp (rc_opts r)) = Some f
         \<and> (files w' (bo_current_path (rc_opts r)) = files w (bo_previous_path (rc_opts r))
            \<or> (\<exists>os. e = PromotePrevious os) \<and> files w' (bo_current_path (rc_opts r)) = None)"
proof -
  let ?c = "bo_current_path (rc_opts r)" and ?p = "bo_previous_path (rc_opts r)" and ?t = "rollback_tmp (rc_opts r)"
  from ok have d: "?c \<noteq> ?p" "?c \<noteq> ?t" "?p \<noteq> ?t" by (auto simp: bin_paths_ok_def)
  obtain r0 w1 where 0: "os_stat ?p w = (r0, w1)" by (cases "os_stat ?p w")
  have f1: "files w1 = files w" using 0 by (rule reads_frame)
  obtain r1 w2 where 1: "os_rename ?c ?t w1 = (r1, w2)" by (cases "os_rename ?c ?t w1")
  obtain r2 w3 where 2: "os_rename ?p ?c w2 = (r2, w3)" by (cases "os_rename ?p ?c w2")
  obtain r3 w4 where 3: "os_rename ?t ?p w3 = (r3, w4)" by (cases "os_rename ?t ?p w3")
  obtain r4 w5 where 4: "os_rename ?t ?c w3 = (r4, w5)" by (cases "os_rename ?t ?c w3")
  note steps = run [unfolded rollback_def Let_def 0 1 2 3 4 prod.case]
  show ?thesis
  proof (cases "\<exists>u v. r0 = Inr u \<and> r1 = Inr v")
    case False
    then have "w' = w1 \<or> w' = w2 \<and> (\<exists>e. r1 = Inl e)" using steps 1 by (auto simp: 2 3 4 split: sum.splits)
    with 1 f1 cur show ?thesis by (auto dest!: os_rename_err)
  next
    case True
    with os_rename_ok [of ?c ?t w1] 1 f1 cur have f2: "files w2 = (files w)(?c := None, ?t \<mapsto> f)" by auto
    show ?thesis
    proof (cases r2)
      case (Inl e2)
      with True steps have e: "e = PromotePrevious e2" and w': "w' = w5" by (auto simp: 4)
      from Inl 2 have f3: "files w3 = files w2" by (auto dest!: os_rename_err)
      show ?thesis
      proof (cases r4)
        case (Inl e4)
        with 4 have "files w5 = files w3" by (auto dest!: os_rename_err)
        with f2 f3 e w' d show ?thesis by simp
      next
        case (Inr u4)
        with os_rename_ok [of ?t ?c w3] 4 f2 f3 d have "files w5 ?c = Some f" by auto
        with w' show ?thesis by simp
      qed
    next
      case (Inr u2)
      with os_rename_ok [of ?p ?c w2] 2 f2 d obtain b where
        b: "files w ?p = Some b" "files w3 = (files w2)(?p := None, ?c \<mapsto> b)" by auto
      from True Inr steps have "w' = w4" and "\<exists>e3. r3 = Inl e3" by (auto simp: 3 split: sum.splits)
      with 3 have "files w' = files w3" by (auto dest!: os_rename_err)
      with b f2 d show ?thesis by simp
    qed
  qed
qed

section \<open>Witnesses\<close>

definition ex_receiver :: receiver where
  "ex_receiver = \<lparr>rc_opts = \<lparr>bo_pubkey_path = ''k'', bo_current_path = ''c'', bo_previous_path = ''p'',
     bo_staged_path = ''t''\<rparr>, rc_pub = ''key''\<rparr>"

definition ex_bin_world :: "bool list \<Rightarrow> world" where
  "ex_bin_world fs = \<lparr>files = [''c'' \<mapsto> ex_entry ''v1'', ''p'' \<mapsto> ex_entry ''v0'', ''k'' \<mapsto> ex_entry ''key''],
     faults = fs, tmp_seq = 0, history = []\<rparr>"

lemma ex_bin_paths: "bin_paths_ok (rc_opts ex_receiver)" by code_simp

lemma ex_bin_current: "files (ex_bin_world fs) (bo_current_path (rc_opts ex_receiver)) = Some (ex_entry ''v1'')"
  by (simp add: ex_bin_world_def ex_receiver_def)

lemma ex_apply_runs:
  "is_ok (fst (apply_binary ex_crypto ex_receiver ''v2'' ''sig'' (ex_bin_world [])))"
  "\<not> is_ok (fst (apply_binary ex_crypto ex_receiver ''v2'' ''sig'' (ex_bin_world (replicate 7 False @ [True]))))"
  by code_simp+

lemma ex_rollback_runs:
  "is_ok (fst (rollback ex_receiver (ex_bin_world [])))"
  "is_ok (fst (rollback ex_receiver (snd (rollback ex_receiver (ex_bin_world [])))))"
  "\<not> is_ok (fst (rollback ex_receiver (ex_bin_world [False, False, True])))"
  by code_simp+

theorem apply_installs_witness:
  "files (snd (apply_binary ex_crypto ex_receiver ''v2'' ''sig'' (ex_bin_world []))) ''c''
     = Some \<lparr>content = ''v2'', mode = 493\<rparr>
   \<and> files (snd (apply_binary ex_crypto ex_receiver ''v2'' ''sig'' (ex_bin_world []))) ''p'' = Some (ex_entry ''v1'')"
proof -
  obtain u where t: "apply_binary ex_crypto ex_receiver ''v2'' ''sig'' (ex_bin_world [])
      = (Inr u, snd (apply_binary ex_crypto ex_receiver ''v2'' ''sig'' (ex_bin_world [])))"
    using is_ok_Inr [OF ex_apply_runs(1)] by (metis prod.collapse)
  show ?thesis
    using apply_installs [OF ex_bin_paths t] ex_bin_current [of "[]"] by (simp add: ex_receiver_def)
qed

theorem apply_failure_keeps_binary_witness:
  "let w' = snd (apply_binary ex_crypto ex_receiver ''v2'' ''sig'' (ex_bin_world (replicate 7 False @ [True])))
   in files w' ''c'' = Some (ex_entry ''v1'') \<or> files w' ''c'' = None \<and> files w' ''p'' = Some (ex_entry ''v1'')"
proof -
  let ?w = "ex_bin_world (replicate 7 False @ [True])"
  obtain e where t: "apply_binary ex_crypto ex_receiver ''v2'' ''sig'' ?w
      = (Inl e, snd (apply_binary ex_crypto ex_receiver ''v2'' ''sig'' ?w))"
    using not_ok_Inl [OF ex_apply_runs(2)] by (metis prod.collapse)
  show ?thesis
    using apply_failure_keeps_binary [OF ex_bin_paths t ex_bin_current] by (auto simp: ex_receiver_def Let_def)
qed

theorem rollback_exchanges_witness:
  "files (snd (rollback ex_receiver (ex_bin_world []))) ''c'' = Some (ex_entry ''v0'')
   \<and> files (snd (rollback ex_receiver (snd (rollback ex_receiver (ex_bin_world []))))) ''c'' = Some (ex_entry ''v1'')"
proof -
  let ?w1 = "snd (rollback ex_receiver (ex_bin_world []))"
  obtain u where 1: "rollback ex_receiver (ex_bin_world []) = (Inr u, ?w1)"
    using is_ok_Inr [OF ex_rollback_runs(1)] by (metis prod.collapse)
  obtain u' where 2: "rollback ex_receiver ?w1 = (Inr u', snd (rollback ex_receiver ?w1))"
    using is_ok_Inr [OF ex_rollback_runs(2)] by (metis prod.collapse)
  from rollback_exchanges [OF ex_bin_paths 1 2] show ?thesis
    by (simp add: ex_receiver_def ex_bin_world_def rollback_tmp_def)
qed

theorem rollback_failure_keeps_binary_witness:
  "let w' = snd (rollback ex_receiver (ex_bin_world [False, False, True]))
   in files w' ''c'' = Some (ex_entry ''v1'') \<or> files w' ''c.rollback-tmp'' = Some (ex_entry ''v1'')"
proof -
  let ?w = "ex_bin_world [False, False, True]"
  obtain e where t: "rollback ex_receiver ?w = (Inl e, snd (rollback ex_receiver ?w))"
    using not_ok_Inl [OF ex_rollback_runs(3)] by (metis prod.collapse)
  show ?thesis
    using rollback_failure_keeps_binary [OF ex_bin_paths t ex_bin_current]
    by (auto simp: ex_receiver_def Let_def rollback_tmp_def)
qed

end
