(* ===== verification/Json.thy ===== *)
theory Json
  imports GoStrings
begin

text \<open>
  The output of \<open>encoding/json\<close> the program relies on: string escaping with and without HTML escaping,
  integers, and objects written field by field with \<open>omitempty\<close>. What matters to its clients is that
  an encoded value never contains a line break, so one record is one line.
\<close>

definition quote :: char where "quote = char_of (34 :: nat)"
definition backslash :: char where "backslash = char_of (92 :: nat)"

text \<open>One ASCII byte; \<open>html\<close> is the encoder's \<open>SetEscapeHTML\<close> flag.\<close>

definition json_byte :: "bool \<Rightarrow> char \<Rightarrow> string" where
  "json_byte html c =
     (let b = byte c in
      if b = 34 \<or> b = 92 then [backslash, c]
      else if b = 8 then [backslash, CHR ''b''] else if b = 12 then [backslash, CHR ''f'']
      else if b = 10 then [backslash, CHR ''n''] else if b = 13 then [backslash, CHR ''r'']
      else if b = 9 then [backslash, CHR ''t'']
      else if b < 32 \<or> html \<and> (b = 60 \<or> b = 62 \<or> b = 38)
        then [backslash, CHR ''u'', CHR ''0'', CHR ''0'', hex_digit (b div 16), hex_digit (b mod 16)]
      else [c])"

text \<open>The loop over the string: ASCII bytes one by one, anything else rune by rune.\<close>

function json_chars :: "bool \<Rightarrow> string \<Rightarrow> string" where
  "json_chars html [] = []"
| "json_chars html (c # cs) =
     (if byte c < 128 then json_byte html c @ json_chars html cs
      else (let (r, rest) = decode_rune (byte c) (map byte cs); extra = length cs - length rest in
        (if r = rune_error \<and> extra = 0 then backslash # ''ufffd''
         else if r = 8232 \<or> r = 8233 then backslash # ''u202'' @ [hex_digit (r mod 16)]
         else c # take extra cs)
        @ json_chars html (drop extra cs)))"
  by pat_completeness auto
termination
  by (relation "measure (\<lambda>(h, s). length s)") auto

declare json_chars.simps(2) [simp del]

definition json_string :: "bool \<Rightarrow> string \<Rightarrow> string" where
  "json_string html s = quote # json_chars html s @ [quote]"

definition json_int :: "int \<Rightarrow> string" where "json_int i = int_str i"

text \<open>An object of the given fields, the values already encoded; \<open>omitempty\<close> drops the empty strings first.\<close>

definition json_field :: "string \<times> string \<Rightarrow> string" where
  "json_field f = quote # fst f @ [quote, CHR '':''] @ snd f"

definition json_object :: "(string \<times> string) list \<Rightarrow> string" where
  "json_object fs = ''{'' @ join '','' (map json_field fs) @ ''}''"

definition omit_empty :: "bool \<Rightarrow> string \<Rightarrow> string \<Rightarrow> (string \<times> string) list" where
  "omit_empty html k v = (if v = [] then [] else [(k, json_string html v)])"

section \<open>No line breaks\<close>

definition one_line :: "string \<Rightarrow> bool" where
  "one_line s = list_all (\<lambda>c. byte c \<noteq> 10) s"

lemma one_line_simps [simp]:
  "one_line []" "one_line (c # s) \<longleftrightarrow> byte c \<noteq> 10 \<and> one_line s" "one_line (s @ t) \<longleftrightarrow> one_line s \<and> one_line t"
  by (simp_all add: one_line_def)

lemma hex_digit_byte: "n < 16 \<Longrightarrow> byte (hex_digit n) \<noteq> 10"
  by (simp add: hex_digit_def)

lemma json_byte_line: "byte c < 128 \<Longrightarrow> one_line (json_byte html c)"
  by (simp add: json_byte_def Let_def hex_digit_byte backslash_def)

lemma decode_rune_tail:
  "decode_rune b bs = (r, rest) \<Longrightarrow> \<exists>k. rest = drop k bs \<and> k \<le> length bs \<and> (\<forall>x\<in>set (take k bs). 128 \<le> x)"
proof -
  assume "decode_rune b bs = (r, rest)"
  then consider "rest = bs" | c where "bs = c # rest" "128 \<le> c"
    | c d where "bs = c # d # rest" "128 \<le> c" "128 \<le> d"
    | c d e where "bs = c # d # e # rest" "128 \<le> c" "128 \<le> d" "128 \<le> e"
    by (auto simp: decode_rune_def Let_def cont_def second_lo_def second_hi_def
        split: if_splits list.splits)
  then show ?thesis
  proof cases
    case 1
    then show ?thesis by (intro exI [of _ 0]) simp
  next
    case 2
    then show ?thesis by (intro exI [of _ 1]) simp
  next
    case 3
    then show ?thesis by (intro exI [of _ 2]) (simp add: numeral_eq_Suc)
  next
    case 4
    then show ?thesis by (intro exI [of _ 3]) (simp add: numeral_eq_Suc)
  qed
qed

lemma decode_rune_extra:
  assumes "decode_rune b (map byte cs) = (r, rest)"
  shows "one_line (take (length cs - length rest) cs)"
proof -
  from decode_rune_tail [OF assms] obtain k where
    k: "rest = drop k (map byte cs)" "k \<le> length cs" "\<forall>x\<in>set (take k (map byte cs)). 128 \<le> x" by auto
  then have "length cs - length rest = k" by simp
  with k(3) show ?thesis
    by (force simp: one_line_def list_all_iff take_map)
qed

lemma json_chars_line [simp]: "one_line (json_chars html s)"
proof (induction html s rule: json_chars.induct)
  case (2 html c cs)
  show ?case
  proof (cases "byte c < 128")
    case True
    with 2(1) show ?thesis by (simp add: json_chars.simps(2) json_byte_line)
  next
    case False
    obtain r rest where d: "decode_rune (byte c) (map byte cs) = (r, rest)"
      by (cases "decode_rune (byte c) (map byte cs)")
    from 2(2) [OF False d [symmetric] refl] have "one_line (json_chars html (drop (length cs - length rest) cs))"
      by simp
    with False decode_rune_extra [OF d] show ?thesis
      by (simp add: json_chars.simps(2) d Let_def backslash_def hex_digit_byte)
  qed
qed simp

lemma json_string_line [simp]: "one_line (json_string html s)"
  by (simp add: json_string_def quote_def)

lemma nat_str_line [simp]: "one_line (nat_str n)"
  using nat_str_digits [of n] by (auto simp: one_line_def list_all_iff is_digit_def)

lemma json_int_line [simp]: "one_line (json_int i)"
  by (simp add: json_int_def int_str_def)

lemma join_line: "one_line sep \<Longrightarrow> \<forall>s\<in>set ss. one_line s \<Longrightarrow> one_line (join sep ss)"
  by (induction sep ss rule: join.induct) auto

definition field_line :: "string \<times> string \<Rightarrow> bool" where
  "field_line f = (one_line (fst f) \<and> one_line (snd f))"

lemma json_object_line: "list_all field_line fs \<Longrightarrow> one_line (json_object fs)"
  by (fastforce simp: json_object_def json_field_def quote_def field_line_def list_all_iff intro!: join_line)

lemma omit_empty_line [simp]: "list_all field_line (omit_empty html k v) \<longleftrightarrow> v = [] \<or> one_line k"
  by (simp add: omit_empty_def field_line_def)

end
