(* ===== verification/BoundedLog.thy ===== *)
theory BoundedLog
  imports Prelude
begin

section \<open>Windows of a circular buffer\<close>

text \<open>
  The \<open>n\<close> slots before the write position \<open>h\<close>, oldest first, as the loops that read a circular
  buffer visit them.
\<close>

definition circ_window :: "'a list \<Rightarrow> nat \<Rightarrow> nat \<Rightarrow> 'a list" where
  "circ_window xs h n =
     (let start = (h + length xs - n) mod length xs in
      map (\<lambda>i. xs ! ((start + i) mod length xs)) [0..<n])"

lemma length_circ_window [simp]: "length (circ_window xs h n) = n"
  by (simp add: circ_window_def Let_def)

lemma nth_circ_window:
  "n \<le> length xs \<Longrightarrow> i < n \<Longrightarrow> circ_window xs h n ! i = xs ! ((h + length xs - n + i) mod length xs)"
  by (simp add: circ_window_def Let_def mod_add_left_eq)

lemma mod_step:
  assumes "h < (s::nat)" and "n \<le> s" and "i < n"
  shows "((h + 1) mod s + s - n + i) mod s = (h + 1 + s - n + i) mod s"
proof -
  have "(h + 1) mod s + s - n + i = (h + 1) mod s + (s - n + i)" using assms by simp
  then have "((h + 1) mod s + s - n + i) mod s = (h + 1 + (s - n + i)) mod s"
    by (simp only: mod_add_left_eq)
  moreover have "h + 1 + (s - n + i) = h + 1 + s - n + i" using assms by simp
  ultimately show ?thesis by (simp only:)
qed

lemma mod_shift: "h < (s::nat) \<Longrightarrow> 0 < k \<Longrightarrow> k < s \<Longrightarrow> (h + k) mod s \<noteq> h"
proof (cases "h + k < s")
  case False
  assume "h < s" "0 < k" "k < s"
  with False have "(h + k) mod s = h + k - s" by (simp add: le_mod_geq)
  with \<open>k < s\<close> False show ?thesis by linarith
qed simp

text \<open>A shorter window is the end of a longer one.\<close>

lemma circ_window_suffix:
  assumes "n \<le> m" and "m \<le> length xs"
  shows "circ_window xs h n = lastn n (circ_window xs h m)"
proof (rule nth_equalityI)
  show "length (circ_window xs h n) = length (lastn n (circ_window xs h m))" using assms by simp
  fix i assume "i < length (circ_window xs h n)"
  then have i: "i < n" by simp
  have "lastn n (circ_window xs h m) ! i = circ_window xs h m ! (m - n + i)"
    using i assms by (simp add: nth_lastn)
  also have "\<dots> = xs ! ((h + length xs - m + (m - n + i)) mod length xs)"
    using i assms by (intro nth_circ_window) auto
  also have "h + length xs - m + (m - n + i) = h + length xs - n + i"
    using assms by simp
  finally show "circ_window xs h n ! i = lastn n (circ_window xs h m) ! i"
    using i assms by (simp add: nth_circ_window)
qed

text \<open>After a write the last element of a window one longer is the new one, the others are the old window.\<close>

lemma circ_window_push:
  assumes h: "h < length xs" and n: "Suc n \<le> length xs"
  shows "circ_window (xs[h := x]) ((h + 1) mod length xs) (Suc n) = circ_window xs h n @ [x]"
proof (rule nth_equalityI)
  show "length (circ_window (xs[h := x]) ((h + 1) mod length xs) (Suc n)) = length (circ_window xs h n @ [x])"
    by simp
  fix i assume "i < length (circ_window (xs[h := x]) ((h + 1) mod length xs) (Suc n))"
  then have i: "i \<le> n" by simp
  let ?s = "length xs"
  have "circ_window (xs[h := x]) ((h + 1) mod ?s) (Suc n) ! i
      = xs[h := x] ! (((h + 1) mod ?s + ?s - Suc n + i) mod ?s)"
    using nth_circ_window [of "Suc n" "xs[h := x]" i] n i by simp
  also have "((h + 1) mod ?s + ?s - Suc n + i) mod ?s = (h + ?s - n + i) mod ?s"
    using mod_step [of h ?s "Suc n" i] h n i by simp
  finally have l: "circ_window (xs[h := x]) ((h + 1) mod ?s) (Suc n) ! i = xs[h := x] ! ((h + ?s - n + i) mod ?s)" .
  show "circ_window (xs[h := x]) ((h + 1) mod ?s) (Suc n) ! i = (circ_window xs h n @ [x]) ! i"
  proof (cases "i = n")
    case True
    have "(h + ?s - n + n) mod ?s = h" using h n by simp
    with l True h show ?thesis by (simp add: nth_append)
  next
    case False
    with i have lt: "i < n" by simp
    have "h + ?s - n + i = h + (?s - n + i)" using n by simp
    then have "(h + ?s - n + i) mod ?s \<noteq> h"
      using mod_shift [of h ?s "?s - n + i"] h n lt by simp
    with l lt h nth_circ_window [of n xs i] n show ?thesis by (simp add: nth_append)
  qed
qed

lemma circ_window_push_full:
  assumes "h < length xs"
  shows "circ_window (xs[h := x]) ((h + 1) mod length xs) (length xs)
    = lastn (length xs) (circ_window xs h (length xs) @ [x])"
proof -
  obtain n where n: "length xs = Suc n" using assms by (cases "length xs") auto
  with circ_window_push [OF assms, of n x] circ_window_suffix [of n "Suc n" xs h] show ?thesis
    by (simp add: lastn_snoc)
qed

section \<open>The contract\<close>

text \<open>
  The contract of a bounded memory of the most recent entries: pushing keeps the last \<open>cap\<close> of them.
  The audit ring and the ring of lines of the admin plane provide it; its clients need only that after any pushes the contents are
  the last entries.
\<close>

locale bounded_log =
  fixes push :: "'e \<Rightarrow> 'q \<Rightarrow> 'q"
    and contents :: "'q \<Rightarrow> 'e list"
    and cap :: "'q \<Rightarrow> nat"
    and wf :: "'q \<Rightarrow> bool"
  assumes wf_push: "wf q \<Longrightarrow> wf (push e q)"
    and cap_push: "wf q \<Longrightarrow> cap (push e q) = cap q"
    and contents_push: "wf q \<Longrightarrow> contents (push e q) = lastn (cap q) (contents q @ [e])"
    and cap_pos: "wf q \<Longrightarrow> 0 < cap q"
    and contents_bound: "wf q \<Longrightarrow> length (contents q) \<le> cap q"
begin

lemma lastn_lastn_snoc: "0 < n \<Longrightarrow> lastn n (lastn n xs @ [x]) = lastn n (xs @ [x])"
  by (cases "length xs \<le> n") (simp_all add: lastn_def Suc_diff_le)

lemma pushes:
  assumes "wf q"
  shows "wf (fold push es q)" and "cap (fold push es q) = cap q"
    and "contents (fold push es q) = lastn (cap q) (contents q @ es)"
proof -
  have "wf (fold push es q) \<and> cap (fold push es q) = cap q
      \<and> contents (fold push es q) = lastn (cap q) (contents q @ es)"
  proof (induction es rule: rev_induct)
    case Nil
    with assms show ?case by (simp add: lastn_all contents_bound)
  next
    case (snoc e es)
    then show ?case
      using lastn_lastn_snoc [OF cap_pos [OF assms], of "contents q @ es" e]
      by (simp add: wf_push cap_push contents_push)
  qed
  then show "wf (fold push es q)" "cap (fold push es q) = cap q"
    "contents (fold push es q) = lastn (cap q) (contents q @ es)" by simp_all
qed

lemma pushes_keep_last:
  assumes "wf q" and "n \<le> cap q" and "n \<le> length es"
  shows "lastn n (contents (fold push es q)) = lastn n es"
  using assms(2,3) by (simp add: pushes(3) [OF assms(1)] lastn_def drop_drop)

end

end
