(* ===== verification/AuditLog.thy ===== *)
theory AuditLog
  imports Json FileSystem BoundedLog
begin

text \<open>
  The audit log, \<open>internal/audit/audit.go\<close>: JSON lines appended to a file, the most recent records kept
  in a ring, and live subscribers that may lag. Two things of the standard library are parameters:
  how an instant is written by \<open>time.Time.MarshalJSON\<close> (\<open>None\<close> for a year it refuses) and by
  \<open>Format("20060102T150405Z")\<close>.

  The writer's handle follows the file, not the name: when \<open>logrotate\<close> renames the file, records go
  to the renamed file until \<open>Reopen\<close>. The handle is therefore the name its file has now.
\<close>

section \<open>Records and the ring\<close>

datatype outcome = OutcomeForward | OutcomeReject | OutcomeUpstreamErr

fun outcome_text :: "outcome \<Rightarrow> string" where
  "outcome_text OutcomeForward = ''forward''"
| "outcome_text OutcomeReject = ''reject''"
| "outcome_text OutcomeUpstreamErr = ''upstream_err''"

record log_record =
  lr_time :: gotime
  lr_outcome :: outcome
  lr_serial :: string
  lr_broker :: string
  lr_method :: string
  lr_path :: string
  lr_status :: int
  lr_latency :: int
  lr_idem :: string
  lr_bundle_version :: string
  lr_reason :: string

definition blank_record :: log_record where
  "blank_record = \<lparr>lr_time = 0, lr_outcome = OutcomeForward, lr_serial = [], lr_broker = [], lr_method = [],
     lr_path = [], lr_status = 0, lr_latency = 0, lr_idem = [], lr_bundle_version = [], lr_reason = []\<rparr>"

record ring =
  ring_size :: nat
  slots :: "log_record list"
  head_ix :: nat
  ring_full :: bool

definition new_ring :: "nat \<Rightarrow> ring" where
  "new_ring n = \<lparr>ring_size = n, slots = replicate n blank_record, head_ix = 0, ring_full = False\<rparr>"

definition ring_push :: "log_record \<Rightarrow> ring \<Rightarrow> ring" where
  "ring_push r q =
     (let h = (head_ix q + 1) mod ring_size q in
      q\<lparr>slots := (slots q)[head_ix q := r], head_ix := h, ring_full := ring_full q \<or> h = 0\<rparr>)"

definition ring_have :: "ring \<Rightarrow> nat" where
  "ring_have q = (if ring_full q then ring_size q else head_ix q)"

text \<open>The last \<open>n\<close> slots before the head, oldest first: the loop of \<open>Recent\<close> and of \<open>Subscribe\<close>.\<close>

definition ring_window :: "nat \<Rightarrow> ring \<Rightarrow> log_record list" where
  "ring_window n q =
     (let start = (head_ix q + ring_size q - n) mod ring_size q in
      map (\<lambda>i. slots q ! ((start + i) mod ring_size q)) [0..<n])"

definition ring_recent :: "int \<Rightarrow> ring \<Rightarrow> log_record list" where
  "ring_recent n q =
     (let m = (if n > int (ring_have q) then int (ring_have q) else n) in
      if m \<le> 0 then [] else ring_window (nat m) q)"

definition ring_backlog :: "gotime \<Rightarrow> ring \<Rightarrow> log_record list" where
  "ring_backlog after q =
     (if ring_have q > 0
      then filter (\<lambda>r. \<not> (after \<noteq> 0 \<and> \<not> lr_time r > after)) (ring_window (ring_have q) q)
      else [])"

section \<open>The ring keeps the last records\<close>

definition ring_wf :: "ring \<Rightarrow> bool" where
  "ring_wf q = (0 < ring_size q \<and> length (slots q) = ring_size q \<and> head_ix q < ring_size q)"

definition ring_contents :: "ring \<Rightarrow> log_record list" where
  "ring_contents q = ring_window (ring_have q) q"

lemma ring_have_le: "ring_wf q \<Longrightarrow> ring_have q \<le> ring_size q"
  by (simp add: ring_wf_def ring_have_def)

lemma new_ring_wf: "0 < n \<Longrightarrow> ring_wf (new_ring n)"
  by (simp add: ring_wf_def new_ring_def)

lemma ring_push_wf: "ring_wf q \<Longrightarrow> ring_wf (ring_push r q)"
  by (simp add: ring_wf_def ring_push_def Let_def)

lemma ring_window_circ: "ring_wf q \<Longrightarrow> ring_window n q = circ_window (slots q) (head_ix q) n"
  by (simp add: ring_window_def circ_window_def ring_wf_def)

lemma length_ring_window [simp]: "length (ring_window n q) = n"
  by (simp add: ring_window_def Let_def)

lemma ring_window_suffix:
  "ring_wf q \<Longrightarrow> n \<le> ring_have q \<Longrightarrow> ring_window n q = lastn n (ring_contents q)"
  using ring_have_le [of q] circ_window_suffix [of n "ring_have q" "slots q"]
  by (simp add: ring_window_circ ring_contents_def) (simp add: ring_wf_def)

lemma ring_push_have:
  assumes "ring_wf q"
  shows "ring_have (ring_push r q) = min (ring_size q) (Suc (ring_have q))"
proof (cases "Suc (head_ix q) = ring_size q")
  case True
  with assms show ?thesis by (auto simp: ring_push_def ring_have_def Let_def)
next
  case False
  with assms have "Suc (head_ix q) < ring_size q" by (simp add: ring_wf_def)
  then show ?thesis by (auto simp: ring_push_def ring_have_def Let_def)
qed

lemma ring_push_contents:
  assumes wf: "ring_wf q"
  shows "ring_contents (ring_push r q) = lastn (ring_size q) (ring_contents q @ [r])"
proof -
  have push: "ring_contents (ring_push r q) =
      circ_window ((slots q)[head_ix q := r]) ((head_ix q + 1) mod length (slots q)) (ring_have (ring_push r q))"
    using wf ring_push_wf [OF wf, of r] by (simp add: ring_contents_def ring_window_circ) (simp add: ring_push_def ring_wf_def Let_def)
  have q: "head_ix q < length (slots q)" "ring_size q = length (slots q)"
    "ring_contents q = circ_window (slots q) (head_ix q) (ring_have q)"
    using wf by (simp_all add: ring_contents_def ring_window_circ) (simp_all add: ring_wf_def)
  show ?thesis
  proof (cases "ring_have q < ring_size q")
    case True
    with q push ring_push_have [OF wf, of r] circ_window_push [OF q(1), of "ring_have q" r] show ?thesis
      by (simp add: lastn_all)
  next
    case False
    then have "ring_have q = ring_size q" using ring_have_le [OF wf] by simp
    with q push ring_push_have [OF wf, of r] circ_window_push_full [OF q(1), of r] show ?thesis by simp
  qed
qed

interpretation audit_ring: bounded_log ring_push ring_contents ring_size ring_wf
proof (unfold_locales, goal_cases)
  case (2 q e)
  show ?case by (simp add: ring_push_def Let_def)
next
  case (5 q)
  then show ?case using ring_have_le by (simp add: ring_contents_def)
qed (auto simp: ring_push_wf ring_push_contents, simp add: ring_wf_def)

lemma ring_recent_contents:
  assumes "ring_wf q"
  shows "ring_recent n q = lastn (nat n) (ring_contents q)"
proof -
  have "lastn (nat n) (ring_contents q) = lastn (min (nat n) (ring_have q)) (ring_contents q)"
    by (cases "nat n \<le> ring_have q") (simp_all add: lastn_def ring_contents_def min_def)
  also have "\<dots> = ring_window (min (nat n) (ring_have q)) q"
    by (rule ring_window_suffix [OF assms, symmetric]) simp
  also have "\<dots> = ring_recent n q"
  proof (cases "0 < n \<and> 0 < ring_have q")
    case True
    then show ?thesis
      by (cases "n > int (ring_have q)") (simp_all add: ring_recent_def Let_def min_def nat_le_iff)
  next
    case False
    then have "min (nat n) (ring_have q) = 0" by auto
    moreover have "ring_recent n q = []" using False by (auto simp: ring_recent_def Let_def)
    ultimately show ?thesis by (simp add: ring_window_def)
  qed
  finally show ?thesis by simp
qed

lemma ring_backlog_contents:
  "ring_backlog after q = filter (\<lambda>r. after = 0 \<or> after < lr_time r) (ring_contents q)"
  by (auto simp: ring_backlog_def ring_contents_def ring_window_def Let_def intro: filter_cong)

section \<open>The writer\<close>

text \<open>
  A subscription: the buffered channel with its capacity, and the drop count. \<open>aw_file\<close> is the name
  the open file has now, \<open>None\<close> when there is no handle; \<open>aw_enc_err\<close> is the error
  \<open>json.Encoder\<close> remembers from a failed write and returns from every later \<open>Encode\<close>.
\<close>

record subscription =
  sub_id :: nat
  sub_cap :: nat
  sub_buf :: "log_record list"
  dropped :: int

record audit_writer =
  aw_path :: path
  aw_ring :: ring
  aw_file :: "path option"
  aw_enc_err :: "os_err option"
  aw_subs :: "subscription list"
  aw_next_sub :: nat

datatype audit_err = PathNeeded | OpenErr os_err | WriterClosed | WriteErr os_err | MarshalErr
  | CloseErr os_err | RenameErr os_err | RenameReopenErr os_err os_err | ReopenErr os_err

text \<open>\<open>os.OpenFile\<close> with append, create and write-only, mode 0640: an existing file is kept.\<close>

definition os_open_append :: "path \<Rightarrow> world \<Rightarrow> (os_err + unit) \<times> world" where
  "os_open_append p w = (case draw w of (f, w') \<Rightarrow>
     if f then (Inl Failure, w')
     else case files w' p of
       None \<Rightarrow> (Inr (), publish ((files w')(p \<mapsto> \<lparr>content = [], mode = 416\<rparr>)) w')
     | Some _ \<Rightarrow> (Inr (), w'))"

definition open_file :: "audit_writer \<Rightarrow> world \<Rightarrow> (audit_err + unit) \<times> audit_writer \<times> world" where
  "open_file a w = (case os_open_append (aw_path a) w of
       (Inl e, w') \<Rightarrow> (Inl (OpenErr e), a, w')
     | (Inr _, w') \<Rightarrow> (Inr (), a\<lparr>aw_file := Some (aw_path a), aw_enc_err := None\<rparr>, w'))"

definition audit_Open :: "path \<Rightarrow> int \<Rightarrow> world \<Rightarrow> (audit_err + audit_writer) \<times> world" where
  "audit_Open p ringSize w =
     (if p = [] then (Inl PathNeeded, w)
      else (let n = (if ringSize \<le> 0 then 256 else nat ringSize) in
        case open_file \<lparr>aw_path = p, aw_ring = new_ring n, aw_file = None, aw_enc_err = None,
                        aw_subs = [], aw_next_sub = 0\<rparr> w of
          (Inl e, _, w') \<Rightarrow> (Inl e, w')
        | (Inr _, a, w') \<Rightarrow> (Inr a, w')))"

text \<open>
  One record as the JSON encoder writes it, with or without its HTML escaping; \<open>Encode\<close> is called with
  \<open>SetEscapeHTML(false)\<close>.
\<close>

definition record_json :: "bool \<Rightarrow> (gotime \<Rightarrow> string option) \<Rightarrow> log_record \<Rightarrow> string option" where
  "record_json html time_json r = map_option (\<lambda>t. json_object
      ([(''time'', t), (''outcome'', json_string html (outcome_text (lr_outcome r)))]
       @ omit_empty html ''cert_serial'' (lr_serial r) @ omit_empty html ''broker_id'' (lr_broker r)
       @ [(''method'', json_string html (lr_method r)), (''path'', json_string html (lr_path r)),
          (''status'', json_int (lr_status r)), (''latency_ms'', json_int (lr_latency r))]
       @ omit_empty html ''idempotency_key'' (lr_idem r)
       @ omit_empty html ''bundle_version'' (lr_bundle_version r)
       @ omit_empty html ''reason'' (lr_reason r))) (time_json (lr_time r))"

definition json_record :: "(gotime \<Rightarrow> string option) \<Rightarrow> log_record \<Rightarrow> string option" where
  "json_record time_json r = record_json False time_json r"

definition newline :: char where "newline = char_of (10 :: nat)"

definition encode_record ::
    "(gotime \<Rightarrow> string option) \<Rightarrow> log_record \<Rightarrow> audit_writer \<Rightarrow> path \<Rightarrow> world
       \<Rightarrow> (audit_err + unit) \<times> audit_writer \<times> world" where
  "encode_record time_json r a f w =
     (case aw_enc_err a of
        Some e \<Rightarrow> (Inl (WriteErr e), a, w)
      | None \<Rightarrow> (case json_record time_json r of
          None \<Rightarrow> (Inl MarshalErr, a, w)
        | Some line \<Rightarrow> (case file_write f (line @ [newline]) w of
            (Inl e, w') \<Rightarrow> (Inl (WriteErr e), a\<lparr>aw_enc_err := Some e\<rparr>, w')
          | (Inr _, w') \<Rightarrow> (Inr (), a, w'))))"

text \<open>The non-blocking send to one subscriber.\<close>

definition offer :: "log_record \<Rightarrow> subscription \<Rightarrow> subscription" where
  "offer r sb = (if length (sub_buf sb) < sub_cap sb then sb\<lparr>sub_buf := sub_buf sb @ [r]\<rparr>
                 else sb\<lparr>dropped := dropped sb + 1\<rparr>)"

definition audit_Log ::
    "(gotime \<Rightarrow> string option) \<Rightarrow> gotime \<Rightarrow> log_record \<Rightarrow> audit_writer \<Rightarrow> world
       \<Rightarrow> (audit_err + unit) \<times> audit_writer \<times> world" where
  "audit_Log time_json now r0 a w =
     (let r = (if lr_time r0 = 0 then r0\<lparr>lr_time := now\<rparr> else r0) in
      case aw_file a of
        None \<Rightarrow> (Inl WriterClosed, a, w)
      | Some f \<Rightarrow> (case encode_record time_json r a f w of
          (Inl e, a', w') \<Rightarrow> (Inl e, a', w')
        | (Inr _, a', w') \<Rightarrow>
            (Inr (), a'\<lparr>aw_ring := ring_push r (aw_ring a'), aw_subs := map (offer r) (aw_subs a')\<rparr>, w')))"

section \<open>Subscribers and readers\<close>

definition audit_Subscribe :: "int \<Rightarrow> gotime \<Rightarrow> audit_writer \<Rightarrow> (nat \<times> log_record list) \<times> audit_writer" where
  "audit_Subscribe bufSize after a =
     (let cap = (if bufSize \<le> 0 then ring_size (aw_ring a) else nat bufSize);
          sb = \<lparr>sub_id = aw_next_sub a, sub_cap = cap, sub_buf = [], dropped = 0\<rparr> in
      ((aw_next_sub a, ring_backlog after (aw_ring a)),
       a\<lparr>aw_subs := aw_subs a @ [sb], aw_next_sub := Suc (aw_next_sub a)\<rparr>))"

text \<open>The reader's side of a subscription: a receive from the channel, \<open>DroppedAndReset\<close>, \<open>Close\<close>.\<close>

definition with_sub :: "nat \<Rightarrow> (subscription \<Rightarrow> subscription) \<Rightarrow> audit_writer \<Rightarrow> audit_writer" where
  "with_sub i g a = a\<lparr>aw_subs := map (\<lambda>sb. if sub_id sb = i then g sb else sb) (aw_subs a)\<rparr>"

definition find_sub :: "nat \<Rightarrow> audit_writer \<Rightarrow> subscription option" where
  "find_sub i a = find (\<lambda>sb. sub_id sb = i) (aw_subs a)"

definition sub_receive :: "nat \<Rightarrow> audit_writer \<Rightarrow> log_record option \<times> audit_writer" where
  "sub_receive i a = (case find_sub i a of
       None \<Rightarrow> (None, a)
     | Some sb \<Rightarrow> (case sub_buf sb of [] \<Rightarrow> (None, a)
                  | r # rs \<Rightarrow> (Some r, with_sub i (\<lambda>sb. sb\<lparr>sub_buf := rs\<rparr>) a)))"

definition dropped_and_reset :: "nat \<Rightarrow> audit_writer \<Rightarrow> int \<times> audit_writer" where
  "dropped_and_reset i a = (case find_sub i a of
       None \<Rightarrow> (0, a)
     | Some sb \<Rightarrow> (dropped sb, with_sub i (\<lambda>sb. sb\<lparr>dropped := 0\<rparr>) a))"

fun remove_sub :: "nat \<Rightarrow> subscription list \<Rightarrow> subscription list" where
  "remove_sub i [] = []"
| "remove_sub i (sb # sbs) = (if sub_id sb = i then sbs else sb # remove_sub i sbs)"

definition sub_close :: "nat \<Rightarrow> audit_writer \<Rightarrow> audit_writer" where
  "sub_close i a = a\<lparr>aw_subs := remove_sub i (aw_subs a)\<rparr>"

definition audit_Recent :: "int \<Rightarrow> audit_writer \<Rightarrow> log_record list" where
  "audit_Recent n a = ring_recent n (aw_ring a)"

definition audit_Stat :: "audit_writer \<Rightarrow> world \<Rightarrow> (os_err + nat) \<times> world" where
  "audit_Stat a w = (case os_stat (aw_path a) w of
       (Inl e, w') \<Rightarrow> (Inl e, w')
     | (Inr _, w') \<Rightarrow> (Inr (length (content (the (files w' (aw_path a))))), w'))"

section \<open>Rotation\<close>

text \<open>
  \<open>stamp\<close> writes an instant as \<open>Rotate\<close> does, to the second. A handle whose \<open>Close\<close> failed is closed
  all the same; if reopening fails as well the writer keeps it, and writing to it fails from then on.
\<close>

definition audit_Rotate ::
    "(gotime \<Rightarrow> string) \<Rightarrow> gotime \<Rightarrow> audit_writer \<Rightarrow> world \<Rightarrow> path \<times> (audit_err + unit) \<times> audit_writer \<times> world" where
  "audit_Rotate stamp now a w =
     (if aw_file a = None then ([], Inl WriterClosed, a, w)
      else (case file_close w of
        (Inl e, w1) \<Rightarrow> (case open_file a w1 of
            (Inl _, a2, w2) \<Rightarrow> ([], Inl (CloseErr e), a2\<lparr>aw_enc_err := Some Failure\<rparr>, w2)
          | (Inr _, a2, w2) \<Rightarrow> ([], Inl (CloseErr e), a2, w2))
      | (Inr _, w1) \<Rightarrow>
          (let a1 = a\<lparr>aw_file := None, aw_enc_err := None\<rparr>; rotated = aw_path a @ ''.'' @ stamp now in
           case os_rename (aw_path a) rotated w1 of
             (Inl e, w2) \<Rightarrow> (case open_file a1 w2 of
                 (Inl (OpenErr e'), a3, w3) \<Rightarrow> ([], Inl (RenameReopenErr e e'), a3, w3)
               | (_, a3, w3) \<Rightarrow> ([], Inl (RenameErr e), a3, w3))
           | (Inr _, w2) \<Rightarrow> (case open_file a1 w2 of
                 (Inl (OpenErr e), a3, w3) \<Rightarrow> (rotated, Inl (ReopenErr e), a3, w3)
               | (_, a3, w3) \<Rightarrow> (rotated, Inr (), a3, w3)))))"

definition audit_Reopen :: "audit_writer \<Rightarrow> world \<Rightarrow> (audit_err + unit) \<times> audit_writer \<times> world" where
  "audit_Reopen a w =
     (if aw_file a \<noteq> None
      then open_file (a\<lparr>aw_file := None, aw_enc_err := None\<rparr>) (snd (file_close w))
      else open_file a w)"

definition audit_Close :: "audit_writer \<Rightarrow> world \<Rightarrow> (audit_err + unit) \<times> audit_writer \<times> world" where
  "audit_Close a w =
     (if aw_file a = None then (Inr (), a, w)
      else (case file_close w of (r, w') \<Rightarrow>
        (wrap_err CloseErr r, a\<lparr>aw_file := None, aw_enc_err := None\<rparr>, w')))"

text \<open>\<open>logrotate(8)\<close> renaming the log away: the handle goes with the file.\<close>

definition logrotate :: "path \<Rightarrow> audit_writer \<Rightarrow> world \<Rightarrow> audit_writer \<times> world" where
  "logrotate q a w = (case os_rename (aw_path a) q w of
       (Inl e, w') \<Rightarrow> (a, w')
     | (Inr _, w') \<Rightarrow> (if aw_file a = Some (aw_path a) then a\<lparr>aw_file := Some q\<rparr> else a, w'))"

end
