(* ===== verification/AuditFacts.thy ===== *)
theory AuditFacts
  imports AuditLog
begin

text \<open>
  The properties of the audit log: what a sequence of records leaves in the file, in the ring and at
  the subscribers, what a failing write does, and what rotation keeps.
\<close>

section \<open>Sequences of records\<close>

definition stamped :: "gotime \<times> log_record \<Rightarrow> log_record" where
  "stamped x = (if lr_time (snd x) = 0 then (snd x)\<lparr>lr_time := fst x\<rparr> else snd x)"

fun log_all ::
    "(gotime \<Rightarrow> string option) \<Rightarrow> (gotime \<times> log_record) list \<Rightarrow> audit_writer \<Rightarrow> world
       \<Rightarrow> (audit_err + unit) \<times> audit_writer \<times> world" where
  "log_all tj [] a w = (Inr (), a, w)"
| "log_all tj (x # xs) a w =
     (case audit_Log tj (fst x) (snd x) a w of
        (Inl e, a', w') \<Rightarrow> (Inl e, a', w')
      | (Inr _, a', w') \<Rightarrow> log_all tj xs a' w')"

lemma file_write_append:
  "file_write f d w = (Inr u, w') \<Longrightarrow>
     content_of w' f = map_option (\<lambda>c. c @ d) (content_of w f) \<and> (\<forall>q. q \<noteq> f \<longrightarrow> files w' q = files w q)"
  by (cases w rule: draw_cases) (auto simp: file_write_def content_of_def split: option.splits)

lemma audit_Log_ok:
  assumes "audit_Log tj now r a w = (Inr u, a', w')"
  obtains f line where "aw_file a = Some f" "json_record tj (stamped (now, r)) = Some line"
    "file_write f (line @ [newline]) w = (Inr (), w')"
    "a' = a\<lparr>aw_ring := ring_push (stamped (now, r)) (aw_ring a),
            aw_subs := map (offer (stamped (now, r))) (aw_subs a)\<rparr>"
proof -
  have s: "(if lr_time r = 0 then r\<lparr>lr_time := now\<rparr> else r) = stamped (now, r)"
    by (simp add: stamped_def)
  from assms [unfolded audit_Log_def Let_def s] show ?thesis
    by (auto simp: encode_record_def split: option.splits prod.splits sum.splits intro: that)
qed

text \<open>What a sequence of successful calls does to every part of the writer.\<close>

lemma log_all_ok:
  assumes "log_all tj xs a w = (Inr u, a', w')"
  shows "aw_ring a' = fold ring_push (map stamped xs) (aw_ring a)
    \<and> aw_subs a' = map (fold offer (map stamped xs)) (aw_subs a)
    \<and> aw_file a' = aw_file a \<and> aw_path a' = aw_path a \<and> aw_next_sub a' = aw_next_sub a
    \<and> (\<forall>f. aw_file a = Some f \<longrightarrow>
         content_of w' f = map_option (\<lambda>c. c @ concat (map (\<lambda>x. the (json_record tj (stamped x)) @ [newline]) xs))
                             (content_of w f))
    \<and> (\<forall>x\<in>set xs. \<exists>line. json_record tj (stamped x) = Some line)"
  using assms
proof (induction xs arbitrary: a w)
  case Nil
  then show ?case by (simp add: option.map_ident)
next
  case (Cons x xs)
  from Cons.prems obtain u1 a1 w1 where l: "audit_Log tj (fst x) (snd x) a w = (Inr u1, a1, w1)"
    and rest: "log_all tj xs a1 w1 = (Inr u, a', w')"
    by (auto split: prod.splits sum.splits)
  from l obtain f line where f: "aw_file a = Some f" "json_record tj (stamped x) = Some line"
      "file_write f (line @ [newline]) w = (Inr (), w1)"
    and a1: "a1 = a\<lparr>aw_ring := ring_push (stamped x) (aw_ring a), aw_subs := map (offer (stamped x)) (aw_subs a)\<rparr>"
    by (auto elim: audit_Log_ok)
  from Cons.IH [OF rest] a1 f file_write_append [OF f(3)] show ?case
    by (simp add: option.map_comp comp_def)
qed

lemma offers:
  "sub_buf (fold offer rs sb) = sub_buf sb @ take (sub_cap sb - length (sub_buf sb)) rs
   \<and> sub_cap (fold offer rs sb) = sub_cap sb \<and> sub_id (fold offer rs sb) = sub_id sb
   \<and> dropped (fold offer rs sb) = dropped sb + int (length rs - (sub_cap sb - length (sub_buf sb)))"
proof (induction rs arbitrary: sb)
  case (Cons r rs)
  show ?case
  proof (cases "length (sub_buf sb) < sub_cap sb")
    case True
    then obtain k where k: "sub_cap sb - length (sub_buf sb) = Suc k" by (metis Suc_diff_Suc)
    then have "sub_cap sb - Suc (length (sub_buf sb)) = k" by simp
    with Cons [of "offer r sb"] k True show ?thesis by (simp add: offer_def)
  next
    case False
    with Cons [of "offer r sb"] show ?thesis by (simp add: offer_def)
  qed
qed simp

lemma json_record_line:
  assumes "\<And>t s. tj t = Some s \<Longrightarrow> one_line s" and "json_record tj r = Some line"
  shows "one_line line"
proof -
  obtain t where t: "tj (lr_time r) = Some t" using assms(2) by (auto simp: json_record_def record_json_def)
  have "one_line t" by (rule assms(1) [OF t])
  moreover have "line = the (json_record tj r)" using assms(2) by simp
  ultimately show ?thesis
    by (simp add: json_record_def record_json_def t json_object_line field_line_def)
qed

lemma split_lines:
  "\<forall>l\<in>set ls. one_line l \<Longrightarrow> split_on newline (concat (map (\<lambda>l. l @ [newline]) ls)) = ls @ [[]]"
proof (induction ls)
  case Nil
  then show ?case by (simp add: split_on_single)
next
  case (Cons l ls)
  then have "newline \<notin> set l" by (auto simp: one_line_def list_all_iff newline_def)
  with Cons split_on_append [of newline l] show ?case by simp
qed

section \<open>Properties\<close>

text \<open>
  C35: a sequence of successful calls of \<open>Log\<close> appends to the log file exactly one line for each
  record, in order: what was added, split at line breaks, is the list of the encoded records. (A
  marshalled time has no line break.)
\<close>

theorem audit_lines:
  assumes "\<And>t s. tj t = Some s \<Longrightarrow> one_line s"
    and "aw_file a = Some f" and "content_of w f = Some old" and "log_all tj xs a w = (Inr u, a', w')"
  shows "\<exists>new. content_of w' f = Some (old @ new)
      \<and> split_on newline new = map (\<lambda>x. the (json_record tj (stamped x))) xs @ [[]]"
proof -
  let ?ls = "map (\<lambda>x. the (json_record tj (stamped x))) xs"
  from log_all_ok [OF assms(4)] assms(2,3)
  have c: "content_of w' f = Some (old @ concat (map (\<lambda>l. l @ [newline]) ?ls))"
    and ok: "\<forall>x\<in>set xs. \<exists>line. json_record tj (stamped x) = Some line" by (simp_all add: comp_def)
  have "\<forall>l\<in>set ?ls. one_line l"
    using ok json_record_line [OF assms(1)] by fastforce
  with c show ?thesis using split_lines [of ?ls] by blast
qed

text \<open>
  After any successful calls of \<open>Log\<close>, \<open>Recent(n)\<close> answers the last \<open>n\<close> records, oldest first, as
  far as the ring reaches; a negative \<open>n\<close> gives none.
\<close>

theorem audit_recent:
  assumes "ring_wf (aw_ring a)" and "log_all tj xs a w = (Inr u, a', w')"
  shows "ring_wf (aw_ring a')
      \<and> audit_Recent n a' = lastn (nat n) (lastn (ring_size (aw_ring a)) (ring_contents (aw_ring a) @ map stamped xs))"
  using assms(1) log_all_ok [OF assms(2)] audit_ring.pushes [OF assms(1), of "map stamped xs"]
  by (simp add: audit_Recent_def ring_recent_contents)

text \<open>
  A subscriber gets from \<open>Subscribe\<close> the records of the ring that are newer than its instant,
  all of them for the zero instant, and then, when it does not read, every following record until
  its channel is full; the records it misses after that are counted, none is lost silently.
\<close>

theorem audit_subscriber:
  assumes "audit_Subscribe bufSize after a = ((i, backlog), a1)" and "0 < bufSize"
    and "\<forall>sb\<in>set (aw_subs a). sub_id sb < aw_next_sub a" and "log_all tj xs a1 w = (Inr u, a2, w')"
  shows "\<exists>sb. find_sub i a2 = Some sb
      \<and> backlog = filter (\<lambda>r. after = 0 \<or> after < lr_time r) (ring_contents (aw_ring a))
      \<and> sub_buf sb = take (nat bufSize) (map stamped xs)
      \<and> int (length (sub_buf sb)) + dropped sb = int (length xs)"
proof -
  let ?sb = "\<lparr>sub_id = aw_next_sub a, sub_cap = nat bufSize, sub_buf = [], dropped = 0\<rparr>"
  let ?log = "fold offer (map stamped xs)"
  from assms(1,2) have a1: "a1 = a\<lparr>aw_subs := aw_subs a @ [?sb], aw_next_sub := Suc (aw_next_sub a)\<rparr>"
    and i: "i = aw_next_sub a" and b: "backlog = ring_backlog after (aw_ring a)"
    by (auto simp: audit_Subscribe_def Let_def)
  from log_all_ok [OF assms(4)] a1 have subs: "aw_subs a2 = map ?log (aw_subs a @ [?sb])" by simp
  have "find (\<lambda>sb. sub_id sb = aw_next_sub a) (map ?log (aw_subs a)) = None"
    using assms(3) by (auto simp: find_None_iff offers)
  then have "find_sub i a2 = Some (?log ?sb)"
    using subs i by (simp add: find_sub_def find_append_None offers)
  with b offers [of "map stamped xs" ?sb] show ?thesis
    by (auto simp: ring_backlog_contents min_def)
qed

text \<open>
  A failing \<open>Log\<close> leaves the files, the ring and the subscribers as they were. A failed write is
  remembered by the encoder: every later \<open>Log\<close> fails as well, whatever the file system would do,
  until the log is reopened or rotated.
\<close>

theorem audit_failed_log:
  assumes "audit_Log tj now r a w = (Inl e, a', w')"
  shows "files w' = files w \<and> aw_ring a' = aw_ring a \<and> aw_subs a' = aw_subs a
      \<and> (\<forall>os. e = WriteErr os \<longrightarrow> (\<forall>now2 r2 v. audit_Log tj now2 r2 a' v = (Inl (WriteErr os), a', v)))"
proof -
  have w: "file_write f d v = (Inl e, v') \<Longrightarrow> files v' = files v" for f d v e v'
    by (cases v rule: draw_cases) (auto simp: file_write_def split: option.splits)
  show ?thesis
    using assms
    by (auto simp: audit_Log_def encode_record_def Let_def split: option.splits prod.splits sum.splits dest: w)
qed

lemma open_append_effect:
  "os_open_append p w = (Inr u, w') \<Longrightarrow>
     files w' = (if files w p = None then (files w)(p \<mapsto> \<lparr>content = [], mode = 416\<rparr>) else files w)"
  by (cases w rule: draw_cases) (auto simp: os_open_append_def split: option.splits)

lemma open_file_effect:
  "open_file a w = (Inr u, a', w') \<Longrightarrow> a' = a\<lparr>aw_file := Some (aw_path a), aw_enc_err := None\<rparr>
     \<and> files w' = (if files w (aw_path a) = None then (files w)(aw_path a \<mapsto> \<lparr>content = [], mode = 416\<rparr>)
                   else files w)"
  by (auto simp: open_file_def split: prod.splits sum.splits dest: open_append_effect)

lemma open_file_errs: "open_file a w = (Inl e, a', w') \<Longrightarrow> \<exists>os. e = OpenErr os"
  by (auto simp: open_file_def split: prod.splits sum.splits)

lemma audit_Rotate_ok:
  assumes "audit_Rotate stamp now a w = (p, Inr u, a', w')"
  shows "p = aw_path a @ ''.'' @ stamp now \<and> a' = a\<lparr>aw_file := Some (aw_path a), aw_enc_err := None\<rparr>
    \<and> files w (aw_path a) \<noteq> None
    \<and> files w' = (files w)(p := files w (aw_path a), aw_path a \<mapsto> \<lparr>content = [], mode = 416\<rparr>)"
proof -
  let ?p = "aw_path a @ ''.'' @ stamp now" and ?a = "a\<lparr>aw_file := None, aw_enc_err := None\<rparr>"
  from assms obtain w1 w2 u1 u2 where 1: "file_close w = (Inr u1, w1)"
    and 2: "os_rename (aw_path a) ?p w1 = (Inr u2, w2)" and 3: "open_file ?a w2 = (Inr u, a', w')" and p: "p = ?p"
    by (auto simp: audit_Rotate_def Let_def split: prod.splits sum.splits if_splits audit_err.splits
        dest: open_file_errs)
  from os_rename_ok [OF 2] reads_frame(3) [OF 1] obtain fl where
    fl: "files w (aw_path a) = Some fl" "files w2 = (files w)(aw_path a := None, ?p \<mapsto> fl)" by auto
  from open_file_effect [OF 3] fl p show ?thesis by (auto simp: fun_eq_iff)
qed

text \<open>
  A rotation that succeeds leaves the whole log at the rotated name and an open, empty file at
  the log's own name, and changes no other file; when the rename fails and the file can be reopened,
  the files are as before and the writer goes on.
\<close>

theorem audit_rotate:
  assumes "audit_Rotate stamp now a w = (p, r, a', w')" and "files w (aw_path a) \<noteq> None"
  shows "(is_ok r \<longrightarrow> p = aw_path a @ ''.'' @ stamp now
            \<and> files w' = (files w)(p := files w (aw_path a), aw_path a \<mapsto> \<lparr>content = [], mode = 416\<rparr>)
            \<and> aw_file a' = Some (aw_path a) \<and> aw_enc_err a' = None)
      \<and> (\<forall>e. r = Inl (RenameErr e) \<longrightarrow> files w' = files w \<and> aw_file a' = Some (aw_path a) \<and> aw_enc_err a' = None)
      \<and> aw_ring a' = aw_ring a \<and> aw_subs a' = aw_subs a"
proof -
  have ring: "open_file b v = (q, b', v') \<Longrightarrow> aw_ring b' = aw_ring b \<and> aw_subs b' = aw_subs b" for b v q b' v'
    by (auto simp: open_file_def split: prod.splits sum.splits)
  have keep: "aw_ring a' = aw_ring a \<and> aw_subs a' = aw_subs a"
    using assms(1)
    by (auto simp: audit_Rotate_def Let_def split: prod.splits sum.splits if_splits audit_err.splits dest!: ring)
  have "files w' = files w \<and> aw_file a' = Some (aw_path a) \<and> aw_enc_err a' = None" if r: "r = Inl (RenameErr e)" for e
  proof -
    let ?p = "aw_path a @ ''.'' @ stamp now" and ?a = "a\<lparr>aw_file := None, aw_enc_err := None\<rparr>"
    from assms(1) r obtain w1 w2 u1 u2 where 1: "file_close w = (Inr u1, w1)"
      and 2: "os_rename (aw_path a) ?p w1 = (Inl e, w2)" and 3: "open_file ?a w2 = (Inr u2, a', w')"
      by (auto simp: audit_Rotate_def Let_def split: prod.splits sum.splits if_splits audit_err.splits
          dest: open_file_errs)
    from open_file_effect [OF 3] os_rename_err [OF 2] reads_frame(3) [OF 1] assms(2) show ?thesis by simp
  qed
  then show ?thesis
    using keep audit_Rotate_ok [of stamp now a w p _ a' w'] assms(1) by (cases r) auto
qed

text \<open>
  The rotated name has no more than a second in it, so a second rotation that writes the
  same instant replaces what the first one kept: under the rotated name are then only the lines logged
  between the two, and the earlier log is gone.
\<close>

theorem rotate_same_second:
  assumes "audit_Rotate stamp t1 a w = (p, Inr u, a1, w1)" and "log_all tj xs a1 w1 = (Inr u', a2, w2)"
    and "audit_Rotate stamp t2 a2 w2 = (p2, Inr u2, a3, w3)" and "stamp t1 = stamp t2"
  shows "p2 = p \<and> content_of w3 p = Some (concat (map (\<lambda>x. the (json_record tj (stamped x)) @ [newline]) xs))"
proof -
  from audit_Rotate_ok [OF assms(1)] have p: "p = aw_path a @ ''.'' @ stamp t1"
    and a1: "aw_file a1 = Some (aw_path a)" "aw_path a1 = aw_path a"
    and c1: "content_of w1 (aw_path a) = Some []" by (auto simp: content_of_def)
  from log_all_ok [OF assms(2)] a1 c1 have a2: "aw_path a2 = aw_path a"
    and c2: "content_of w2 (aw_path a) = Some (concat (map (\<lambda>x. the (json_record tj (stamped x)) @ [newline]) xs))"
    by simp_all
  from audit_Rotate_ok [OF assms(3)] a2 assms(4) p have "p2 = p" "files w3 p = files w2 (aw_path a)" by auto
  with c2 show ?thesis by (simp add: content_of_def)
qed

section \<open>Witnesses\<close>

definition ex_time_json :: "gotime \<Rightarrow> string option" where
  "ex_time_json t = Some (json_string False (int_str t))"

definition ex_record :: "gotime \<Rightarrow> string \<Rightarrow> log_record" where
  "ex_record t p = blank_record\<lparr>lr_time := t, lr_method := ''GET'', lr_path := p, lr_status := 200\<rparr>"

definition ex_audit_world :: "bool list \<Rightarrow> world" where
  "ex_audit_world fs = \<lparr>files = [''log'' \<mapsto> \<lparr>content = [], mode = 416\<rparr>], faults = fs, tmp_seq = 0, history = []\<rparr>"

definition ex_writer :: audit_writer where
  "ex_writer = \<lparr>aw_path = ''log'', aw_ring = new_ring 2, aw_file = Some ''log'', aw_enc_err = None,
     aw_subs = [], aw_next_sub = 0\<rparr>"

definition ex_records :: "(gotime \<times> log_record) list" where
  "ex_records = [(5, ex_record 0 ''/a''), (6, ex_record 1 ''/b''), (7, ex_record 0 ''/c'')]"

lemma ex_time_line: "ex_time_json t = Some s \<Longrightarrow> one_line s"
  by (auto simp: ex_time_json_def)

lemma ex_log_runs:
  "is_ok (fst (log_all ex_time_json ex_records ex_writer (ex_audit_world [])))" by code_simp

lemma ex_log: "\<exists>a' w'. log_all ex_time_json ex_records ex_writer (ex_audit_world []) = (Inr (), a', w')"
  using is_ok_Inr [OF ex_log_runs] by (metis old.unit.exhaust prod.collapse)

theorem audit_lines_witness:
  "\<exists>a' w' new. log_all ex_time_json ex_records ex_writer (ex_audit_world []) = (Inr (), a', w')
      \<and> content_of w' ''log'' = Some new
      \<and> split_on newline new = map (\<lambda>x. the (json_record ex_time_json (stamped x))) ex_records @ [[]]"
proof -
  obtain a' w' where l: "log_all ex_time_json ex_records ex_writer (ex_audit_world []) = (Inr (), a', w')"
    using ex_log by blast
  have "aw_file ex_writer = Some ''log''" "content_of (ex_audit_world []) ''log'' = Some []"
    by (simp_all add: ex_writer_def ex_audit_world_def content_of_def)
  from audit_lines [OF ex_time_line this l] l show ?thesis by simp
qed

theorem audit_recent_witness:
  "\<exists>a' w'. log_all ex_time_json ex_records ex_writer (ex_audit_world []) = (Inr (), a', w')
      \<and> audit_Recent 9 a' = [ex_record 1 ''/b'', ex_record 7 ''/c'']"
proof -
  obtain a' w' where l: "log_all ex_time_json ex_records ex_writer (ex_audit_world []) = (Inr (), a', w')"
    using ex_log by blast
  have r: "ring_wf (aw_ring ex_writer)" by (simp add: ex_writer_def new_ring_wf)
  show ?thesis
    using audit_recent [OF r l, of 9] l
    by (simp add: ex_writer_def new_ring_def ring_contents_def ring_have_def ring_window_def lastn_def
        ex_records_def stamped_def ex_record_def blank_record_def)
qed

theorem audit_subscriber_witness:
  "\<exists>i b a1 a2 w' sb. audit_Subscribe 2 0 ex_writer = ((i, b), a1)
      \<and> log_all ex_time_json ex_records a1 (ex_audit_world []) = (Inr (), a2, w')
      \<and> find_sub i a2 = Some sb \<and> length (sub_buf sb) = 2 \<and> dropped sb = 1"
proof -
  obtain i b a1 where s: "audit_Subscribe 2 0 ex_writer = ((i, b), a1)"
    by (metis prod.collapse)
  have "is_ok (fst (log_all ex_time_json ex_records (snd (audit_Subscribe 2 0 ex_writer)) (ex_audit_world [])))"
    by code_simp
  with s obtain a2 w' where l: "log_all ex_time_json ex_records a1 (ex_audit_world []) = (Inr (), a2, w')"
    by (auto dest!: is_ok_Inr) (metis old.unit.exhaust prod.collapse)
  have n: "\<forall>sb\<in>set (aw_subs ex_writer). sub_id sb < aw_next_sub ex_writer" by (simp add: ex_writer_def)
  from audit_subscriber [OF s _ n l] obtain sb where
    "find_sub i a2 = Some sb" "sub_buf sb = take 2 (map stamped ex_records)"
    "int (length (sub_buf sb)) + dropped sb = int (length ex_records)" by auto
  with s l show ?thesis by (auto simp: ex_records_def)
qed

theorem audit_failed_log_witness:
  "\<exists>e a' w'. audit_Log ex_time_json 5 (ex_record 0 ''/a'') ex_writer (ex_audit_world [True]) = (Inl (WriteErr e), a', w')
      \<and> audit_Log ex_time_json 6 (ex_record 0 ''/b'') a' (ex_audit_world []) = (Inl (WriteErr e), a', ex_audit_world [])"
proof -
  have "\<exists>a' w'. audit_Log ex_time_json 5 (ex_record 0 ''/a'') ex_writer (ex_audit_world [True])
      = (Inl (WriteErr Failure), a', w')"
    by (simp add: audit_Log_def encode_record_def ex_writer_def ex_audit_world_def json_record_def record_json_def
        ex_time_json_def file_write_def draw_def ex_record_def blank_record_def)
  then obtain a' w' where
    l: "audit_Log ex_time_json 5 (ex_record 0 ''/a'') ex_writer (ex_audit_world [True]) = (Inl (WriteErr Failure), a', w')"
    by blast
  from audit_failed_log [OF l] l show ?thesis by blast
qed

definition ex_stamp :: "gotime \<Rightarrow> string" where "ex_stamp t = int_str (t div 1000)"

lemma ex_rotate_runs:
  "is_ok (fst (snd (audit_Rotate ex_stamp 1500 ex_writer (ex_audit_world []))))"
  by code_simp

theorem audit_rotate_witness:
  "let (p, r, a', w') = audit_Rotate ex_stamp 1500 ex_writer (ex_audit_world [])
   in p = ''log.1'' \<and> content_of w' ''log'' = Some [] \<and> aw_file a' = Some ''log''"
proof -
  obtain p r a' w' where t: "audit_Rotate ex_stamp 1500 ex_writer (ex_audit_world []) = (p, r, a', w')"
    by (metis prod.collapse)
  have "is_ok r" using ex_rotate_runs t by simp
  moreover have "files (ex_audit_world []) (aw_path ex_writer) \<noteq> None"
    by (simp add: ex_audit_world_def ex_writer_def)
  moreover have "ex_stamp 1500 = ''1''" by code_simp
  ultimately show ?thesis
    using audit_rotate [OF t] t by (simp add: ex_writer_def content_of_def)
qed

definition ex_two_rotations :: "(audit_err + unit) \<times> (audit_err + unit) \<times> (audit_err + unit)" where
  "ex_two_rotations =
     (case audit_Rotate ex_stamp 1500 ex_writer (ex_audit_world []) of (p, r1, a1, w1) \<Rightarrow>
      case log_all ex_time_json ex_records a1 w1 of (r2, a2, w2) \<Rightarrow>
      case audit_Rotate ex_stamp 1700 a2 w2 of (q, r3, a3, w3) \<Rightarrow> (r1, r2, r3))"

lemma ex_two_rotations_run: "case ex_two_rotations of (r1, r2, r3) \<Rightarrow> is_ok r1 \<and> is_ok r2 \<and> is_ok r3"
  by code_simp

theorem rotate_same_second_witness:
  "\<exists>p u1 a1 w1 u2 a2 w2 u3 a3 w3. audit_Rotate ex_stamp 1500 ex_writer (ex_audit_world []) = (p, Inr u1, a1, w1)
      \<and> log_all ex_time_json ex_records a1 w1 = (Inr u2, a2, w2)
      \<and> audit_Rotate ex_stamp 1700 a2 w2 = (p, Inr u3, a3, w3)"
proof -
  obtain p r1 a1 w1 where 1: "audit_Rotate ex_stamp 1500 ex_writer (ex_audit_world []) = (p, r1, a1, w1)"
    by (metis prod.collapse)
  obtain r2 a2 w2 where 2: "log_all ex_time_json ex_records a1 w1 = (r2, a2, w2)" by (metis prod.collapse)
  obtain q r3 a3 w3 where 3: "audit_Rotate ex_stamp 1700 a2 w2 = (q, r3, a3, w3)" by (metis prod.collapse)
  from ex_two_rotations_run obtain u1 u2 u3 where u: "r1 = Inr u1" "r2 = Inr u2" "r3 = Inr u3"
    by (auto simp: ex_two_rotations_def 1 2 3 dest!: is_ok_Inr)
  have "ex_stamp 1500 = ex_stamp 1700" by (simp add: ex_stamp_def)
  from rotate_same_second [OF 1 [unfolded u] 2 [unfolded u] 3 [unfolded u] this] 1 2 3 u show ?thesis by blast
qed

end
