(* ===== verification/Metrics.thy ===== *)
theory Metrics
  imports AuditLog "HOL-Library.Word" "HOL-Library.Multiset"
begin

text \<open>
  The runtime counters, \<open>internal/metrics/metrics.go\<close>: 64-bit counters of request outcomes, counters with
  one label, and their rendering in the Prometheus text format. A labelled counter is an association
  list with one entry for each label seen.
\<close>

section \<open>Counters\<close>

type_synonym labeled = "(string \<times> 64 word) list"

fun labeled_inc :: "string \<Rightarrow> labeled \<Rightarrow> labeled" where
  "labeled_inc k [] = [(k, 1)]"
| "labeled_inc k ((j, v) # c) = (if j = k then (j, v + 1) # c else (j, v) # labeled_inc k c)"

definition labeled_snapshot :: "labeled \<Rightarrow> labeled" where
  "labeled_snapshot c = c"

record counters =
  forwards :: "64 word"
  rejects :: "64 word"
  upstream_errors :: "64 word"
  handshake_failures :: labeled
  broker_auth_failures :: labeled

definition new_counters :: counters where
  "new_counters = \<lparr>forwards = 0, rejects = 0, upstream_errors = 0, handshake_failures = [], broker_auth_failures = []\<rparr>"

fun inc_outcome :: "outcome \<Rightarrow> counters \<Rightarrow> counters" where
  "inc_outcome OutcomeForward c = c\<lparr>forwards := forwards c + 1\<rparr>"
| "inc_outcome OutcomeReject c = c\<lparr>rejects := rejects c + 1\<rparr>"
| "inc_outcome OutcomeUpstreamErr c = c\<lparr>upstream_errors := upstream_errors c + 1\<rparr>"

section \<open>Rendering\<close>

definition int64_str :: "64 word \<Rightarrow> string" where "int64_str v = int_str (sint v)"

definition emit :: "string \<Rightarrow> 64 word \<Rightarrow> string" where
  "emit name v = ''# TYPE tesseract_'' @ name @ '' counter'' @ [newline]
     @ ''tesseract_'' @ name @ '' '' @ int64_str v @ [newline]"

definition sample_line :: "string \<Rightarrow> string \<Rightarrow> labeled \<Rightarrow> string \<Rightarrow> string" where
  "sample_line name label vals k =
     ''tesseract_'' @ name @ ''{'' @ label @ ''='' @ go_quote k @ ''} '' @ int64_str (the (map_of vals k)) @ [newline]"

definition emit_labeled :: "string \<Rightarrow> string \<Rightarrow> labeled \<Rightarrow> string" where
  "emit_labeled name label vals =
     ''# TYPE tesseract_'' @ name @ '' counter'' @ [newline]
     @ (if vals = []
        then ''tesseract_'' @ name @ ''{'' @ label @ ''='' @ [quote, quote] @ ''} 0'' @ [newline]
        else concat (map (sample_line name label vals) (sort (map fst vals))))"

definition render :: "counters \<Rightarrow> string" where
  "render c = emit ''forwards_total'' (forwards c) @ emit ''rejects_total'' (rejects c)
     @ emit ''upstream_errors_total'' (upstream_errors c)
     @ emit_labeled ''mtls_handshake_failures_total'' ''reason'' (labeled_snapshot (handshake_failures c))
     @ emit_labeled ''broker_auth_failures_total'' ''broker_id'' (labeled_snapshot (broker_auth_failures c))"

section \<open>Counting events\<close>

datatype metric_event = Outcome outcome | Handshake string | BrokerAuth string

fun metric_step :: "counters \<Rightarrow> metric_event \<Rightarrow> counters" where
  "metric_step c (Outcome o') = inc_outcome o' c"
| "metric_step c (Handshake l) = c\<lparr>handshake_failures := labeled_inc l (handshake_failures c)\<rparr>"
| "metric_step c (BrokerAuth l) = c\<lparr>broker_auth_failures := labeled_inc l (broker_auth_failures c)\<rparr>"

definition metric_run :: "metric_event list \<Rightarrow> counters" where
  "metric_run es = foldl metric_step new_counters es"

lemma labeled_inc_lookup: "map_of (labeled_inc k c) = (map_of c)(k \<mapsto> (case map_of c k of None \<Rightarrow> 1 | Some v \<Rightarrow> v + 1))"
  by (induction k c rule: labeled_inc.induct) (auto simp: fun_eq_iff)

lemma labeled_inc_keys:
  "set (map fst (labeled_inc k c)) = insert k (set (map fst c))"
  "distinct (map fst c) \<Longrightarrow> distinct (map fst (labeled_inc k c))"
proof -
  show keys: "set (map fst (labeled_inc k c)) = insert k (set (map fst c))" for k c
    by (induction k c rule: labeled_inc.induct) auto
  show "distinct (map fst c) \<Longrightarrow> distinct (map fst (labeled_inc k c))"
  proof (induction k c rule: labeled_inc.induct)
    case (2 k j v c)
    then show ?case using keys [of k c] by (auto simp del: set_map)
  qed simp
qed

text \<open>The number of occurrences of an event, as a 64-bit word.\<close>

definition tally :: "'a \<Rightarrow> 'a list \<Rightarrow> 64 word" where "tally x xs = of_nat (count (mset xs) x)"

lemma tally_simps [simp]:
  "tally x [] = 0" "tally x (xs @ [y]) = (if x = y then tally x xs + 1 else tally x xs)"
  by (simp_all add: tally_def)

definition counts_right :: "('l \<Rightarrow> 'e) \<Rightarrow> ('l \<times> 64 word) list \<Rightarrow> 'e list \<Rightarrow> bool" where
  "counts_right mk c es = (distinct (map fst c) \<and> set (map fst c) = {l. mk l \<in> set es}
     \<and> (\<forall>l. mk l \<in> set es \<longrightarrow> map_of c l = Some (tally (mk l) es)))"

lemma counts_right_inc:
  assumes "counts_right mk c es" and "inj mk"
  shows "counts_right mk (labeled_inc l c) (es @ [mk l])"
proof -
  have i: "mk k = mk l \<longleftrightarrow> k = l" for k using assms(2) by (auto dest: injD)
  have none: "map_of c l = None \<longleftrightarrow> mk l \<notin> set es"
    using assms(1) by (auto simp: counts_right_def map_of_eq_None_iff)
  have zero: "tally (mk l) es = 0" if "mk l \<notin> set es"
  proof -
    from that have c: "count (mset es) (mk l) = 0" by (simp add: count_eq_zero_iff)
    show ?thesis unfolding tally_def c by simp
  qed
  show ?thesis
    using assms(1) none zero
    by (auto simp: counts_right_def labeled_inc_keys labeled_inc_lookup i simp del: set_map split: option.splits)
qed

lemma counts_right_other:
  "counts_right mk c es \<Longrightarrow> (\<And>l. mk l \<noteq> e) \<Longrightarrow> counts_right mk c (es @ [e])"
  by (auto simp: counts_right_def)

lemma metric_run_counts:
  "forwards (metric_run es) = tally (Outcome OutcomeForward) es
   \<and> rejects (metric_run es) = tally (Outcome OutcomeReject) es
   \<and> upstream_errors (metric_run es) = tally (Outcome OutcomeUpstreamErr) es
   \<and> counts_right Handshake (handshake_failures (metric_run es)) es
   \<and> counts_right BrokerAuth (broker_auth_failures (metric_run es)) es"
proof (induction es rule: rev_induct)
  case Nil
  show ?case by (simp add: metric_run_def new_counters_def counts_right_def)
next
  case (snoc e es)
  have run: "metric_run (es @ [x]) = metric_step (metric_run es) x" for x by (simp add: metric_run_def)
  show ?case
  proof (cases e)
    case (Outcome o')
    with snoc show ?thesis by (cases o') (auto simp: run intro: counts_right_other)
  next
    case (Handshake l)
    with snoc show ?thesis by (auto simp: run inj_def intro: counts_right_inc counts_right_other)
  next
    case (BrokerAuth l)
    with snoc show ?thesis by (auto simp: run inj_def intro: counts_right_inc counts_right_other)
  qed
qed

lemma counts_right_perm:
  assumes "counts_right mk c es" "counts_right mk c' es'" "mset es = mset es'"
  shows "emit_labeled name label c = emit_labeled name label c'"
proof -
  have s: "set es = set es'" using assms(3) by (metis set_mset_mset)
  have t: "tally x es = tally x es'" for x using assms(3) by (simp add: tally_def)
  have keys: "sort (map fst c) = sort (map fst c')"
    using assms(1,2) s by (intro sorted_distinct_set_unique) (auto simp: counts_right_def simp del: set_map)
  have "sample_line name label c k = sample_line name label c' k" if "k \<in> set (map fst c)" for k
    using that assms(1,2) s t by (auto simp: counts_right_def sample_line_def simp del: set_map)
  moreover have "c = [] \<longleftrightarrow> c' = []" using assms(1,2) s by (auto simp: counts_right_def)
  moreover have "set (sort (map fst c')) = set (map fst c)" by (simp add: keys [symmetric])
  ultimately show ?thesis
    using keys by (auto simp: emit_labeled_def simp del: set_map set_sort intro!: arg_cong [where f = concat] map_cong)
qed

section \<open>Properties\<close>

text \<open>
  C40: after any events every counter is the number of its events, modulo 2 to the 64th, and each
  labelled counter has exactly one entry for each label seen.
\<close>

theorem metrics_count:
  "forwards (metric_run es) = of_nat (count (mset es) (Outcome OutcomeForward))
   \<and> rejects (metric_run es) = of_nat (count (mset es) (Outcome OutcomeReject))
   \<and> upstream_errors (metric_run es) = of_nat (count (mset es) (Outcome OutcomeUpstreamErr))
   \<and> counts_right Handshake (handshake_failures (metric_run es)) es
   \<and> counts_right BrokerAuth (broker_auth_failures (metric_run es)) es"
  using metric_run_counts [of es] by (simp add: tally_def)

text \<open>
  What is rendered depends only on how often each event happened, not on the order in which
  they arrived: two runs with the same events give the same text.
\<close>

theorem metrics_render_stable:
  assumes "mset es = mset es'"
  shows "render (metric_run es) = render (metric_run es')"
proof -
  have "tally x es = tally x es'" for x using assms by (simp add: tally_def)
  then show ?thesis
    using metric_run_counts [of es] metric_run_counts [of es']
      counts_right_perm [OF _ _ assms, of Handshake] counts_right_perm [OF _ _ assms, of BrokerAuth]
    unfolding render_def labeled_snapshot_def by metis
qed

theorem metrics_render_stable_witness:
  "render (metric_run [Handshake ''expired'', Outcome OutcomeForward])
   = render (metric_run [Outcome OutcomeForward, Handshake ''expired''])"
  by (rule metrics_render_stable) (simp add: add_mset_commute)

end
