(* ===== verification/Mtls.thy ===== *)
theory Mtls
  imports Metrics
begin

text \<open>
  Client certificates, \<open>internal/mtls/mtls.go\<close> and \<open>internal/mtls/loghook.go\<close>: the roles, the serial-number
  allowlist with its two independent atomic cells, the check made at the end of a handshake, and the
  classification of handshake errors. Parsing X.509 and the TLS stack are outside: a presented
  certificate is its serial number, and the two parsers used by \<open>BuildServerConfig\<close> are parameters.
\<close>

section \<open>Roles\<close>

datatype role = RoleNone | RoleOrder | RoleAdmin

instantiation role :: linorder
begin

definition role_rank :: "role \<Rightarrow> nat" where
  "role_rank r = (case r of RoleNone \<Rightarrow> 0 | RoleOrder \<Rightarrow> 1 | RoleAdmin \<Rightarrow> 2)"

definition less_eq_role :: "role \<Rightarrow> role \<Rightarrow> bool" where
  "less_eq_role r s = (role_rank r \<le> role_rank s)"

definition less_role :: "role \<Rightarrow> role \<Rightarrow> bool" where
  "less_role r s = (role_rank r < role_rank s)"

instance
  by standard (auto simp: less_eq_role_def less_role_def role_rank_def split: role.splits)

end

lemmas role_order = less_eq_role_def less_role_def role_rank_def

definition role_string :: "role \<Rightarrow> string" where
  "role_string r = (case r of RoleOrder \<Rightarrow> ''order'' | RoleAdmin \<Rightarrow> ''admin'' | RoleNone \<Rightarrow> ''none'')"

definition role_allows :: "role \<Rightarrow> role \<Rightarrow> bool" where
  "role_allows r m = (m \<le> r \<and> r \<noteq> RoleNone)"

section \<open>Serial numbers\<close>

text \<open>
  \<open>big.Int.SetString(s, 0)\<close>: an optional sign, a base prefix (\<open>0b\<close>, \<open>0o\<close>, \<open>0x\<close>, or \<open>0\<close> for
  octal), digits, and underscores that may stand only between digits or after the prefix.
\<close>

datatype scanned = SOther | SDigit | SSep

definition digit_value :: "char \<Rightarrow> nat option" where
  "digit_value c = (if is_digit c then Some (byte c - 48)
     else if is_lower c then Some (byte c - 97 + 10)
     else if is_upper c then Some (byte c - 65 + 10) else None)"

text \<open>The digit loop: value, number of digits, whether a separator was misplaced, and what is left.\<close>

fun scan_digits :: "nat \<Rightarrow> scanned \<Rightarrow> bool \<Rightarrow> nat \<Rightarrow> nat \<Rightarrow> string \<Rightarrow> nat \<times> nat \<times> bool \<times> string" where
  "scan_digits b prev bad n k [] = (n, k, bad \<or> prev = SSep, [])"
| "scan_digits b prev bad n k (c # cs) =
     (if c = CHR ''_'' then scan_digits b SSep (bad \<or> prev \<noteq> SDigit) n k cs
      else case digit_value c of
        Some d \<Rightarrow> if d < b then scan_digits b SDigit bad (n * b + d) (Suc k) cs else (n, k, bad \<or> prev = SSep, c # cs)
      | None \<Rightarrow> (n, k, bad \<or> prev = SSep, c # cs))"

definition scan_nat :: "string \<Rightarrow> nat option" where
  "scan_nat s =
     (let whole = (\<lambda>(n, k, bad, rest). if bad \<or> rest \<noteq> [] \<or> k = (0 :: nat) then None else Some n) in
      case s of
        [] \<Rightarrow> None
      | [c] \<Rightarrow> whole (scan_digits 10 SOther False 0 0 [c])
      | c # d # cs \<Rightarrow>
          if c \<noteq> CHR ''0'' then whole (scan_digits 10 SOther False 0 0 s)
          else if d \<in> set ''bB'' then whole (scan_digits 2 SDigit False 0 0 cs)
          else if d \<in> set ''oO'' then whole (scan_digits 8 SDigit False 0 0 cs)
          else if d \<in> set ''xX'' then whole (scan_digits 16 SDigit False 0 0 cs)
          else (case scan_digits 8 SDigit False 0 0 (d # cs) of
              (n, k, bad, rest) \<Rightarrow> if bad \<or> rest \<noteq> [] then None else Some n))"

definition bigint_set_string :: "string \<Rightarrow> int option" where
  "bigint_set_string s =
     (case s of
        [] \<Rightarrow> None
      | c # cs \<Rightarrow>
          if c = CHR ''-'' then map_option (\<lambda>n. - int n) (scan_nat cs)
          else if c = CHR ''+'' then map_option int (scan_nat cs)
          else map_option int (scan_nat s))"

datatype serial_err = InvalidSerial string | NotPositive string

fun parse_loop :: "string set \<Rightarrow> string list \<Rightarrow> serial_err + string set" where
  "parse_loop out [] = Inr out"
| "parse_loop out (s # ss) =
     (case bigint_set_string s of
        None \<Rightarrow> Inl (InvalidSerial s)
      | Some n \<Rightarrow> if n \<le> 0 then Inl (NotPositive s) else parse_loop (insert (int_str n) out) ss)"

definition parse_serials :: "string list \<Rightarrow> serial_err + string set" where
  "parse_serials ss = parse_loop {} ss"

section \<open>The allowlist\<close>

text \<open>Each cell holds the published set, or nil before the first store.\<close>

record allowlist_cells =
  al_order :: "string set option"
  al_admin :: "string set option"

datatype allowlist_err = OrderSerials serial_err | AdminSerials serial_err | NoSerials

definition new_allowlist :: "string list \<Rightarrow> string list \<Rightarrow> allowlist_err + allowlist_cells" where
  "new_allowlist orderSerials adminSerials =
     andthen (wrap_err OrderSerials (parse_serials orderSerials)) (\<lambda>order.
     andthen (wrap_err AdminSerials (parse_serials adminSerials)) (\<lambda>admin.
       check (order = {} \<and> admin = {}) NoSerials (Inr \<lparr>al_order = Some order, al_admin = Some admin\<rparr>)))"

definition listed :: "string set option \<Rightarrow> string \<Rightarrow> bool" where
  "listed s key = (case s of None \<Rightarrow> False | Some keys \<Rightarrow> key \<in> keys)"

definition classify :: "allowlist_cells \<Rightarrow> int option \<Rightarrow> role" where
  "classify a serial =
     (case serial of
        None \<Rightarrow> RoleNone
      | Some n \<Rightarrow>
          if listed (al_admin a) (int_str n) then RoleAdmin
          else if listed (al_order a) (int_str n) then RoleOrder
          else RoleNone)"

definition replace_serials :: "string list \<Rightarrow> string list \<Rightarrow> allowlist_cells \<Rightarrow> (allowlist_err + unit) \<times> allowlist_cells" where
  "replace_serials orderSerials adminSerials a =
     (case wrap_err OrderSerials (parse_serials orderSerials) of
        Inl e \<Rightarrow> (Inl e, a)
      | Inr order \<Rightarrow>
     (case wrap_err AdminSerials (parse_serials adminSerials) of
        Inl e \<Rightarrow> (Inl e, a)
      | Inr admin \<Rightarrow> (Inr (), a\<lparr>al_order := Some order, al_admin := Some admin\<rparr>)))"

section \<open>Handshakes\<close>

datatype conn_err = NoClientCert | NotInAllowlist string

text \<open>The \<open>VerifyConnection\<close> callback on the serials of the presented chain, leaf first.\<close>

definition verify_connection :: "allowlist_cells \<Rightarrow> int option list \<Rightarrow> conn_err + unit" where
  "verify_connection a peers =
     (case peers of
        [] \<Rightarrow> Inl NoClientCert
      | p # ps \<Rightarrow> check (classify a p = RoleNone)
          (NotInAllowlist (case p of None \<Rightarrow> ''<nil>'' | Some n \<Rightarrow> int_str n)) (Inr ()))"

definition peer_role :: "allowlist_cells \<Rightarrow> int option list option \<Rightarrow> role" where
  "peer_role a cs = (case cs of None \<Rightarrow> RoleNone | Some [] \<Rightarrow> RoleNone | Some (p # ps) \<Rightarrow> classify a p)"

record mtls_options =
  mo_cert_path :: path
  mo_key_path :: path
  mo_ca_path :: path
  mo_order_serials :: "string list"
  mo_admin_serials :: "string list"

record tls_config =
  tc_min_version :: nat
  tc_max_version :: nat
  tc_require_client_cert :: bool
  tc_next_protos :: "string list"

datatype build_config_err = LoadKeypair | ReadClientCA os_err | NoUsableCA | AllowlistErr allowlist_err

text \<open>
  \<open>keypair_ok\<close> says whether the two PEM texts are a certificate and its key, \<open>ca_ok\<close> whether a text
  holds a certificate. TLS 1.3 is version 0x0304.
\<close>

definition build_server_config ::
    "(bytes \<Rightarrow> bytes \<Rightarrow> bool) \<Rightarrow> (bytes \<Rightarrow> bool) \<Rightarrow> mtls_options \<Rightarrow> world
       \<Rightarrow> (build_config_err + tls_config \<times> allowlist_cells) \<times> world" where
  "build_server_config keypair_ok ca_ok o' w =
     (case os_read_file (mo_cert_path o') w of
        (Inl _, w1) \<Rightarrow> (Inl LoadKeypair, w1)
      | (Inr cert, w1) \<Rightarrow>
     (case os_read_file (mo_key_path o') w1 of
        (Inl _, w2) \<Rightarrow> (Inl LoadKeypair, w2)
      | (Inr key, w2) \<Rightarrow>
      if \<not> keypair_ok cert key then (Inl LoadKeypair, w2)
      else (case os_read_file (mo_ca_path o') w2 of
        (Inl e, w3) \<Rightarrow> (Inl (ReadClientCA e), w3)
      | (Inr ca, w3) \<Rightarrow>
      if \<not> ca_ok ca then (Inl NoUsableCA, w3)
      else (andthen (wrap_err AllowlistErr (new_allowlist (mo_order_serials o') (mo_admin_serials o')))
              (\<lambda>al. Inr (\<lparr>tc_min_version = 772, tc_max_version = 772, tc_require_client_cert = True,
                          tc_next_protos = [''h2'']\<rparr>, al)), w3))))"

section \<open>Handshake errors\<close>

definition classify_handshake_error :: "string \<Rightarrow> string" where
  "classify_handshake_error line =
     (if contains line ''not in allowlist'' then ''unknown_serial''
      else if contains line (''didn'' @ [char_of (39 :: nat)] @ ''t provide a certificate'')
           \<or> contains line ''no client certificate'' then ''no_client_cert''
      else if contains line ''unknown certificate authority'' \<or> contains line ''verify certificate'' then ''wrong_ca''
      else if contains line ''certificate has expired'' \<or> contains line ''expired'' then ''expired''
      else if contains line ''unsupported versions'' \<or> contains line ''no supported versions''
           \<or> contains line ''protocol version'' then ''tls_version''
      else ''other'')"

text \<open>
  \<open>handshakeWriter.Write\<close>: the counter and the lines forwarded to the fallback writer, either of
  which may be absent.
\<close>

definition handshake_write ::
    "bytes \<Rightarrow> labeled option \<times> bytes list option \<Rightarrow> nat \<times> labeled option \<times> bytes list option" where
  "handshake_write p st =
     (length p,
      (if contains p ''TLS handshake error''
       then map_option (labeled_inc (classify_handshake_error p)) (fst st) else fst st),
      map_option (\<lambda>out. out @ [p]) (snd st))"

section \<open>What the sets hold\<close>

lemma int_str_inject [simp]: "0 < m \<Longrightarrow> 0 < n \<Longrightarrow> int_str m = int_str n \<longleftrightarrow> m = n"
  by (auto simp: int_str_def)

lemma nat_str_no_minus: "nat_str n \<noteq> CHR ''-'' # s"
  using nat_str_digits [of n] by (auto simp: is_digit_def)

lemma int_str_positive: "0 < m \<Longrightarrow> int_str m = int_str n \<longleftrightarrow> m = n"
  using nat_str_no_minus [of "nat m"] by (auto simp: int_str_def)

definition denotes :: "string list \<Rightarrow> int \<Rightarrow> bool" where
  "denotes ss n = (\<exists>s\<in>set ss. bigint_set_string s = Some n)"

lemma parse_loop_ok:
  "parse_loop out ss = Inr keys \<Longrightarrow> keys = out \<union> {int_str n | n. denotes ss n} \<and> (\<forall>n. denotes ss n \<longrightarrow> 0 < n)"
proof (induction ss arbitrary: out)
  case Nil
  then show ?case by (simp add: denotes_def)
next
  case (Cons s ss)
  then obtain n where n: "bigint_set_string s = Some n" "0 < n"
      and rest: "parse_loop (insert (int_str n) out) ss = Inr keys"
    by (auto split: option.splits if_splits)
  have "denotes (s # ss) m \<longleftrightarrow> m = n \<or> denotes ss m" for m using n by (auto simp: denotes_def)
  with Cons.IH [OF rest] n show ?case by auto
qed

lemma parse_serials_listed:
  assumes "parse_serials ss = Inr keys"
  shows "int_str n \<in> keys \<longleftrightarrow> denotes ss n"
  using parse_loop_ok [of "{}" ss keys] assms by (auto simp: parse_serials_def) (metis int_str_positive)

definition role_by :: "string list \<Rightarrow> string list \<Rightarrow> int \<Rightarrow> role" where
  "role_by orders admins n =
     (if denotes admins n then RoleAdmin else if denotes orders n then RoleOrder else RoleNone)"

lemma classify_cells:
  assumes "parse_serials os = Inr ok" and "parse_serials as = Inr ak"
    and "al_order a = Some ok" and "al_admin a = Some ak"
  shows "classify a (Some n) = role_by os as n"
  using parse_serials_listed [OF assms(1)] parse_serials_listed [OF assms(2)] assms(3,4)
  by (simp add: classify_def listed_def role_by_def)

section \<open>Reading while the lists are replaced\<close>

text \<open>
  \<open>Replace\<close> publishes the order set and then the admin set; \<open>Classify\<close> reads the admin set and then
  the order set. A run interleaves the two stores of one \<open>Replace\<close> with the two loads of one
  \<open>Classify\<close>.
\<close>

datatype cell_op = StoreOrder | StoreAdmin | LoadAdmin | LoadOrder

record cell_run =
  cells :: allowlist_cells
  seen_admin :: "string set option"
  seen_order :: "string set option"

fun cell_step :: "allowlist_cells \<Rightarrow> cell_run \<Rightarrow> cell_op \<Rightarrow> cell_run" where
  "cell_step new s StoreOrder = s\<lparr>cells := (cells s)\<lparr>al_order := al_order new\<rparr>\<rparr>"
| "cell_step new s StoreAdmin = s\<lparr>cells := (cells s)\<lparr>al_admin := al_admin new\<rparr>\<rparr>"
| "cell_step new s LoadAdmin = s\<lparr>seen_admin := al_admin (cells s)\<rparr>"
| "cell_step new s LoadOrder = s\<lparr>seen_order := al_order (cells s)\<rparr>"

definition interleaved :: "allowlist_cells \<Rightarrow> allowlist_cells \<Rightarrow> cell_op list \<Rightarrow> int option \<Rightarrow> role" where
  "interleaved old new ops serial =
     (let s = foldl (cell_step new) \<lparr>cells = old, seen_admin = None, seen_order = None\<rparr> ops in
      classify \<lparr>al_order = seen_order s, al_admin = seen_admin s\<rparr> serial)"

definition schedules :: "cell_op list set" where
  "schedules = shuffles [StoreOrder, StoreAdmin] [LoadAdmin, LoadOrder]"

lemma schedules_cases:
  assumes "ops \<in> schedules"
  shows "ops \<in> {[StoreOrder, StoreAdmin, LoadAdmin, LoadOrder], [StoreOrder, LoadAdmin, StoreAdmin, LoadOrder],
     [StoreOrder, LoadAdmin, LoadOrder, StoreAdmin], [LoadAdmin, StoreOrder, StoreAdmin, LoadOrder],
     [LoadAdmin, StoreOrder, LoadOrder, StoreAdmin], [LoadAdmin, LoadOrder, StoreOrder, StoreAdmin]}"
  using assms by (auto simp: schedules_def)

section \<open>Properties\<close>

text \<open>
  An allowlist is built exactly when every entry is a positive number and one list is not empty,
  and it gives a serial the admin role if an admin entry denotes it, in whatever base it is written,
  else the order role if an order entry does, else none.
\<close>

theorem allowlist_classifies:
  assumes "new_allowlist orders admins = Inr a"
  shows "classify a (Some n) = role_by orders admins n \<and> classify a None = RoleNone
      \<and> (\<exists>m. classify a (Some m) \<noteq> RoleNone) \<and> (n \<le> 0 \<longrightarrow> classify a (Some n) = RoleNone)"
proof -
  from assms obtain ok ak where p: "parse_serials orders = Inr ok" "parse_serials admins = Inr ak"
    and a: "a = \<lparr>al_order = Some ok, al_admin = Some ak\<rparr>" and ne: "ok \<noteq> {} \<or> ak \<noteq> {}"
    by (auto simp: new_allowlist_def check_def split: if_splits)
  have c: "classify a (Some m) = role_by orders admins m" for m
    using classify_cells [OF p, of a m] a by simp
  have keys: "ok = {int_str n | n. denotes orders n}" "ak = {int_str n | n. denotes admins n}"
      and pos: "denotes orders m \<or> denotes admins m \<Longrightarrow> 0 < m" for m
    using parse_loop_ok [of "{}" orders ok] parse_loop_ok [of "{}" admins ak] p
    by (auto simp: parse_serials_def)
  have "\<exists>m. role_by orders admins m \<noteq> RoleNone" using ne keys by (auto simp: role_by_def)
  moreover have "n \<le> 0 \<longrightarrow> role_by orders admins n = RoleNone" using pos [of n] by (auto simp: role_by_def)
  ultimately show ?thesis by (simp add: c classify_def [of a None])
qed

text \<open>
  C33: a connection passes the handshake check exactly when its leaf certificate has a role; the role
  handlers see is that one; an admin is let in wherever an order client is, and no one else.
\<close>

theorem verify_admits:
  "(verify_connection a peers = Inr () \<longleftrightarrow> peer_role a (Some peers) \<noteq> RoleNone)
   \<and> (verify_connection a peers = Inr () \<longleftrightarrow> role_allows (peer_role a (Some peers)) RoleOrder)
   \<and> (role_allows (peer_role a cs) RoleAdmin \<longleftrightarrow> peer_role a cs = RoleAdmin)"
  by (cases peers; cases "peer_role a cs"; cases "classify a (hd peers)")
     (auto simp: verify_connection_def peer_role_def role_allows_def role_order check_def)

text \<open>
  Replacing the lists takes effect for both or for neither: an entry that is not a positive
  number leaves the allowlist as it was. But two empty lists are accepted, and then no serial has a
  role any more.
\<close>

theorem replace_serials_effect:
  assumes "replace_serials orders admins a = (r, a')"
  shows "(\<not> is_ok r \<longrightarrow> a' = a) \<and> (is_ok r \<longrightarrow> (\<forall>n. classify a' (Some n) = role_by orders admins n))
      \<and> (orders = [] \<and> admins = [] \<longrightarrow> is_ok r \<and> (\<forall>n. classify a' (Some n) = RoleNone))"
proof -
  have ok: "classify a' (Some n) = role_by orders admins n" if "is_ok r" for n
  proof -
    from assms that obtain ok ak where p: "parse_serials orders = Inr ok" "parse_serials admins = Inr ak"
      and a: "a' = a\<lparr>al_order := Some ok, al_admin := Some ak\<rparr>"
      by (auto simp: replace_serials_def split: sum.splits)
    show ?thesis by (rule classify_cells [OF p]) (simp_all add: a)
  qed
  moreover have "\<not> is_ok r \<longrightarrow> a' = a"
    using assms by (auto simp: replace_serials_def split: sum.splits)
  moreover have "is_ok r" if "orders = [] \<and> admins = []"
    using assms that by (auto simp: replace_serials_def parse_serials_def)
  ultimately show ?thesis by (auto simp: role_by_def denotes_def)
qed

text \<open>
  C34: a classification that overlaps a replacement never gives a serial a higher role than the old or
  the new lists do; it may be refused though both lists give it a role.
\<close>

theorem torn_read_bound:
  assumes "ops \<in> schedules"
  shows "interleaved old new ops serial \<le> max (classify old serial) (classify new serial)"
  using schedules_cases [OF assms]
  by (auto simp: interleaved_def classify_def Let_def role_order max_def split: option.splits)

text \<open>
  A serial that moves from the order list to the admin list can be refused while the lists
  are replaced, though it has a role before and after.
\<close>

theorem torn_read_refuses:
  "\<exists>old new ops serial. ops \<in> schedules \<and> new_allowlist [''7''] [''8''] = Inr old
     \<and> replace_serials [''8''] [''0x7''] old = (Inr (), new)
     \<and> classify old serial = RoleOrder \<and> classify new serial = RoleAdmin
     \<and> interleaved old new ops serial = RoleNone"
proof -
  let ?old = "\<lparr>al_order = Some {''7''}, al_admin = Some {''8''}\<rparr>"
    and ?new = "\<lparr>al_order = Some {''8''}, al_admin = Some {''7''}\<rparr>"
    and ?ops = "[LoadAdmin, StoreOrder, StoreAdmin, LoadOrder]"
  have p: "parse_serials [''7''] = Inr {''7''}" "parse_serials [''8''] = Inr {''8''}"
      "parse_serials [''0x7''] = Inr {''7''}"
    by code_simp+
  have s: "int_str 7 = ''7''" by code_simp
  have "?ops \<in> schedules" by (simp add: schedules_def)
  moreover have "new_allowlist [''7''] [''8''] = Inr ?old" by (simp add: new_allowlist_def p check_def)
  moreover have "replace_serials [''8''] [''0x7''] ?old = (Inr (), ?new)" by (simp add: replace_serials_def p)
  moreover have "classify ?old (Some 7) = RoleOrder" "classify ?new (Some 7) = RoleAdmin"
      "interleaved ?old ?new ?ops (Some 7) = RoleNone"
    by (simp_all add: classify_def listed_def interleaved_def s)
  ultimately show ?thesis by blast
qed

section \<open>Witnesses\<close>

theorem allowlist_classifies_witness:
  "\<exists>a. new_allowlist [''255''] [''0xFF'', ''1_0''] = Inr a \<and> classify a (Some 255) = RoleAdmin"
proof -
  have p: "is_ok (new_allowlist [''255''] [''0xFF'', ''1_0''])" by code_simp
  then obtain a where a: "new_allowlist [''255''] [''0xFF'', ''1_0''] = Inr a" by (auto dest: is_ok_Inr)
  have "bigint_set_string ''0xFF'' = Some 255" by code_simp
  with allowlist_classifies [OF a, of 255] a show ?thesis by (auto simp: role_by_def denotes_def)
qed

theorem replace_serials_effect_witness:
  "\<exists>a'. replace_serials [] [] \<lparr>al_order = Some {''7''}, al_admin = Some {}\<rparr> = (Inr (), a')
     \<and> classify a' (Some 7) = RoleNone"
proof -
  obtain r a' where t: "replace_serials [] [] \<lparr>al_order = Some {''7''}, al_admin = Some {}\<rparr> = (r, a')"
    by (metis prod.collapse)
  from replace_serials_effect [OF t] t show ?thesis by (auto dest!: is_ok_Inr)
qed

theorem torn_read_bound_witness:
  "interleaved \<lparr>al_order = Some {''7''}, al_admin = Some {}\<rparr> \<lparr>al_order = Some {}, al_admin = Some {}\<rparr>
     [StoreOrder, LoadAdmin, StoreAdmin, LoadOrder] (Some 7) \<le> RoleOrder"
proof -
  let ?old = "\<lparr>al_order = Some {''7''}, al_admin = Some {}\<rparr>" and ?new = "\<lparr>al_order = Some {}, al_admin = Some {}\<rparr>"
  have "[StoreOrder, LoadAdmin, StoreAdmin, LoadOrder] \<in> schedules" by (simp add: schedules_def)
  from torn_read_bound [OF this, of ?old ?new "Some 7"] show ?thesis
    by (auto simp: classify_def listed_def max_def role_order split: if_splits)
qed

end
