(* ===== verification/Proxy.thy ===== *)
theory Proxy
  imports ProfileFacts Mtls AuditFacts
begin

text \<open>
  The order plane, \<open>internal/proxy/handler.go\<close>: a request that names a broker is matched against the
  live router and, on a match, sent to that broker and the answer streamed back; every request is
  recorded once. The broker and the network are outside: the transport is a parameter that maps an
  outbound request to an error, a panic or a response whose body may break off.

  A header is Go's map from keys to lists of values. The response writer is the HTTP/2 one (the
  listener offers nothing else): the first final \<open>WriteHeader\<close> fixes status and headers, an
  informational status fixes nothing, an impossible one panics.
\<close>

section \<open>Headers\<close>

type_synonym headers = "string \<rightharpoonup> string list"

definition header_get :: "headers \<Rightarrow> string \<Rightarrow> string" where
  "header_get h k = (case h (canonical_key k) of Some (v # vs) \<Rightarrow> v | _ \<Rightarrow> [])"

definition header_values :: "headers \<Rightarrow> string \<Rightarrow> string list" where
  "header_values h k = (case h (canonical_key k) of Some vs \<Rightarrow> vs | None \<Rightarrow> [])"

definition header_del :: "string \<Rightarrow> headers \<Rightarrow> headers" where
  "header_del k h = h(canonical_key k := None)"

definition header_set :: "string \<Rightarrow> string \<Rightarrow> headers \<Rightarrow> headers" where
  "header_set k v h = h(canonical_key k \<mapsto> [v])"

definition header_broker :: string where "header_broker = ''X-Tesseract-Broker''"
definition header_idempotency :: string where "header_idempotency = ''X-Tesseract-Idempotency-Key''"

definition hop_by_hop_headers :: "string list" where
  "hop_by_hop_headers = [''Connection'', ''Proxy-Connection'', ''Keep-Alive'', ''Proxy-Authenticate'',
     ''Proxy-Authorization'', ''Te'', ''Trailer'', ''Transfer-Encoding'', ''Upgrade'']"

definition internal_headers :: "string list" where "internal_headers = [header_broker]"

definition clone_header :: "headers \<Rightarrow> headers" where "clone_header h = h"

text \<open>The names listed in the \<open>Connection\<close> header, trimmed, empty ones skipped.\<close>

definition connection_names :: "headers \<Rightarrow> string list" where
  "connection_names h = filter (\<lambda>n. n \<noteq> [])
     (concat (map (\<lambda>c. map trim_space (split_on (CHR '','') c)) (header_values h ''Connection'')))"

definition strip_outbound_headers :: "headers \<Rightarrow> headers" where
  "strip_outbound_headers h =
     fold header_del (connection_names h) (fold header_del internal_headers
       (fold header_del hop_by_hop_headers (clone_header h)))"

definition is_hop_by_hop :: "string \<Rightarrow> bool" where
  "is_hop_by_hop name = list_ex (\<lambda>h. equal_fold h name) hop_by_hop_headers"

definition copy_response_headers :: "headers \<Rightarrow> headers \<Rightarrow> headers" where
  "copy_response_headers dst src =
     fold header_del (connection_names src)
       (\<lambda>k. case src k of None \<Rightarrow> dst k | Some v \<Rightarrow> if is_hop_by_hop k then dst k else Some v)"

section \<open>Requests, responses, transports\<close>

record request =
  rq_method :: string
  rq_path :: string
  rq_query :: string
  rq_header :: headers
  rq_peers :: "int list option"
  rq_body :: bytes

record base_url =
  bu_scheme :: string
  bu_host :: string

record outbound =
  ob_method :: string
  ob_scheme :: string
  ob_url_host :: string
  ob_host :: string
  ob_path :: string
  ob_query :: string
  ob_header :: headers
  ob_body :: bytes

datatype body_copy = Whole bytes | Interrupted bytes

datatype rt_result = RtError string | RtPanic string | RtResponse nat headers body_copy

record response_writer =
  rw_header :: headers
  rw_sent :: "(nat \<times> headers) option"
  rw_body :: bytes

definition new_response :: response_writer where
  "new_response = \<lparr>rw_header = Map.empty, rw_sent = None, rw_body = []\<rparr>"

text \<open>\<open>WriteHeader\<close>: the flag tells a panic.\<close>

definition write_header :: "nat \<Rightarrow> response_writer \<Rightarrow> bool \<times> response_writer" where
  "write_header code w =
     (if rw_sent w \<noteq> None then (False, w)
      else if code < 100 \<or> 999 < code then (True, w)
      else if code < 200 then (False, w)
      else (False, w\<lparr>rw_sent := Some (code, rw_header w)\<rparr>))"

definition body_allowed :: "nat \<Rightarrow> bool" where "body_allowed code = (code \<noteq> 204 \<and> code \<noteq> 304)"

definition write_body :: "bytes \<Rightarrow> response_writer \<Rightarrow> response_writer" where
  "write_body b w =
     (let w' = snd (write_header 200 w) in
      case rw_sent w' of
        None \<Rightarrow> w'
      | Some (code, _) \<Rightarrow> if body_allowed code then w'\<lparr>rw_body := rw_body w' @ b\<rparr> else w')"

definition fail_body :: "string \<Rightarrow> bytes" where
  "fail_body reason = ''{'' @ go_quote ''error'' @ '':'' @ go_quote reason @ ''}'' @ [newline]"

definition fail_response :: "nat \<Rightarrow> string \<Rightarrow> response_writer \<Rightarrow> response_writer" where
  "fail_response status reason w =
     write_body (fail_body reason)
       (snd (write_header status (w\<lparr>rw_header := header_set ''Content-Type'' ''application/json'' (rw_header w)\<rparr>)))"

section \<open>The handler\<close>

definition default_backend_url :: "broker_profile \<Rightarrow> base_url option" where
  "default_backend_url b = Some \<lparr>bu_scheme = ''https'', bu_host = bp_host b\<rparr>"

definition build_outbound ::
    "(broker_profile \<Rightarrow> base_url option) \<Rightarrow> request \<Rightarrow> broker_profile \<Rightarrow> string + outbound" where
  "build_outbound backend r broker =
     (let err = ''backend URL for broker '' @ go_quote (bp_id broker) @ '' is empty'' in
      case backend broker of
        None \<Rightarrow> Inl err
      | Some base \<Rightarrow> check (bu_host base = []) err
          (Inr \<lparr>ob_method = rq_method r, ob_scheme = bu_scheme base, ob_url_host = bu_host base,
                ob_host = bu_host base, ob_path = rq_path r, ob_query = rq_query r,
                ob_header = strip_outbound_headers (rq_header r), ob_body = rq_body r\<rparr>))"

definition peer_serial :: "request \<Rightarrow> string" where
  "peer_serial r = (case rq_peers r of None \<Rightarrow> [] | Some [] \<Rightarrow> [] | Some (n # ns) \<Rightarrow> int_str n)"

text \<open>
  The handler up to its deferred functions: the record as far as it was filled in, the response, what
  was handed to the transport, and the value of a panic.
\<close>

record serve_result =
  sr_record :: log_record
  sr_response :: response_writer
  sr_sent :: "outbound option"
  sr_panic :: "string option"

definition first_record :: "request \<Rightarrow> log_record" where
  "first_record r = blank_record\<lparr>lr_method := rq_method r, lr_path := rq_path r, lr_serial := peer_serial r,
     lr_idem := header_get (rq_header r) header_idempotency\<rparr>"

definition refuse :: "outcome \<Rightarrow> nat \<Rightarrow> string \<Rightarrow> outbound option \<Rightarrow> log_record \<Rightarrow> serve_result" where
  "refuse o' status reason sent rec =
     \<lparr>sr_record = rec\<lparr>lr_outcome := o', lr_status := int status, lr_reason := reason\<rparr>,
      sr_response = fail_response status reason new_response, sr_sent = sent, sr_panic = None\<rparr>"

definition relay :: "outbound \<Rightarrow> nat \<Rightarrow> headers \<Rightarrow> body_copy \<Rightarrow> log_record \<Rightarrow> serve_result" where
  "relay out status h body rec =
     (let w = new_response\<lparr>rw_header := copy_response_headers (rw_header new_response) h\<rparr> in
      case write_header status w of
        (True, w1) \<Rightarrow> \<lparr>sr_record = rec, sr_response = w1, sr_sent = Some out,
                       sr_panic = Some (''invalid WriteHeader code '' @ nat_str status)\<rparr>
      | (False, w1) \<Rightarrow>
          \<lparr>sr_record = rec\<lparr>lr_outcome := OutcomeForward, lr_status := int status\<rparr>,
           sr_response = write_body (case body of Whole b \<Rightarrow> b | Interrupted b \<Rightarrow> b) w1,
           sr_sent = Some out, sr_panic = None\<rparr>)"

definition serve_request ::
    "holder \<Rightarrow> (broker_profile \<Rightarrow> base_url option) \<Rightarrow> (outbound \<Rightarrow> rt_result) \<Rightarrow> request \<Rightarrow> serve_result" where
  "serve_request h backend transport r =
     (let rec = first_record r; brokerID = header_get (rq_header r) header_broker in
      if brokerID = []
      then refuse OutcomeReject 400 (''missing '' @ header_broker @ '' header'') None rec
      else (let rec = rec\<lparr>lr_broker := brokerID\<rparr> in
      case holder_load h of
        None \<Rightarrow> refuse OutcomeReject 503 ''no bundle loaded'' None rec
      | Some router \<Rightarrow>
     (let rec = rec\<lparr>lr_bundle_version := rt_bundle_version router\<rparr> in
      case lookup_route router brokerID (rq_method r) (rq_path r) of
        None \<Rightarrow> refuse OutcomeReject 403 ''request does not match an allowlist entry'' None rec
      | Some m \<Rightarrow>
     (case build_outbound backend r (m_broker m) of
        Inl e \<Rightarrow> refuse OutcomeUpstreamErr 500 (''build outbound: '' @ e) None rec
      | Inr out \<Rightarrow>
     (case transport out of
        RtError e \<Rightarrow> refuse OutcomeUpstreamErr 502 (''upstream: '' @ e) (Some out) rec
      | RtPanic p \<Rightarrow> \<lparr>sr_record = rec, sr_response = new_response, sr_sent = Some out, sr_panic = Some p\<rparr>
      | RtResponse status hs body \<Rightarrow> relay out status hs body rec)))))"

text \<open>The deferred recovery.\<close>

definition recovered :: "serve_result \<Rightarrow> serve_result" where
  "recovered s =
     (case sr_panic s of
        None \<Rightarrow> s
      | Some p \<Rightarrow>
          s\<lparr>sr_record := (sr_record s)\<lparr>lr_outcome := OutcomeUpstreamErr, lr_status := 500,
                                       lr_reason := ''panic: '' @ p\<rparr>,
            sr_response := write_body (''{'' @ go_quote ''error'' @ '':'' @ go_quote ''internal server error'' @ ''}'' @ [newline])
              (snd (write_header 500 ((sr_response s)\<lparr>rw_header :=
                 header_set ''Content-Type'' ''application/json'' (rw_header (sr_response s))\<rparr>)))\<rparr>)"

text \<open>The whole handler, with the audit log and the counters, either of which may be absent.\<close>

record order_plane =
  op_audit :: "audit_writer option"
  op_metrics :: "counters option"
  op_world :: world

definition serve_http ::
    "(gotime \<Rightarrow> string option) \<Rightarrow> gotime \<Rightarrow> int \<Rightarrow> holder \<Rightarrow> (broker_profile \<Rightarrow> base_url option)
       \<Rightarrow> (outbound \<Rightarrow> rt_result) \<Rightarrow> request \<Rightarrow> order_plane \<Rightarrow> serve_result \<times> order_plane" where
  "serve_http tj now latency h backend transport r pl =
     (let s = recovered (serve_request h backend transport r);
          rec = (sr_record s)\<lparr>lr_latency := latency\<rparr>;
          pl1 = (case op_audit pl of
              None \<Rightarrow> pl
            | Some a \<Rightarrow> (case audit_Log tj now rec a (op_world pl) of
                (_, a', w') \<Rightarrow> pl\<lparr>op_audit := Some a', op_world := w'\<rparr>))
      in (s\<lparr>sr_record := rec\<rparr>, pl1\<lparr>op_metrics := map_option (inc_outcome (lr_outcome rec)) (op_metrics pl1)\<rparr>))"

datatype proxy_new_err = NoHolder | NoTransport

definition proxy_New ::
    "holder option \<Rightarrow> (outbound \<Rightarrow> rt_result) option \<Rightarrow> (broker_profile \<Rightarrow> base_url option) option
       \<Rightarrow> proxy_new_err + (holder \<times> (broker_profile \<Rightarrow> base_url option) \<times> (outbound \<Rightarrow> rt_result))" where
  "proxy_New h transport backend =
     (case h of None \<Rightarrow> Inl NoHolder
      | Some h' \<Rightarrow> (case transport of None \<Rightarrow> Inl NoTransport
          | Some t \<Rightarrow> Inr (h', case backend of None \<Rightarrow> default_backend_url | Some b \<Rightarrow> b, t)))"

end
