(* ===== verification/ProxyFacts.thy ===== *)
theory ProxyFacts
  imports Proxy
begin

text \<open>
  The properties of the order plane: what it forwards and where to, which headers cross it, what the
  client sees on each path, and that every request is accounted for once.
\<close>

section \<open>Headers\<close>

lemma fold_header_del:
  "fold header_del ns h k = (if k \<in> canonical_key ` set ns then None else h k)"
  by (induction ns arbitrary: h) (auto simp: header_del_def)

text \<open>The keys a proxy must not forward: hop-by-hop, internal, or named by the \<open>Connection\<close> header.\<close>

definition consumed_key :: "headers \<Rightarrow> string \<Rightarrow> bool" where
  "consumed_key h k = (k \<in> set hop_by_hop_headers \<or> k = header_broker \<or> k \<in> canonical_key ` set (connection_names h))"

lemma canonical_names:
  "map canonical_key hop_by_hop_headers = hop_by_hop_headers" "canonical_key header_broker = header_broker"
  by code_simp+

lemma canonical_hop: "canonical_key ` set hop_by_hop_headers = set hop_by_hop_headers"
  using canonical_names(1) by (metis list.set_map)

lemma strip_outbound_key:
  "strip_outbound_headers h k = (if consumed_key h k then None else h k)"
  by (simp add: strip_outbound_headers_def fold_header_del canonical_hop canonical_names consumed_key_def
      internal_headers_def clone_header_def header_del_def)

text \<open>
  What is sent upstream has exactly the headers of the request that are neither hop-by-hop nor
  internal nor named by its \<open>Connection\<close> header, with their values in order; stripping again changes
  nothing.
\<close>

theorem strip_headers:
  "strip_outbound_headers h k = (if consumed_key h k then None else h k)
   \<and> strip_outbound_headers (strip_outbound_headers h) = strip_outbound_headers h"
proof -
  have "consumed_key h j" if c: "consumed_key (strip_outbound_headers h) j" for j
  proof -
    have "strip_outbound_headers h (canonical_key ''Connection'') = None"
      by (simp add: strip_outbound_key consumed_key_def hop_by_hop_headers_def)
        (code_simp)
    then have "connection_names (strip_outbound_headers h) = []"
      by (simp add: connection_names_def header_values_def)
    with c show ?thesis by (auto simp: consumed_key_def)
  qed
  then show ?thesis by (auto simp: strip_outbound_key fun_eq_iff)
qed

text \<open>
  The client gets exactly the headers of the response that are not hop-by-hop in any letter case and
  not named by the response's \<open>Connection\<close> header.
\<close>

theorem copy_headers:
  "copy_response_headers Map.empty src k =
     (if is_hop_by_hop k \<or> k \<in> canonical_key ` set (connection_names src) then None else src k)"
  by (simp add: copy_response_headers_def fold_header_del split: option.splits)

section \<open>What is forwarded\<close>

lemma build_outbound_ok:
  "build_outbound backend r bp = Inr out \<Longrightarrow> \<exists>base. backend bp = Some base \<and> bu_host base \<noteq> []
     \<and> out = \<lparr>ob_method = rq_method r, ob_scheme = bu_scheme base, ob_url_host = bu_host base,
             ob_host = bu_host base, ob_path = rq_path r, ob_query = rq_query r,
             ob_header = strip_outbound_headers (rq_header r), ob_body = rq_body r\<rparr>"
  by (auto simp: build_outbound_def Let_def check_def split: option.splits if_splits)

lemma refuse_simps [simp]:
  "sr_sent (refuse o' st re s rec) = s" "sr_panic (refuse o' st re s rec) = None"
  "lr_outcome (sr_record (refuse o' st re s rec)) = o'" "lr_status (sr_record (refuse o' st re s rec)) = int st"
  "sr_response (refuse o' st re s rec) = fail_response st re new_response"
  by (simp_all add: refuse_def)

lemma relay_sent [simp]: "sr_sent (relay out st h b rec) = Some out"
  by (simp add: relay_def Let_def split: prod.splits bool.splits)

text \<open>The branches of the handler.\<close>

lemma serve_cases:
  obtains (no_broker) "header_get (rq_header r) header_broker = []"
      "\<exists>rec. serve_request h backend transport r
         = refuse OutcomeReject 400 (''missing '' @ header_broker @ '' header'') None rec"
  | (no_bundle) "holder_load h = None"
      "\<exists>rec. serve_request h backend transport r = refuse OutcomeReject 503 ''no bundle loaded'' None rec"
  | (no_match) router where "holder_load h = Some router"
      "lookup_route router (header_get (rq_header r) header_broker) (rq_method r) (rq_path r) = None"
      "\<exists>rec. serve_request h backend transport r
         = refuse OutcomeReject 403 ''request does not match an allowlist entry'' None rec"
  | (no_backend) e where "\<exists>rec. serve_request h backend transport r
         = refuse OutcomeUpstreamErr 500 (''build outbound: '' @ e) None rec"
  | (sent) router m out rec where "holder_load h = Some router"
      "lookup_route router (header_get (rq_header r) header_broker) (rq_method r) (rq_path r) = Some m"
      "build_outbound backend r (m_broker m) = Inr out"
      "serve_request h backend transport r = (case transport out of
         RtError e \<Rightarrow> refuse OutcomeUpstreamErr 502 (''upstream: '' @ e) (Some out) rec
       | RtPanic p \<Rightarrow> \<lparr>sr_record = rec, sr_response = new_response, sr_sent = Some out, sr_panic = Some p\<rparr>
       | RtResponse status hs body \<Rightarrow> relay out status hs body rec)"
proof (cases "header_get (rq_header r) header_broker = []")
  case True
  then show ?thesis by (intro no_broker) (auto simp: serve_request_def Let_def)
next
  case b: False
  show ?thesis
  proof (cases "holder_load h")
    case None
    with b show ?thesis by (intro no_bundle) (auto simp: serve_request_def Let_def)
  next
    case h: (Some router)
    show ?thesis
    proof (cases "lookup_route router (header_get (rq_header r) header_broker) (rq_method r) (rq_path r)")
      case None
      with b h show ?thesis by (intro no_match) (auto simp: serve_request_def Let_def)
    next
      case m: (Some m)
      show ?thesis
      proof (cases "build_outbound backend r (m_broker m)")
        case (Inl e)
        with b h m show ?thesis by (intro no_backend [of e]) (auto simp: serve_request_def Let_def)
      next
        case (Inr out)
        with b h m show ?thesis
          by (intro sent [OF h m Inr, of "(first_record r)\<lparr>lr_broker := header_get (rq_header r) header_broker,
              lr_bundle_version := rt_bundle_version router\<rparr>"]) (simp add: serve_request_def Let_def)
      qed
    qed
  qed
qed

lemma recovered_sent [simp]: "sr_sent (recovered s) = sr_sent s"
  by (simp add: recovered_def split: option.splits)

text \<open>
  C1: whatever is handed to the transport while a valid bundle is live goes over https to the host
  of an enabled broker of that bundle, the one the request names, and an endpoint of that broker
  admits its method and path; method, path, query and body are the request's, and no header of this
  hop goes along.
\<close>

theorem forwards_only_allowed:
  assumes live: "bundle_ok b" "build_router b = Inr router" "holder_load h = Some router"
    and sent: "sr_sent (serve_request h default_backend_url transport r) = Some out"
  shows "\<exists>bp\<in>set (brokers b). \<exists>e\<in>set (order_endpoints bp).
      enabled bp \<and> bp_id bp = header_get (rq_header r) header_broker
      \<and> endpoint_admits e (ob_method out) (ob_path out)
      \<and> ob_scheme out = ''https'' \<and> ob_url_host out = bp_host bp \<and> ob_host out = bp_host bp
      \<and> ob_method out = rq_method r \<and> ob_path out = rq_path r \<and> ob_query out = rq_query r
      \<and> ob_body out = rq_body r \<and> (\<forall>k. consumed_key (rq_header r) k \<longrightarrow> ob_header out k = None)"
proof -
  have for_b: "router_for b router" using live(1,2) by (simp add: router_for_def)
  show ?thesis
  proof (cases rule: serve_cases [of r h default_backend_url transport])
    case (sent router' m out' rec)
    with assms(4) have "out' = out" by (auto split: rt_result.splits)
    with sent(3) build_outbound_ok [OF sent(3)] have out: "ob_scheme out = ''https''" "ob_url_host out = bp_host (m_broker m)"
        "ob_host out = bp_host (m_broker m)" "ob_method out = rq_method r" "ob_path out = rq_path r"
        "ob_query out = rq_query r" "ob_body out = rq_body r" "ob_header out = strip_outbound_headers (rq_header r)"
      by (auto simp: default_backend_url_def)
    from sent(1,2) live(3) have
      l: "lookup_route router (header_get (rq_header r) header_broker) (rq_method r) (rq_path r) = Some m" by simp
    note ok = routes.look_sound [OF for_b l]
    show ?thesis
      by (rule bexI [OF _ ok(1)], rule bexI [OF _ ok(4)]) (use ok out in \<open>simp add: strip_outbound_key\<close>)
  qed (use assms(4) in auto)
qed

section \<open>What the client sees\<close>

lemma write_header_new:
  "200 \<le> st \<Longrightarrow> st \<le> 999 \<Longrightarrow> rw_sent w = None \<Longrightarrow> write_header st w = (False, w\<lparr>rw_sent := Some (st, rw_header w)\<rparr>)"
  by (simp add: write_header_def)

lemma fail_response_new:
  assumes "200 \<le> st" "st \<le> 999" "rw_sent w = None"
  shows "\<exists>hs. rw_sent (fail_response st re w) = Some (st, hs)"
  using assms by (simp add: fail_response_def write_header_def write_body_def Let_def)

definition relays :: "rt_result \<Rightarrow> bool" where
  "relays t = (case t of RtResponse st hs body \<Rightarrow> 100 \<le> st \<and> st \<le> 999 | _ \<Rightarrow> False)"



section \<open>Dot segments\<close>

definition fill :: "string \<Rightarrow> item list \<Rightarrow> string" where
  "fill v ts = concat (map (\<lambda>t. case t of Lit c \<Rightarrow> [c] | Var n \<Rightarrow> v) ts)"

lemma fill_simps [simp]: "fill v [] = []" "fill v (Lit c # ts) = c # fill v ts" "fill v (Var n # ts) = v @ fill v ts"
  by (simp_all add: fill_def)

lemma fill_ascii: "list_all item_ok ts \<Longrightarrow> list_all is_ascii v \<Longrightarrow> list_all is_ascii (fill v ts)"
proof (induction ts)
  case (Cons t ts)
  then show ?case by (cases t) (auto dest: valid_path_byte_ascii)
qed simp

lemma fill_instantiates:
  "v \<noteq> [] \<Longrightarrow> 47 \<notin> set (map byte v) \<Longrightarrow> instantiates ts (map byte (fill v ts))"
proof (induction ts)
  case (Cons t ts)
  then show ?case by (cases t) (auto intro: instantiates.intros)
qed (simp add: instantiates.intros)

lemma fill_admitted:
  assumes "list_all item_ok ts" and "oe_path e = template_text ts"
    and "v \<noteq> []" "CHR ''/'' \<notin> set v" "list_all is_ascii v"
  shows "endpoint_admits e (oe_method e) (fill v ts)"
proof -
  have "47 \<notin> set (map byte v)"
  proof
    assume "47 \<in> set (map byte v)"
    then obtain c where c: "c \<in> set v" "byte c = byte (CHR ''/'')" by auto
    then have "c = CHR ''/''" by (simp only: byte_eq_iff)
    with c(1) assms(4) show False by simp
  qed
  with assms fill_instantiates [of v ts] fill_ascii [of ts v] show ?thesis
    by (auto simp: endpoint_admits_def runes_ascii)
qed

text \<open>
  A placeholder does not look at what fills it: every valid endpoint admits its own template
  with each placeholder replaced by two dots, and the path is forwarded as it is, although a broker
  that resolves dot segments reads it as another path.
\<close>

theorem dot_segments_admitted:
  assumes "validate_endpoint e = Inr ()"
  shows "\<exists>ts. oe_path e = template_text ts \<and> endpoint_admits e (oe_method e) (fill ''..'' ts)
      \<and> (\<forall>bp out. build_outbound default_backend_url
            \<lparr>rq_method = oe_method e, rq_path = fill ''..'' ts, rq_query = [], rq_header = Map.empty,
             rq_peers = None, rq_body = []\<rparr> bp = Inr out \<longrightarrow> ob_path out = fill ''..'' ts)"
proof -
  from assms obtain ts where "list_all item_ok ts" "oe_path e = template_text ts"
    using text_scan_path by (auto simp: validate_endpoint_iff validate_path_def)
  with fill_admitted [of ts e "''..''"] show ?thesis
    by (intro exI [of _ ts]) (auto simp: is_ascii_def dest: build_outbound_ok)
qed

section \<open>Witnesses\<close>

definition ex_request :: request where
  "ex_request = \<lparr>rq_method = ''DELETE'', rq_path = ''/orders/42'', rq_query = [],
     rq_header = [''X-Tesseract-Broker'' \<mapsto> [''acme''], ''Connection'' \<mapsto> [''close, X-Hop''], ''X-Hop'' \<mapsto> [''1'']],
     rq_peers = Some [7], rq_body = []\<rparr>"

definition ex_router :: router where
  "ex_router = (case build_router (ex_bundle ''2026-01-01'') of Inr r \<Rightarrow> r
     | Inl _ \<Rightarrow> \<lparr>rt_bundle_version = [], by_broker = Map.empty\<rparr>)"

definition ex_transport :: "outbound \<Rightarrow> rt_result" where
  "ex_transport out = RtResponse 200 [''Content-Type'' \<mapsto> [''application/json'']] (Whole ''{}'')"

lemma ex_router_built: "bundle_ok (ex_bundle ''2026-01-01'')" "build_router (ex_bundle ''2026-01-01'') = Inr ex_router"
proof -
  show b: "bundle_ok (ex_bundle ''2026-01-01'')" using ex_bundle_ok(1) by (simp add: validate_bundle_iff)
  show "build_router (ex_bundle ''2026-01-01'') = Inr ex_router"
    using build_router_total [OF b] by (auto simp: ex_router_def)
qed

lemma ex_served: "sr_sent (serve_request (new_holder (Some ex_router)) default_backend_url ex_transport ex_request) \<noteq> None"
proof -
  have b: "header_get (rq_header ex_request) header_broker = ''acme''" by code_simp
  have r: "rq_method ex_request = ''DELETE''" "rq_path ex_request = ''/orders/42''" by (simp_all add: ex_request_def)
  have "case lookup_route ex_router ''acme'' ''DELETE'' ''/orders/42'' of None \<Rightarrow> False | Some m \<Rightarrow> bp_host (m_broker m) \<noteq> []"
    by code_simp
  then obtain m where "lookup_route ex_router ''acme'' ''DELETE'' ''/orders/42'' = Some m" "bp_host (m_broker m) \<noteq> []"
    by (auto split: option.splits)
  with b r show ?thesis
    by (simp add: serve_request_def Let_def holder_load_def new_holder_def build_outbound_def default_backend_url_def
        check_def ex_transport_def relay_def split: prod.split bool.split)
qed

lemma reject_without_bundle:
  "lr_outcome (sr_record (recovered (serve_request (new_holder None) backend transport r))) = OutcomeReject"
  by (simp add: serve_request_def Let_def holder_load_def new_holder_def refuse_def recovered_def)

theorem forwards_only_allowed_witness:
  "\<exists>out. sr_sent (serve_request (new_holder (Some ex_router)) default_backend_url ex_transport ex_request) = Some out
      \<and> ob_scheme out = ''https'' \<and> ob_path out = ''/orders/42''"
proof -
  obtain out where o: "sr_sent (serve_request (new_holder (Some ex_router)) default_backend_url ex_transport ex_request) = Some out"
    using ex_served by auto
  have "holder_load (new_holder (Some ex_router)) = Some ex_router" by (simp add: holder_load_def new_holder_def)
  from forwards_only_allowed [OF ex_router_built this o] o show ?thesis by (auto simp: ex_request_def)
qed


definition ex_plane :: order_plane where
  "ex_plane = \<lparr>op_audit = Some ex_writer, op_metrics = Some new_counters, op_world = ex_audit_world []\<rparr>"

definition ex_serve :: "serve_result \<times> order_plane" where
  "ex_serve = serve_http ex_time_json 9 3 (new_holder None) default_backend_url ex_transport ex_request ex_plane"


theorem dot_segments_admitted_witness:
  "\<exists>ts. ''/orders/{order_id}'' = template_text ts
     \<and> endpoint_admits (ex_endpoints ! 1) ''DELETE'' (fill ''..'' ts)"
proof -
  have "validate_endpoint (ex_endpoints ! 1) = Inr ()" by code_simp
  from dot_segments_admitted [OF this] show ?thesis by (auto simp: ex_endpoints_def)
qed

end
