(* ===== verification/Egress.thy ===== *)
theory Egress
  imports GoNet Bundle "HOL-Library.AList" "HOL-Library.Multiset"
begin

text \<open>
  The egress filter: \<open>internal/egress/egress.go\<close>, \<open>internal/egress/applier.go\<close> and the companion program
  \<open>tesseract-proxy-egress/main.go\<close>. The hosts of the live bundle are resolved, and an nftables ruleset
  that lets only connections to these addresses out is rendered and applied. Name resolution and the
  \<open>nft\<close> process are outside: the resolver is a parameter, and applying a ruleset either fails or adds
  it to the list of rulesets handed over.
\<close>

section \<open>Rendering\<close>

definition nl :: string where "nl = [char_of (10 :: nat)]"
definition tab :: string where "tab = [char_of (9 :: nat)]"

text \<open>The dash in the generated comment is U+2014, three bytes.\<close>

definition em_dash :: string where
  "em_dash = [char_of (226 :: nat), char_of (128 :: nat), char_of (148 :: nat)]"

definition split_families :: "ip list \<Rightarrow> string list \<times> string list" where
  "split_families ips =
     (map (\<lambda>i. ip_string (the (to4 i))) (filter (\<lambda>i. to4 i \<noteq> None) ips),
      map ip_string (filter (\<lambda>i. to4 i = None) ips))"

definition accept_line :: "string \<Rightarrow> string list \<Rightarrow> string" where
  "accept_line family addrs = (if addrs = [] then []
     else tab @ tab @ ''tcp dport 443 '' @ family @ '' daddr { '' @ join '', '' addrs @ '' } accept'' @ nl)"

definition egress_Render :: "string list \<Rightarrow> ip list \<Rightarrow> string" where
  "egress_Render hosts ips =
     (let (v4, v6) = split_families ips in
      ''# Tesseract proxy egress ruleset '' @ em_dash @ '' generated, do not edit.'' @ nl
      @ ''# Allowed broker hosts:'' @ nl
      @ concat (map (\<lambda>h. ''#   '' @ h @ nl) hosts)
      @ ''table inet tesseract_egress {'' @ nl
      @ tab @ ''chain output {'' @ nl
      @ tab @ tab @ ''type filter hook output priority 0; policy drop;'' @ nl
      @ tab @ tab @ ''ct state established,related accept'' @ nl
      @ tab @ tab @ ''oif lo accept'' @ nl
      @ accept_line ''ip'' v4 @ accept_line ''ip6'' v6
      @ tab @ ''}'' @ nl @ ''}'' @ nl)"

section \<open>Resolving\<close>

datatype resolve_err = LookupFailed string string | NoAddresses string

text \<open>The map from printed addresses to addresses, as an association list.\<close>

definition see :: "ip list \<Rightarrow> (string \<times> ip) list \<Rightarrow> (string \<times> ip) list" where
  "see ips seen = fold (\<lambda>i. AList.update (ip_string i) i) ips seen"

fun resolve_loop ::
    "(string \<Rightarrow> string + ip list) \<Rightarrow> string list \<Rightarrow> (string \<times> ip) list \<Rightarrow> resolve_err + (string \<times> ip) list" where
  "resolve_loop look [] seen = Inr seen"
| "resolve_loop look (h # hs) seen =
     (case look h of
        Inl e \<Rightarrow> Inl (LookupFailed h e)
      | Inr ips \<Rightarrow> check (ips = []) (NoAddresses h) (resolve_loop look hs (see ips seen)))"

definition sorted_values :: "(string \<times> ip) list \<Rightarrow> ip list" where
  "sorted_values seen = map (\<lambda>k. the (map_of seen k)) (sort (map fst seen))"

definition resolve_all :: "(string \<Rightarrow> string + ip list) \<Rightarrow> string list \<Rightarrow> resolve_err + ip list" where
  "resolve_all look hosts = andthen (resolve_loop look hosts []) (\<lambda>seen. Inr (sorted_values seen))"

section \<open>The generator\<close>

fun dedup_loop :: "string set \<Rightarrow> string list \<Rightarrow> string list" where
  "dedup_loop seen [] = []"
| "dedup_loop seen (s # ss) = (if s \<in> seen then dedup_loop seen ss else s # dedup_loop (insert s seen) ss)"

definition dedup_sorted :: "string list \<Rightarrow> string list" where
  "dedup_sorted ss = sort (dedup_loop {} ss)"

text \<open>
  The state of a generator, with the rulesets the applier has accepted, latest last. An applier is a
  function to an error or success.
\<close>

record generator =
  eg_hosts :: "string list"
  eg_poke :: bool
  eg_applied :: "string list"

datatype egress_err = ResolverRequired | ApplierRequired | EgressInterval
  | ResolveErr resolve_err | ApplyErr string

definition egress_New :: "bool \<Rightarrow> bool \<Rightarrow> int \<Rightarrow> egress_err + generator" where
  "egress_New resolver_given applier_given interval =
     check (\<not> resolver_given) ResolverRequired
    (check (\<not> applier_given) ApplierRequired
    (check (interval \<le> 0) EgressInterval
    (Inr \<lparr>eg_hosts = [], eg_poke = False, eg_applied = []\<rparr>)))"

definition update_hosts :: "string list \<Rightarrow> generator \<Rightarrow> generator" where
  "update_hosts hosts g = g\<lparr>eg_hosts := dedup_sorted hosts, eg_poke := True\<rparr>"

definition egress_Tick ::
    "(string \<Rightarrow> string + ip list) \<Rightarrow> (string \<Rightarrow> string + unit) \<Rightarrow> generator \<Rightarrow> (egress_err + unit) \<times> generator" where
  "egress_Tick look applier g =
     (if eg_hosts g = [] then (Inr (), g)
      else (case resolve_all look (eg_hosts g) of
        Inl e \<Rightarrow> (Inl (ResolveErr e), g)
      | Inr ips \<Rightarrow>
          (let ruleset = egress_Render (eg_hosts g) ips in
           case applier ruleset of
             Inl e \<Rightarrow> (Inl (ApplyErr e), g)
           | Inr _ \<Rightarrow> (Inr (), g\<lparr>eg_applied := eg_applied g @ [ruleset]\<rparr>))))"

text \<open>One turn of \<open>Run\<close>: woken by the timer or by a poke, which it takes; a failing tick is only logged.\<close>

datatype egress_event = EgressTimer | EgressPoke | HostsChanged "string list"

fun egress_step ::
    "(string \<Rightarrow> string + ip list) \<Rightarrow> (string \<Rightarrow> string + unit) \<Rightarrow> generator \<Rightarrow> egress_event \<Rightarrow> generator" where
  "egress_step look applier g EgressTimer = snd (egress_Tick look applier g)"
| "egress_step look applier g EgressPoke =
     (if eg_poke g then snd (egress_Tick look applier (g\<lparr>eg_poke := False\<rparr>)) else g)"
| "egress_step look applier g (HostsChanged hs) = update_hosts hs g"

section \<open>The companion program and the appliers\<close>

text \<open>
  The companion reads the bundle itself, without a signature check and with a lenient decoder:
  \<open>doc\<close> is what the decoder gives for the bytes, the brokers as id, host and enabled flag.
\<close>

definition read_bundle_hosts :: "(string \<times> string \<times> bool) list \<Rightarrow> string list" where
  "read_bundle_hosts doc = sort (map (\<lambda>b. fst (snd b)) (filter (\<lambda>b. snd (snd b)) doc))"

fun tool_resolve_loop ::
    "(string \<Rightarrow> string + string list) \<Rightarrow> string list \<Rightarrow> (string \<times> ip) list \<Rightarrow> resolve_err + (string \<times> ip) list" where
  "tool_resolve_loop look [] seen = Inr seen"
| "tool_resolve_loop look (h # hs) seen =
     (case look h of
        Inl e \<Rightarrow> Inl (LookupFailed h e)
      | Inr addrs \<Rightarrow> check (addrs = []) (NoAddresses h)
          (tool_resolve_loop look hs (see (map the (filter (\<lambda>i. i \<noteq> None) (map parse_ip addrs))) seen)))"

definition tool_resolve_all :: "(string \<Rightarrow> string + string list) \<Rightarrow> string list \<Rightarrow> resolve_err + ip list" where
  "tool_resolve_all look hosts = andthen (tool_resolve_loop look hosts []) (\<lambda>seen. Inr (sorted_values seen))"

definition tool_render :: "string list \<Rightarrow> ip list \<Rightarrow> string" where
  "tool_render hosts ips =
     (let v4 = map (\<lambda>i. ip_string (the (to4 i))) (filter (\<lambda>i. to4 i \<noteq> None) ips);
          v6 = map ip_string (filter (\<lambda>i. to4 i = None) ips) in
      ''# Tesseract proxy egress ruleset '' @ em_dash @ '' generated, do not edit.'' @ nl
      @ ''# Allowed broker hosts:'' @ nl
      @ concat (map (\<lambda>h. ''#   '' @ h @ nl) hosts)
      @ ''table inet tesseract_egress {'' @ nl
      @ tab @ ''chain output {'' @ nl
      @ tab @ tab @ ''type filter hook output priority 0; policy drop;'' @ nl
      @ tab @ tab @ ''ct state established,related accept'' @ nl
      @ tab @ tab @ ''oif lo accept'' @ nl
      @ (if v4 = [] then [] else tab @ tab @ ''tcp dport 443 ip daddr { '' @ join '', '' v4 @ '' } accept'' @ nl)
      @ (if v6 = [] then [] else tab @ tab @ ''tcp dport 443 ip6 daddr { '' @ join '', '' v6 @ '' } accept'' @ nl)
      @ tab @ ''}'' @ nl @ ''}'' @ nl)"

record tool_flags =
  tf_bundle :: path
  tf_apply :: bool
  tf_nft :: path

datatype tool_err = BundleRequired | ReadBundleErr | NoEnabledBrokers | ToolResolve resolve_err | ToolNft string

text \<open>
  \<open>run\<close>: \<open>read\<close> gives the decoded bundle of a path or fails, \<open>nft\<close> is \<open>nft -f -\<close> of the given binary.
  The result is what goes to the standard output and what \<open>nft\<close> got.
\<close>

definition tool_run ::
    "(path \<Rightarrow> (string \<times> string \<times> bool) list option) \<Rightarrow> (string \<Rightarrow> string + string list)
       \<Rightarrow> (path \<Rightarrow> string \<Rightarrow> string + unit) \<Rightarrow> tool_flags \<Rightarrow> tool_err + string \<times> string option" where
  "tool_run read look nft fl =
     check (tf_bundle fl = []) BundleRequired
    (case read (tf_bundle fl) of
       None \<Rightarrow> Inl ReadBundleErr
     | Some doc \<Rightarrow>
         (let hosts = read_bundle_hosts doc in
          check (hosts = []) NoEnabledBrokers
         (andthen (wrap_err ToolResolve (tool_resolve_all look hosts)) (\<lambda>ips.
            (let ruleset = tool_render hosts ips in
             if \<not> tf_apply fl then Inr (ruleset, None)
             else andthen (wrap_err ToolNft (nft (tf_nft fl) ruleset)) (\<lambda>_. Inr ([], Some ruleset)))))))"

definition default_tool_flags :: tool_flags where
  "default_tool_flags = \<lparr>tf_bundle = [], tf_apply = False, tf_nft = ''nft''\<rparr>"

text \<open>
  \<open>NftApplier\<close> runs \<open>nft -f -\<close>; \<open>HelperApplier\<close> runs the helper with no arguments and the ruleset on its
  standard input. When the helper is the companion program it sees its default flags, and it reads
  nothing from its standard input.
\<close>

definition nft_applier :: "(path \<Rightarrow> string \<Rightarrow> string + unit) \<Rightarrow> path \<Rightarrow> string \<Rightarrow> string + unit" where
  "nft_applier nft p ruleset = nft (if p = [] then ''nft'' else p) ruleset"

definition helper_applier :: "(path \<Rightarrow> string \<Rightarrow> string + unit) \<Rightarrow> path \<Rightarrow> string \<Rightarrow> string + unit" where
  "helper_applier exec p ruleset =
     check (p = []) ''egress: HelperApplier.Path is required'' (exec p ruleset)"

definition companion_exec ::
    "(path \<Rightarrow> (string \<times> string \<times> bool) list option) \<Rightarrow> (string \<Rightarrow> string + string list)
       \<Rightarrow> (path \<Rightarrow> string \<Rightarrow> string + unit) \<Rightarrow> path \<Rightarrow> string \<Rightarrow> string + unit" where
  "companion_exec read look nft p stdin =
     (case tool_run read look nft default_tool_flags of Inl _ \<Rightarrow> Inl ''exit status 1'' | Inr _ \<Rightarrow> Inr ())"

text \<open>\<open>enabledHosts\<close> and \<open>netResolver\<close> of \<open>cmd/proxy/main.go\<close>.\<close>

definition enabled_hosts :: "broker_bundle \<Rightarrow> string list" where
  "enabled_hosts b = map bp_host (filter enabled (brokers b))"

definition net_resolver :: "(string \<Rightarrow> string + string list) \<Rightarrow> string \<Rightarrow> string + ip list" where
  "net_resolver look h = (case look h of
       Inl e \<Rightarrow> Inl e
     | Inr addrs \<Rightarrow> Inr (map the (filter (\<lambda>i. i \<noteq> None) (map parse_ip addrs))))"

section \<open>Resolution\<close>

lemma see_keys: "fst ` set (see ips seen) = fst ` set seen \<union> ip_string ` set ips"
  unfolding see_def
proof (induction ips arbitrary: seen)
  case (Cons i ips)
  have "fst ` set (AList.update (ip_string i) i seen) = insert (ip_string i) (fst ` set seen)"
    by (metis dom_map_of_conv_image_fst dom_fun_upd option.distinct(1) update_conv')
  with Cons show ?case by auto
qed simp

lemma see_distinct: "distinct (map fst seen) \<Longrightarrow> distinct (map fst (see ips seen))"
  unfolding see_def by (induction ips arbitrary: seen) (auto simp: distinct_update)

lemma see_values: "(\<forall>(k, v)\<in>set seen. k = ip_string v) \<Longrightarrow> \<forall>(k, v)\<in>set (see ips seen). k = ip_string v"
  unfolding see_def
proof (induction ips arbitrary: seen)
  case (Cons i ips)
  have "\<forall>(k, v)\<in>set (AList.update (ip_string i) i seen). k = ip_string v"
    using Cons.prems by (induction seen) auto
  with Cons show ?case by simp
qed simp

definition seen_ok :: "(string \<times> ip) list \<Rightarrow> bool" where
  "seen_ok seen = (distinct (map fst seen) \<and> (\<forall>(k, v)\<in>set seen. k = ip_string v))"

lemma see_ok: "seen_ok seen \<Longrightarrow> seen_ok (see ips seen)"
  unfolding seen_ok_def using see_distinct see_values by blast

lemma sorted_values_spec:
  assumes "seen_ok seen"
  shows "map ip_string (sorted_values seen) = sort (map fst seen)"
proof -
  have "ip_string (the (map_of seen k)) = k" if "k \<in> set (map fst seen)" for k
  proof -
    from that obtain v where v: "map_of seen k = Some v" by (metis map_of_eq_None_iff list.set_map option.exhaust)
    then have "(k, v) \<in> set seen" by (rule map_of_SomeD)
    with assms v show ?thesis by (auto simp: seen_ok_def)
  qed
  then have "map (\<lambda>k. ip_string (the (map_of seen k))) (sort (map fst seen)) = sort (map fst seen)"
    by (intro map_idI) simp
  then show ?thesis by (simp add: sorted_values_def comp_def)
qed

lemma resolve_loop_spec:
  "resolve_loop look hs seen = Inr out \<Longrightarrow> seen_ok seen \<Longrightarrow>
     seen_ok out \<and> (\<forall>h\<in>set hs. \<exists>ips. look h = Inr ips \<and> ips \<noteq> [])
     \<and> fst ` set out = fst ` set seen \<union> {ip_string i | h ips i. h \<in> set hs \<and> look h = Inr ips \<and> i \<in> set ips}"
proof (induction hs arbitrary: seen)
  case (Cons h hs)
  then obtain ips where l: "look h = Inr ips" "ips \<noteq> []" and rest: "resolve_loop look hs (see ips seen) = Inr out"
    by (auto simp: check_def split: sum.splits if_splits)
  from Cons.IH [OF rest see_ok [OF Cons.prems(2)]] l show ?case by (auto simp: see_keys)
qed auto

lemma resolve_loop_total:
  "\<forall>h\<in>set hs. \<exists>ips. look h = Inr ips \<and> ips \<noteq> [] \<Longrightarrow> \<exists>out. resolve_loop look hs seen = Inr out"
  by (induction hs arbitrary: seen) (auto simp: check_def)

lemma dedup_loop_spec: "set (dedup_loop seen ss) = set ss - seen \<and> distinct (dedup_loop seen ss)"
  by (induction ss arbitrary: seen) auto

lemma dedup_sorted_spec: "set (dedup_sorted ss) = set ss \<and> distinct (dedup_sorted ss) \<and> sorted (dedup_sorted ss)"
  using dedup_loop_spec [of "{}" ss] by (simp add: dedup_sorted_def)

lemma tool_resolve_look:
  "\<forall>h\<in>set hs. \<forall>addrs. look h = Inr addrs \<longrightarrow> (\<exists>a\<in>set addrs. parse_ip a \<noteq> None) \<Longrightarrow>
     tool_resolve_loop look hs seen = resolve_loop (net_resolver look) hs seen"
proof (induction hs arbitrary: seen)
  case (Cons h hs)
  show ?case
  proof (cases "look h")
    case (Inr addrs)
    with Cons.prems have "addrs \<noteq> []" "filter (\<lambda>i. i \<noteq> None) (map parse_ip addrs) \<noteq> []"
      by (auto simp: filter_empty_conv)
    with Cons Inr show ?thesis by (simp add: net_resolver_def check_def)
  qed (simp add: net_resolver_def)
qed simp

section \<open>What a ruleset lets out\<close>

text \<open>
  The chain as data, in the order of its lines, and what it does with a new outbound connection: the
  first rule that matches decides, and the policy drops the rest.
\<close>

datatype nft_rule = CtEstablished | OifLo | Tcp443To "string set"

record packet =
  pk_established :: bool
  pk_loopback :: bool
  pk_tcp :: bool
  pk_dport :: nat
  pk_daddr :: string

fun rule_accepts :: "nft_rule \<Rightarrow> packet \<Rightarrow> bool" where
  "rule_accepts CtEstablished p = pk_established p"
| "rule_accepts OifLo p = pk_loopback p"
| "rule_accepts (Tcp443To addrs) p = (pk_tcp p \<and> pk_dport p = 443 \<and> pk_daddr p \<in> addrs)"

definition chain_accepts :: "nft_rule list \<Rightarrow> packet \<Rightarrow> bool" where
  "chain_accepts rs p = list_ex (\<lambda>r. rule_accepts r p) rs"

fun rule_text :: "nat \<Rightarrow> string list \<Rightarrow> nft_rule \<Rightarrow> string" where
  "rule_text v as CtEstablished = tab @ tab @ ''ct state established,related accept'' @ nl"
| "rule_text v as OifLo = tab @ tab @ ''oif lo accept'' @ nl"
| "rule_text v as (Tcp443To _) = accept_line (if v = 4 then ''ip'' else ''ip6'') as"

text \<open>The rules the code writes for a list of addresses, each with the address list as printed.\<close>

definition rules_of :: "ip list \<Rightarrow> (nat \<times> string list \<times> nft_rule) list" where
  "rules_of ips =
     [(0, [], CtEstablished), (0, [], OifLo)]
     @ (let v4 = fst (split_families ips) in if v4 = [] then [] else [(4, v4, Tcp443To (set v4))])
     @ (let v6 = snd (split_families ips) in if v6 = [] then [] else [(6, v6, Tcp443To (set v6))])"

definition chain_of :: "ip list \<Rightarrow> nft_rule list" where
  "chain_of ips = map (\<lambda>r. snd (snd r)) (rules_of ips)"

definition header_text :: "string list \<Rightarrow> string" where
  "header_text hosts =
     ''# Tesseract proxy egress ruleset '' @ em_dash @ '' generated, do not edit.'' @ nl
      @ ''# Allowed broker hosts:'' @ nl
      @ concat (map (\<lambda>h. ''#   '' @ h @ nl) hosts)
      @ ''table inet tesseract_egress {'' @ nl
      @ tab @ ''chain output {'' @ nl
      @ tab @ tab @ ''type filter hook output priority 0; policy drop;'' @ nl"

lemma render_rules:
  "egress_Render hosts ips = header_text hosts @ concat (map (\<lambda>(v, as, r). rule_text v as r) (rules_of ips))
     @ tab @ ''}'' @ nl @ ''}'' @ nl"
  by (simp add: egress_Render_def header_text_def rules_of_def accept_line_def Let_def split: prod.splits)

definition address_text :: "ip \<Rightarrow> string" where
  "address_text i = (case to4 i of Some v4 \<Rightarrow> ip_string v4 | None \<Rightarrow> ip_string i)"

lemma split_families_addresses:
  "set (fst (split_families ips)) \<union> set (snd (split_families ips)) = address_text ` set ips"
  by (induction ips) (auto simp: split_families_def address_text_def)

lemma chain_accepts_iff:
  "chain_accepts (chain_of ips) p \<longleftrightarrow>
     pk_established p \<or> pk_loopback p \<or> pk_tcp p \<and> pk_dport p = 443 \<and> pk_daddr p \<in> address_text ` set ips"
  unfolding split_families_addresses [symmetric]
  by (auto simp: chain_accepts_def chain_of_def rules_of_def Let_def)

lemma seen_ok_Nil: "seen_ok []"
  by (simp add: seen_ok_def)

lemma resolve_all_ok:
  "is_ok (resolve_all look hosts) \<longleftrightarrow> (\<forall>h\<in>set hosts. \<exists>ips. look h = Inr ips \<and> ips \<noteq> [])"
proof
  assume "is_ok (resolve_all look hosts)"
  then obtain seen where "resolve_loop look hosts [] = Inr seen"
    by (auto simp: resolve_all_def dest!: is_ok_Inr)
  then show "\<forall>h\<in>set hosts. \<exists>ips. look h = Inr ips \<and> ips \<noteq> []"
    using resolve_loop_spec [OF _ seen_ok_Nil] by blast
next
  assume "\<forall>h\<in>set hosts. \<exists>ips. look h = Inr ips \<and> ips \<noteq> []"
  from resolve_loop_total [OF this, of "[]"] show "is_ok (resolve_all look hosts)"
    by (auto simp: resolve_all_def)
qed

lemma resolve_all_values:
  "resolve_all look hosts = Inr out \<longrightarrow>
     sorted (map ip_string out) \<and> distinct (map ip_string out)
     \<and> ip_string ` set out = {ip_string i | h ips i. h \<in> set hosts \<and> look h = Inr ips \<and> i \<in> set ips}"
proof
  assume "resolve_all look hosts = Inr out"
  then obtain seen where s: "resolve_loop look hosts [] = Inr seen" "out = sorted_values seen"
    by (auto simp: resolve_all_def)
  note r = resolve_loop_spec [OF s(1) seen_ok_Nil]
  then have m: "map ip_string out = sort (map fst seen)" using sorted_values_spec s(2) by blast
  have "ip_string ` set out = set (map ip_string out)" by simp
  also have "\<dots> = fst ` set seen" unfolding m by simp
  finally have "ip_string ` set out = {ip_string i | h ips i. h \<in> set hosts \<and> look h = Inr ips \<and> i \<in> set ips}"
    using r by simp
  with m r show "sorted (map ip_string out) \<and> distinct (map ip_string out)
     \<and> ip_string ` set out = {ip_string i | h ips i. h \<in> set hosts \<and> look h = Inr ips \<and> i \<in> set ips}"
    by (simp add: seen_ok_def)
qed

section \<open>Properties\<close>


text \<open>
  Resolution succeeds exactly when every host has at least one address; the result holds, once
  each and sorted as text, exactly the addresses of all hosts.
\<close>

theorem resolve_all_spec:
  "(is_ok (resolve_all look hosts) \<longleftrightarrow> (\<forall>h\<in>set hosts. \<exists>ips. look h = Inr ips \<and> ips \<noteq> []))
   \<and> (\<forall>out. resolve_all look hosts = Inr out \<longrightarrow>
       sorted (map ip_string out) \<and> distinct (map ip_string out)
       \<and> ip_string ` set out = {ip_string i | h ips i. h \<in> set hosts \<and> look h = Inr ips \<and> i \<in> set ips})"
proof (intro conjI allI)
  show "is_ok (resolve_all look hosts) \<longleftrightarrow> (\<forall>h\<in>set hosts. \<exists>ips. look h = Inr ips \<and> ips \<noteq> [])"
    by (rule resolve_all_ok)
qed (rule resolve_all_values)

text \<open>
  A tick hands over either nothing, leaving the ruleset in force alone, or one complete ruleset, the
  rendering of all hosts and the addresses of all of them; it hands over nothing when there are no
  hosts or any host does not resolve.
\<close>

theorem egress_tick:
  assumes "egress_Tick look applier g = (r, g')"
  shows "eg_hosts g' = eg_hosts g
      \<and> (eg_applied g' = eg_applied g
         \<or> is_ok r \<and> (\<exists>ips. resolve_all look (eg_hosts g) = Inr ips
              \<and> eg_applied g' = eg_applied g @ [egress_Render (eg_hosts g) ips]))
      \<and> ((\<exists>h\<in>set (eg_hosts g). \<not> (\<exists>ips. look h = Inr ips \<and> ips \<noteq> [])) \<longrightarrow> \<not> is_ok r \<and> g' = g)"
proof -
  have "\<not> is_ok (resolve_all look (eg_hosts g))"
    if "\<exists>h\<in>set (eg_hosts g). \<not> (\<exists>ips. look h = Inr ips \<and> ips \<noteq> [])"
    using that by (auto simp: resolve_all_ok)
  with assms show ?thesis
    by (auto simp: egress_Tick_def Let_def split: if_splits sum.splits)
qed

text \<open>
  The companion program renders the text the proxy renders; for a bundle whose enabled brokers
  have different hosts, each with an address that parses, it computes the same ruleset as the proxy.
\<close>

theorem companion_agrees:
  assumes "distinct (enabled_hosts b)"
    and "\<forall>h\<in>set (enabled_hosts b). \<forall>addrs. look h = Inr addrs \<longrightarrow> (\<exists>a\<in>set addrs. parse_ip a \<noteq> None)"
  shows "tool_render = egress_Render
      \<and> read_bundle_hosts (map (\<lambda>bp. (bp_id bp, bp_host bp, enabled bp)) (brokers b)) = dedup_sorted (enabled_hosts b)
      \<and> tool_resolve_all look (dedup_sorted (enabled_hosts b)) = resolve_all (net_resolver look) (dedup_sorted (enabled_hosts b))"
proof -
  have "tool_render hosts ips = egress_Render hosts ips" for hosts ips
    by (simp add: tool_render_def egress_Render_def split_families_def accept_line_def Let_def)
  moreover have hosts: "read_bundle_hosts (map (\<lambda>bp. (bp_id bp, bp_host bp, enabled bp)) (brokers b)) = sort (enabled_hosts b)"
    by (simp add: read_bundle_hosts_def enabled_hosts_def filter_map comp_def)
  moreover have "sort (enabled_hosts b) = dedup_sorted (enabled_hosts b)"
    using assms(1) dedup_sorted_spec [of "enabled_hosts b"]
    by (intro sorted_distinct_set_unique) auto
  moreover have "tool_resolve_all look (dedup_sorted (enabled_hosts b)) = resolve_all (net_resolver look) (dedup_sorted (enabled_hosts b))"
    using assms(2) dedup_sorted_spec [of "enabled_hosts b"]
    by (simp add: tool_resolve_all_def resolve_all_def tool_resolve_look)
  ultimately show ?thesis by (simp add: fun_eq_iff)
qed

text \<open>
  With the companion program as helper no ruleset is ever applied: the helper is run without
  arguments, and the companion refuses to run without its bundle flag. Every tick that gets as far
  as applying fails.
\<close>

theorem helper_never_applies:
  assumes "egress_Tick look (helper_applier (companion_exec read dns nft) p) g = (r, g')"
  shows "eg_applied g' = eg_applied g \<and> (eg_hosts g \<noteq> [] \<longrightarrow> \<not> is_ok r)"
proof -
  have "helper_applier (companion_exec read dns nft) p ruleset \<noteq> Inr u" for ruleset u
    by (simp add: helper_applier_def companion_exec_def tool_run_def default_tool_flags_def check_def)
  with assms show ?thesis
    by (auto simp: egress_Tick_def Let_def split: if_splits sum.splits)
qed

section \<open>Witnesses\<close>

definition ex_dns :: "string \<Rightarrow> string + string list" where
  "ex_dns h = (if h = ''api.acme.com'' then Inr [''10.1.2.3''] else Inl ''no such host'')"

definition ex_generator :: generator where
  "ex_generator = \<lparr>eg_hosts = [''api.acme.com''], eg_poke = False, eg_applied = []\<rparr>"

lemma ex_address: "parse_ip ''10.1.2.3'' \<noteq> None" by code_simp

lemma ex_resolves: "is_ok (resolve_all (net_resolver ex_dns) [''api.acme.com''])"
  using ex_address by (auto simp: resolve_all_ok net_resolver_def ex_dns_def)

theorem resolve_all_spec_witness:
  "\<exists>out. resolve_all (net_resolver ex_dns) [''api.acme.com''] = Inr out \<and> distinct (map ip_string out)"
  using resolve_all_spec [of "net_resolver ex_dns" "[''api.acme.com'']"] is_ok_Inr [OF ex_resolves] by blast

theorem egress_tick_witness:
  "\<exists>r g'. egress_Tick (net_resolver ex_dns) (\<lambda>_. Inr ()) ex_generator = (r, g') \<and> is_ok r
     \<and> eg_hosts g' = [''api.acme.com'']"
proof -
  have "is_ok (fst (egress_Tick (net_resolver ex_dns) (\<lambda>_. Inr ()) ex_generator))"
    using is_ok_Inr [OF ex_resolves] by (auto simp: egress_Tick_def ex_generator_def Let_def)
  with egress_tick [OF prod.collapse [symmetric], of "net_resolver ex_dns" "\<lambda>_. Inr ()" ex_generator]
  show ?thesis by (metis ex_generator_def generator.select_convs(1) prod.collapse)
qed

definition ex_bundle_hosts :: broker_bundle where
  "ex_bundle_hosts = \<lparr>schema_version = 1, bundle_version = ''1'', issued_at = 1, issuer = ''t'',
     min_proxy_version = ''1.0.0'', brokers = [\<lparr>bp_id = ''acme'', display_name = ''A'', bp_host = ''api.acme.com'',
       enabled = True, order_endpoints = [],
       idempotency = \<lparr>client_order_id_header = [], client_order_id_body_path = [], echo_in_response_path = []\<rparr>,
       rate_limit = \<lparr>per_user_rps = 0, per_user_burst = 0\<rparr>\<rparr>]\<rparr>"

theorem companion_agrees_witness:
  "tool_resolve_all ex_dns [''api.acme.com''] = resolve_all (net_resolver ex_dns) [''api.acme.com'']"
proof -
  have d: "distinct (enabled_hosts ex_bundle_hosts)" by (simp add: enabled_hosts_def ex_bundle_hosts_def)
  from ex_address have p: "\<forall>h\<in>set (enabled_hosts ex_bundle_hosts). \<forall>addrs. ex_dns h = Inr addrs \<longrightarrow> (\<exists>a\<in>set addrs. parse_ip a \<noteq> None)"
    by (auto simp: ex_dns_def enabled_hosts_def ex_bundle_hosts_def)
  have "dedup_sorted (enabled_hosts ex_bundle_hosts) = [''api.acme.com'']"
    by (simp add: enabled_hosts_def ex_bundle_hosts_def dedup_sorted_def)
  with companion_agrees [OF d p] show ?thesis by simp
qed

theorem helper_never_applies_witness:
  "\<not> is_ok (fst (egress_Tick (net_resolver ex_dns)
      (helper_applier (companion_exec (\<lambda>_. Some []) ex_dns (\<lambda>_ _. Inr ())) ''/usr/local/bin/helper'') ex_generator))"
proof -
  have "eg_hosts ex_generator \<noteq> []" by (simp add: ex_generator_def)
  with helper_never_applies [OF prod.collapse [symmetric], of "net_resolver ex_dns" "\<lambda>_. Some []" ex_dns
      "\<lambda>_ _. Inr ()" "''/usr/local/bin/helper''" ex_generator]
  show ?thesis by simp
qed

end
