(* ===== verification/Config.thy ===== *)
theory Config
  imports FileSystem
begin

text \<open>
  The operator configuration and the logger: \<open>internal/config/config.go\<close> and \<open>internal/log/log.go\<close>.
  The strict YAML decoder is third-party code and a parameter, as is \<open>url.Parse\<close> of the standard
  library, of which only the scheme and the host are used. Durations are nanoseconds.
\<close>

section \<open>The logger\<close>

datatype log_level = LevelDebug | LevelInfo | LevelWarn | LevelError

datatype log_err = OutputRequired | UnknownLevel string | UnknownFormat string

datatype log_handler = JSONHandler log_level | TextHandler log_level

definition parse_level :: "string \<Rightarrow> log_err + log_level" where
  "parse_level s =
     (let t = to_lower (trim_space s) in
      if t = [] \<or> t = ''info'' then Inr LevelInfo
      else if t = ''debug'' then Inr LevelDebug
      else if t = ''warn'' \<or> t = ''warning'' then Inr LevelWarn
      else if t = ''error'' then Inr LevelError
      else Inl (UnknownLevel s))"

definition log_New :: "string \<Rightarrow> string \<Rightarrow> bool \<Rightarrow> log_err + log_handler" where
  "log_New level format output_given =
     check (\<not> output_given) OutputRequired
    (andthen (parse_level level) (\<lambda>lvl.
      let t = to_lower (trim_space format) in
      if t = [] \<or> t = ''json'' then Inr (JSONHandler lvl)
      else if t = ''text'' then Inr (TextHandler lvl)
      else Inl (UnknownFormat format)))"

section \<open>Addresses\<close>

datatype addr_err = MissingPort | TooManyColons | MissingBracket | UnexpectedOpen | UnexpectedClose

text \<open>\<open>strings.LastIndexByte\<close>.\<close>

definition last_index_byte :: "string \<Rightarrow> char \<Rightarrow> nat option" where
  "last_index_byte s b = map_option (\<lambda>i. length s - 1 - i) (index_byte (rev s) b)"

definition split_host_port :: "string \<Rightarrow> addr_err + string \<times> string" where
  "split_host_port s =
     (case last_index_byte s (CHR '':'') of
        None \<Rightarrow> Inl MissingPort
      | Some i \<Rightarrow>
          (let brackets = (\<lambda>host j k.
             check (CHR ''['' \<in> set (drop j s)) UnexpectedOpen
            (check (CHR '']'' \<in> set (drop k s)) UnexpectedClose
            (Inr (host, drop (i + 1) s)))) in
          if hd s = CHR ''[''
          then (case index_byte s (CHR '']'') of
              None \<Rightarrow> Inl MissingBracket
            | Some end' \<Rightarrow>
                if end' + 1 = length s then Inl MissingPort
                else if end' + 1 = i then brackets (take (end' - 1) (drop 1 s)) 1 (end' + 1)
                else if s ! (end' + 1) = CHR '':'' then Inl TooManyColons
                else Inl MissingPort)
          else (let host = take i s in
              check (CHR '':'' \<in> set host) TooManyColons (brackets host 0 0))))"

datatype hostport_err = BadHostPort string addr_err | EmptyPort string

definition validate_host_port :: "string \<Rightarrow> hostport_err + unit" where
  "validate_host_port s =
     andthen (wrap_err (BadHostPort s) (split_host_port s)) (\<lambda>(host, port).
       check (port = []) (EmptyPort s) (Inr ()))"

section \<open>The configuration\<close>

record listen =
  order_plane :: string
  admin_plane :: string

record mtls_block =
  server_cert :: string
  server_key :: string
  client_ca :: string
  allowed_order_serials :: "string list"
  allowed_admin_serials :: "string list"

record refresh_block =
  rf_enabled :: bool
  rf_url :: string
  rf_interval :: int

record profile_bundle_block =
  pb_path :: string
  pb_sig_path :: string
  pb_pubkey_path :: string
  pb_refresh :: refresh_block

record audit_block =
  ab_path :: string
  rotation_mb :: int
  retain_count :: int

record log_block =
  lb_level :: string
  lb_format :: string

record binary_block =
  bb_current :: string
  bb_previous :: string
  bb_staged :: string
  bb_pubkey :: string

record egress_block =
  eb_enabled :: bool
  eb_refresh :: int
  nft_path :: string
  helper_path :: string

record config =
  cfg_listen :: listen
  cfg_mtls :: mtls_block
  cfg_bundle :: profile_bundle_block
  cfg_audit :: audit_block
  cfg_log :: log_block
  cfg_binary :: binary_block
  cfg_egress :: egress_block

datatype config_err = OrderPlaneRequired | OrderPlaneBad hostport_err | AdminPlaneBad hostport_err
  | FieldRequired string | NoSerialAllowed | RefreshUrlRequired | RefreshUrlBad string | RefreshInterval
  | AuditPathRequired | RotationMb | RetainCount | LogLevelUnknown string | LogFormatUnknown string
  | EgressRefresh | EgressPath | ConfigOpen os_err | ConfigYaml | ConfigExtraDocument | ConfigTrailing

text \<open>
  Three of the checks range over a map literal from option names to values, in an order Go leaves open;
  \<open>order\<close> puts the entries of such a map into that order.
\<close>

type_synonym map_order = "(string \<times> string) list \<Rightarrow> (string \<times> string) list"

definition map_ordering :: "map_order \<Rightarrow> bool" where
  "map_ordering order = (\<forall>es. set (order es) = set es)"

definition require_all :: "map_order \<Rightarrow> (string \<times> string) list \<Rightarrow> config_err + unit" where
  "require_all order es =
     (case find (\<lambda>e. trim_space (snd e) = []) (order es) of
        Some e \<Rightarrow> Inl (FieldRequired (fst e)) | None \<Rightarrow> Inr ())"

definition listen_validate :: "listen \<Rightarrow> config_err + unit" where
  "listen_validate l =
     check (order_plane l = []) OrderPlaneRequired
    (andthen (wrap_err OrderPlaneBad (validate_host_port (order_plane l))) (\<lambda>_.
       if admin_plane l \<noteq> [] then wrap_err AdminPlaneBad (validate_host_port (admin_plane l)) else Inr ()))"

definition mtls_validate :: "map_order \<Rightarrow> mtls_block \<Rightarrow> config_err + unit" where
  "mtls_validate order m =
     andthen (require_all order [(''mtls.server_cert'', server_cert m), (''mtls.server_key'', server_key m),
                                 (''mtls.client_ca'', client_ca m)]) (\<lambda>_.
       check (length (allowed_order_serials m) + length (allowed_admin_serials m) = 0) NoSerialAllowed (Inr ()))"

definition refresh_validate :: "(string \<Rightarrow> (string \<times> string) option) \<Rightarrow> refresh_block \<Rightarrow> config_err + unit" where
  "refresh_validate parse_url r =
     (if \<not> rf_enabled r then Inr ()
      else check (rf_url r = []) RefreshUrlRequired
          (check (case parse_url (rf_url r) of None \<Rightarrow> True
                  | Some (scheme, host) \<Rightarrow> scheme \<noteq> ''http'' \<and> scheme \<noteq> ''https'' \<or> host = []) (RefreshUrlBad (rf_url r))
          (check (rf_interval r \<le> 0) RefreshInterval (Inr ()))))"

definition profile_bundle_validate ::
    "map_order \<Rightarrow> (string \<Rightarrow> (string \<times> string) option) \<Rightarrow> profile_bundle_block \<Rightarrow> config_err + unit" where
  "profile_bundle_validate order parse_url p =
     andthen (require_all order [(''profile_bundle.path'', pb_path p), (''profile_bundle.sig_path'', pb_sig_path p),
                                 (''profile_bundle.pubkey_path'', pb_pubkey_path p)]) (\<lambda>_.
       refresh_validate parse_url (pb_refresh p))"

definition audit_validate :: "audit_block \<Rightarrow> config_err + unit" where
  "audit_validate a =
     check (trim_space (ab_path a) = []) AuditPathRequired
    (check (rotation_mb a \<le> 0) RotationMb
    (check (retain_count a \<le> 0) RetainCount (Inr ())))"

definition log_validate :: "log_block \<Rightarrow> config_err + unit" where
  "log_validate l =
     check (to_lower (trim_space (lb_level l)) \<notin> set [[], ''debug'', ''info'', ''warn'', ''warning'', ''error''])
       (LogLevelUnknown (lb_level l))
    (check (to_lower (trim_space (lb_format l)) \<notin> set [[], ''json'', ''text'']) (LogFormatUnknown (lb_format l))
    (Inr ()))"

definition binary_is_zero :: "binary_block \<Rightarrow> bool" where
  "binary_is_zero b = (bb_current b = [] \<and> bb_previous b = [] \<and> bb_staged b = [] \<and> bb_pubkey b = [])"

definition binary_validate :: "map_order \<Rightarrow> binary_block \<Rightarrow> config_err + unit" where
  "binary_validate order b =
     (if binary_is_zero b then Inr ()
      else require_all order [(''binary.current_path'', bb_current b), (''binary.previous_path'', bb_previous b),
                              (''binary.staged_path'', bb_staged b), (''binary.pubkey_path'', bb_pubkey b)])"

definition egress_validate :: "egress_block \<Rightarrow> config_err + unit" where
  "egress_validate e =
     (if \<not> eb_enabled e then Inr ()
      else check (eb_refresh e \<le> 0) EgressRefresh
          (check (nft_path e = [] \<and> helper_path e = []) EgressPath (Inr ())))"

definition config_validate :: "map_order \<Rightarrow> (string \<Rightarrow> (string \<times> string) option) \<Rightarrow> config \<Rightarrow> config_err + unit" where
  "config_validate order parse_url c =
     andthen (listen_validate (cfg_listen c)) (\<lambda>_.
     andthen (mtls_validate order (cfg_mtls c)) (\<lambda>_.
     andthen (profile_bundle_validate order parse_url (cfg_bundle c)) (\<lambda>_.
     andthen (audit_validate (cfg_audit c)) (\<lambda>_.
     andthen (log_validate (cfg_log c)) (\<lambda>_.
     andthen (binary_validate order (cfg_binary c)) (\<lambda>_.
       egress_validate (cfg_egress c)))))))"

definition listen_changed :: "config \<Rightarrow> config \<Rightarrow> bool" where
  "listen_changed c other = (cfg_listen c \<noteq> cfg_listen other)"

datatype config_tail = MoreDocuments | NoMoreInput | BadTrailing

definition config_Parse ::
    "(bytes \<Rightarrow> config option) \<Rightarrow> (bytes \<Rightarrow> config_tail) \<Rightarrow> map_order \<Rightarrow> (string \<Rightarrow> (string \<times> string) option)
       \<Rightarrow> bytes \<Rightarrow> config_err + config" where
  "config_Parse decode rest order parse_url data =
     (case decode data of
        None \<Rightarrow> Inl ConfigYaml
      | Some c \<Rightarrow> (case rest data of
            MoreDocuments \<Rightarrow> Inl ConfigExtraDocument
          | BadTrailing \<Rightarrow> Inl ConfigTrailing
          | NoMoreInput \<Rightarrow> andthen (config_validate order parse_url c) (\<lambda>_. Inr c)))"

definition config_Load ::
    "(bytes \<Rightarrow> config option) \<Rightarrow> (bytes \<Rightarrow> config_tail) \<Rightarrow> map_order \<Rightarrow> (string \<Rightarrow> (string \<times> string) option)
       \<Rightarrow> path \<Rightarrow> world \<Rightarrow> (config_err + config) \<times> world" where
  "config_Load decode rest order parse_url p w =
     (case os_read_file p w of
        (Inl e, w') \<Rightarrow> (Inl (ConfigOpen e), w')
      | (Inr data, w') \<Rightarrow> (config_Parse decode rest order parse_url data, w'))"

section \<open>Splitting an address\<close>

lemma last_index_append:
  "b \<notin> set p \<Longrightarrow> last_index_byte (h @ b # p) b = Some (length h)"
  using index_byte_append [of b "rev p" "rev h"] by (simp add: last_index_byte_def)

lemma last_index_None: "last_index_byte s b = None \<longleftrightarrow> b \<notin> set s"
  by (simp add: last_index_byte_def)

lemma last_index_Some:
  assumes "last_index_byte s b = Some i"
  shows "s = take i s @ b # drop (i + 1) s \<and> b \<notin> set (drop (i + 1) s) \<and> i < length s"
proof -
  from assms have "b \<in> set s" by (metis last_index_None option.distinct(1))
  then obtain h p where s: "s = h @ b # p" "b \<notin> set p" by (metis split_list_last)
  with last_index_append [OF s(2), of h] assms have "i = length h" by simp
  with s show ?thesis by simp
qed

definition plain_host :: "string \<Rightarrow> bool" where
  "plain_host h = (CHR '':'' \<notin> set h \<and> CHR ''['' \<notin> set h \<and> CHR '']'' \<notin> set h)"

lemma split_plain:
  assumes "plain_host h" and "plain_host p"
  shows "split_host_port (h @ CHR '':'' # p) = Inr (h, p)"
proof -
  have "hd (h @ CHR '':'' # p) \<noteq> CHR ''[''"
    using assms(1) by (cases h) (auto simp: plain_host_def)
  with assms show ?thesis
    by (simp add: split_host_port_def last_index_append plain_host_def check_def)
qed

lemma split_bracketed:
  assumes "CHR ''['' \<notin> set h" "CHR '']'' \<notin> set h" and "plain_host p"
  shows "split_host_port (CHR ''['' # h @ CHR '']'' # CHR '':'' # p) = Inr (h, p)"
proof -
  let ?s = "CHR ''['' # h @ CHR '']'' # CHR '':'' # p"
  have i: "last_index_byte ?s (CHR '':'') = Some (length h + 2)"
    using last_index_append [of "CHR '':''" p "CHR ''['' # h @ [CHR '']'']"] assms(3) by (simp add: plain_host_def)
  have e: "index_byte (h @ CHR '']'' # CHR '':'' # p) (CHR '']'') = Some (length h)"
    by (rule index_byte_append [OF assms(2)])
  show ?thesis
    using assms by (simp add: split_host_port_def i e plain_host_def check_def)
qed

lemma split_host_port_sound:
  assumes "split_host_port s = Inr (h, p)"
  shows "plain_host p \<and> (plain_host h \<and> s = h @ CHR '':'' # p
     \<or> CHR ''['' \<notin> set h \<and> CHR '']'' \<notin> set h \<and> s = CHR ''['' # h @ CHR '']'' # CHR '':'' # p)"
proof -
  from assms obtain i where i: "last_index_byte s (CHR '':'') = Some i"
    by (auto simp: split_host_port_def split: option.splits)
  note si = last_index_Some [OF i]
  have p: "p = drop (i + 1) s"
    using assms by (auto simp: split_host_port_def i check_def Let_def split: option.splits if_splits)
  show ?thesis
  proof (cases "hd s = CHR ''[''")
    case False
    with assms i have "CHR '':'' \<notin> set (take i s)" "CHR ''['' \<notin> set s" "CHR '']'' \<notin> set s" "h = take i s"
      by (auto simp: split_host_port_def check_def Let_def split: if_splits)
    moreover have "set (take i s) \<subseteq> set s" "set (drop (i + 1) s) \<subseteq> set s"
      by (simp_all add: set_take_subset set_drop_subset)
    ultimately show ?thesis using si p by (auto simp: plain_host_def)
  next
    case True
    with assms i p obtain e where e: "index_byte s (CHR '']'') = Some e" "e + 1 = i"
      "h = take (e - 1) (drop 1 s)" "CHR ''['' \<notin> set (drop 1 s)" "CHR '']'' \<notin> set (drop (e + 1) s)"
      by (auto simp: split_host_port_def check_def Let_def split: option.splits if_splits)
    note ie = index_byte_Some [OF e(1)]
    obtain t where s: "s = CHR ''['' # t" using True si by (cases s) auto
    with ie obtain k where k: "e = Suc k" by (cases e) auto
    from ie s k have "t = take k t @ CHR '']'' # drop (Suc k) t" "CHR '']'' \<notin> set (take k t)"
      using id_take_nth_drop [of k t] by auto
    moreover have "drop (Suc k) t = CHR '':'' # p"
    proof -
      have "drop i s = CHR '':'' # p" using si p by (metis append_take_drop_id same_append_eq)
      then show ?thesis using s k e(2) by auto
    qed
    moreover have "h = take k t" using e(3) s k by simp
    moreover have "set (take k t) \<subseteq> set t" by (rule set_take_subset)
    moreover have "set (drop (i + 1) s) \<subseteq> set (drop (e + 1) s)"
      using e(2) by (intro set_drop_subset_set_drop) simp
    moreover have "set (drop (i + 1) s) \<subseteq> set t" using s by (auto dest: in_set_dropD)
    ultimately show ?thesis
      using s si p e(4,5) by (auto simp: plain_host_def)
  qed
qed

section \<open>Properties\<close>

text \<open>
  An address splits into host and port exactly when it is host, colon, port with no colon or
  bracket in either, or a bracketed host without brackets, colon and port; so writing the two parts
  together and splitting gives them back.
\<close>

theorem split_host_port_spec:
  "split_host_port s = Inr (h, p) \<longleftrightarrow>
     plain_host p \<and> (plain_host h \<and> s = h @ CHR '':'' # p
       \<or> CHR ''['' \<notin> set h \<and> CHR '']'' \<notin> set h \<and> s = CHR ''['' # h @ CHR '']'' # CHR '':'' # p)"
  using split_host_port_sound split_plain split_bracketed by blast

text \<open>What makes a configuration valid.\<close>

definition nonblank :: "string \<Rightarrow> bool" where "nonblank s = (trim_space s \<noteq> [])"

definition address_ok :: "string \<Rightarrow> bool" where
  "address_ok s = (\<exists>h p. split_host_port s = Inr (h, p) \<and> p \<noteq> [])"

definition url_ok :: "(string \<Rightarrow> (string \<times> string) option) \<Rightarrow> string \<Rightarrow> bool" where
  "url_ok parse_url u = (u \<noteq> [] \<and> (\<exists>scheme host. parse_url u = Some (scheme, host)
     \<and> scheme \<in> {''http'', ''https''} \<and> host \<noteq> []))"

definition config_ok :: "(string \<Rightarrow> (string \<times> string) option) \<Rightarrow> config \<Rightarrow> bool" where
  "config_ok parse_url c =
     (address_ok (order_plane (cfg_listen c))
      \<and> (admin_plane (cfg_listen c) \<noteq> [] \<longrightarrow> address_ok (admin_plane (cfg_listen c)))
      \<and> nonblank (server_cert (cfg_mtls c)) \<and> nonblank (server_key (cfg_mtls c)) \<and> nonblank (client_ca (cfg_mtls c))
      \<and> allowed_order_serials (cfg_mtls c) @ allowed_admin_serials (cfg_mtls c) \<noteq> []
      \<and> nonblank (pb_path (cfg_bundle c)) \<and> nonblank (pb_sig_path (cfg_bundle c)) \<and> nonblank (pb_pubkey_path (cfg_bundle c))
      \<and> (rf_enabled (pb_refresh (cfg_bundle c)) \<longrightarrow>
           url_ok parse_url (rf_url (pb_refresh (cfg_bundle c))) \<and> 0 < rf_interval (pb_refresh (cfg_bundle c)))
      \<and> nonblank (ab_path (cfg_audit c)) \<and> 0 < rotation_mb (cfg_audit c) \<and> 0 < retain_count (cfg_audit c)
      \<and> is_ok (log_New (lb_level (cfg_log c)) (lb_format (cfg_log c)) True)
      \<and> (binary_is_zero (cfg_binary c) \<or> nonblank (bb_current (cfg_binary c)) \<and> nonblank (bb_previous (cfg_binary c))
           \<and> nonblank (bb_staged (cfg_binary c)) \<and> nonblank (bb_pubkey (cfg_binary c)))
      \<and> (eb_enabled (cfg_egress c) \<longrightarrow> 0 < eb_refresh (cfg_egress c)
           \<and> (nft_path (cfg_egress c) \<noteq> [] \<or> helper_path (cfg_egress c) \<noteq> [])))"

lemma require_all_iff:
  "map_ordering order \<Longrightarrow> require_all order es = Inr () \<longleftrightarrow> (\<forall>e\<in>set es. nonblank (snd e))"
  by (auto simp: require_all_def map_ordering_def nonblank_def find_None_iff find_Some_iff in_set_conv_nth
      split: option.splits) (metis nth_mem)+

lemma split_host_port_Nil [simp]: "split_host_port [] = Inl MissingPort"
  by (simp add: split_host_port_def last_index_byte_def)

lemma validate_host_port_iff: "validate_host_port s = Inr () \<longleftrightarrow> address_ok s"
  by (auto simp: validate_host_port_def address_ok_def wrap_err_def check_def split: sum.splits)

lemma log_validate_iff:
  "log_validate l = Inr () \<longleftrightarrow> is_ok (log_New (lb_level l) (lb_format l) True)"
  by (auto simp: log_validate_def log_New_def parse_level_def check_def Let_def)

lemma listen_validate_iff:
  "listen_validate l = Inr () \<longleftrightarrow> address_ok (order_plane l) \<and> (admin_plane l \<noteq> [] \<longrightarrow> address_ok (admin_plane l))"
  by (auto simp: listen_validate_def validate_host_port_iff check_def address_ok_def)

lemma refresh_validate_iff:
  "refresh_validate parse_url r = Inr () \<longleftrightarrow>
     (rf_enabled r \<longrightarrow> url_ok parse_url (rf_url r) \<and> 0 < rf_interval r)"
  by (auto simp: refresh_validate_def url_ok_def check_def not_le split: option.splits)

lemma config_validate_iff:
  assumes "map_ordering order"
  shows "config_validate order parse_url c = Inr () \<longleftrightarrow> config_ok parse_url c"
proof -
  have m: "mtls_validate order m = Inr () \<longleftrightarrow> nonblank (server_cert m) \<and> nonblank (server_key m)
      \<and> nonblank (client_ca m) \<and> allowed_order_serials m @ allowed_admin_serials m \<noteq> []" for m
    by (auto simp: mtls_validate_def require_all_iff [OF assms] check_def)
  have p: "profile_bundle_validate order parse_url p = Inr () \<longleftrightarrow> nonblank (pb_path p) \<and> nonblank (pb_sig_path p)
      \<and> nonblank (pb_pubkey_path p) \<and> refresh_validate parse_url (pb_refresh p) = Inr ()" for p
    by (auto simp: profile_bundle_validate_def require_all_iff [OF assms])
  have b: "binary_validate order b = Inr () \<longleftrightarrow> binary_is_zero b \<or> nonblank (bb_current b) \<and> nonblank (bb_previous b)
      \<and> nonblank (bb_staged b) \<and> nonblank (bb_pubkey b)" for b
    by (auto simp: binary_validate_def require_all_iff [OF assms])
  have a: "audit_validate a = Inr () \<longleftrightarrow> nonblank (ab_path a) \<and> 0 < rotation_mb a \<and> 0 < retain_count a" for a
    by (auto simp: audit_validate_def check_def nonblank_def)
  have e: "egress_validate e = Inr () \<longleftrightarrow> (eb_enabled e \<longrightarrow> 0 < eb_refresh e \<and> (nft_path e \<noteq> [] \<or> helper_path e \<noteq> []))" for e
    by (auto simp: egress_validate_def check_def)
  show ?thesis
    by (simp add: config_validate_def config_ok_def listen_validate_iff m p refresh_validate_iff a log_validate_iff b e)
qed

text \<open>
  C39: validation accepts exactly the configurations of the declarative specification, whatever
  the order in which Go ranges over its maps.
\<close>

theorem config_validate_spec:
  assumes "map_ordering order"
  shows "config_validate order parse_url c = Inr () \<longleftrightarrow> config_ok parse_url c"
  by (rule config_validate_iff [OF assms])

text \<open>
  The configuration accepts exactly the log settings the logger can be built from, so a loaded
  configuration never fails there unless a command-line flag overrides it.
\<close>

theorem log_levels_agree:
  "log_validate l = Inr () \<longleftrightarrow> (\<exists>h. log_New (lb_level l) (lb_format l) True = Inr h)"
  by (auto simp: log_validate_iff dest!: is_ok_Inr)

section \<open>Witnesses\<close>

definition ex_config :: config where
  "ex_config = \<lparr>cfg_listen = \<lparr>order_plane = '':8443'', admin_plane = []\<rparr>,
     cfg_mtls = \<lparr>server_cert = ''c'', server_key = ''k'', client_ca = ''a'', allowed_order_serials = [''7''],
       allowed_admin_serials = []\<rparr>,
     cfg_bundle = \<lparr>pb_path = ''b'', pb_sig_path = ''s'', pb_pubkey_path = ''p'',
       pb_refresh = \<lparr>rf_enabled = False, rf_url = [], rf_interval = 0\<rparr>\<rparr>,
     cfg_audit = \<lparr>ab_path = ''log'', rotation_mb = 100, retain_count = 5\<rparr>,
     cfg_log = \<lparr>lb_level = ''WARN'', lb_format = []\<rparr>,
     cfg_binary = \<lparr>bb_current = [], bb_previous = [], bb_staged = [], bb_pubkey = []\<rparr>,
     cfg_egress = \<lparr>eb_enabled = False, eb_refresh = 0, nft_path = [], helper_path = []\<rparr>\<rparr>"

theorem config_validate_spec_witness: "config_ok (\<lambda>_. None) ex_config"
proof -
  have o: "map_ordering rev" by (simp add: map_ordering_def)
  have v: "config_validate rev (\<lambda>_. None) ex_config = Inr ()" by code_simp
  from config_validate_spec [OF o, of "\<lambda>_. None" ex_config] v show ?thesis by simp
qed

end
