(* ===== verification/GoUrl.thy ===== *)
theory GoUrl
  imports GoStrings
begin

text \<open>
  The routines of Go's \<open>net/url\<close>, \<open>path\<close>, \<open>path/filepath\<close> (on Unix) and of the \<open>net/http\<close> multiplexer
  that the admin plane, the command and the admin tool call, written from their documented behaviour.
\<close>

section \<open>Percent encoding\<close>

definition hex_val :: "char \<Rightarrow> nat option" where
  "hex_val c =
     (if is_digit c then Some (byte c - 48)
      else if 97 \<le> byte c \<and> byte c \<le> 102 then Some (byte c - 87)
      else if 65 \<le> byte c \<and> byte c \<le> 70 then Some (byte c - 55) else None)"

text \<open>\<open>qmode\<close> tells the query mode, where a plus sign is a space; \<open>None\<close> is an invalid escape.\<close>

fun unescape :: "bool \<Rightarrow> string \<Rightarrow> string option" where
  "unescape qmode [] = Some []"
| "unescape qmode (c # cs) =
     (if c = CHR ''%'' then
        (case cs of a # b # rest \<Rightarrow>
           (case (hex_val a, hex_val b) of
              (Some x, Some y) \<Rightarrow> map_option ((#) (char_of (16 * x + y))) (unescape qmode rest)
            | _ \<Rightarrow> None)
         | _ \<Rightarrow> None)
      else map_option ((#) (if qmode \<and> c = CHR ''+'' then CHR '' '' else c)) (unescape qmode cs))"

text \<open>\<open>strings.Cut\<close> at one byte.\<close>

definition cut :: "char \<Rightarrow> string \<Rightarrow> string \<times> string" where
  "cut b s = (takeWhile (\<lambda>c. c \<noteq> b) s, drop 1 (dropWhile (\<lambda>c. c \<noteq> b) s))"

text \<open>\<open>URL.Query().Get(key)\<close>: malformed pairs are dropped, the first value wins, missing is empty.\<close>

fun query_pairs :: "string list \<Rightarrow> (string \<times> string) list" where
  "query_pairs [] = []"
| "query_pairs (p # ps) =
     (if CHR '';'' \<in> set p \<or> p = [] then query_pairs ps
      else (case cut (CHR ''='') p of (k, v) \<Rightarrow>
        (case (unescape True k, unescape True v) of
           (Some k', Some v') \<Rightarrow> (k', v') # query_pairs ps
         | _ \<Rightarrow> query_pairs ps)))"

definition query_get :: "string \<Rightarrow> string \<Rightarrow> string" where
  "query_get q key = (case map_of (query_pairs (split_on (CHR ''&'') q)) key of None \<Rightarrow> [] | Some v \<Rightarrow> v)"

section \<open>Paths\<close>

text \<open>\<open>path.Clean\<close> on the components; the stack holds the kept ones, last first.\<close>

definition clean_step :: "bool \<Rightarrow> string \<Rightarrow> string list \<Rightarrow> string list" where
  "clean_step rooted c stack =
     (if c = [] \<or> c = ''.'' then stack
      else if c = ''..'' then
        (case stack of [] \<Rightarrow> if rooted then [] else [''..'']
         | s # ss \<Rightarrow> if s = ''..'' then ''..'' # s # ss else ss)
      else c # stack)"

definition clean_parts :: "bool \<Rightarrow> string list \<Rightarrow> string list" where
  "clean_parts rooted cs = rev (fold (clean_step rooted) cs [])"

definition path_clean :: "string \<Rightarrow> string" where
  "path_clean p =
     (let rooted = prefix ''/'' p;
          out = (if rooted then ''/'' else []) @ join ''/'' (clean_parts rooted (split_on (CHR ''/'') p)) in
      if out = [] then ''.'' else out)"

text \<open>\<open>filepath.Join\<close> and \<open>filepath.Dir\<close>.\<close>

definition path_join :: "string list \<Rightarrow> string" where
  "path_join es =
     (let fs = filter (\<lambda>e. e \<noteq> []) es in if fs = [] then [] else path_clean (join ''/'' fs))"

definition path_dir :: "string \<Rightarrow> string" where
  "path_dir p = path_clean (rev (dropWhile (\<lambda>c. c \<noteq> CHR ''/'') (rev p)))"

text \<open>The multiplexer's \<open>cleanPath\<close>, which keeps a trailing slash.\<close>

definition mux_clean :: "string \<Rightarrow> string" where
  "mux_clean p =
     (let p' = (if prefix ''/'' p then p else ''/'' @ p); np = path_clean p' in
      if last p' = CHR ''/'' \<and> np \<noteq> ''/'' then np @ ''/'' else np)"

text \<open>The segments of an escaped path, each unescaped on its own, as patterns are matched against them.\<close>

definition path_segments :: "string \<Rightarrow> string list" where
  "path_segments p =
     map (\<lambda>s. case unescape False s of None \<Rightarrow> s | Some t \<Rightarrow> t) (split_on (CHR ''/'') p)"

section \<open>Clean paths\<close>

text \<open>
  The components a cleaned path has: plain names, after a run of two-dot components if the path is
  relative. Cleaning gives such components and keeps them.
\<close>

definition plain :: "string \<Rightarrow> bool" where
  "plain c = (c \<noteq> [] \<and> c \<noteq> ''.'' \<and> c \<noteq> ''..'' \<and> CHR ''/'' \<notin> set c)"

definition clean :: "bool \<Rightarrow> string list \<Rightarrow> bool" where
  "clean rooted cs = (\<exists>k ns. cs = replicate k ''..'' @ ns \<and> list_all plain ns \<and> (rooted \<longrightarrow> k = 0))"

lemma plain_not_dots: "plain c \<Longrightarrow> c \<noteq> ''..'' \<and> c \<noteq> ''.'' \<and> c \<noteq> []"
  by (simp add: plain_def)

lemma dots_no_slash: "CHR ''/'' \<notin> set ''..''"
  by simp

lemma cleanI: "list_all plain ns \<Longrightarrow> (rooted \<Longrightarrow> k = 0) \<Longrightarrow> clean rooted (replicate k ''..'' @ ns)"
  unfolding clean_def by blast

lemma cleanE:
  assumes "clean rooted cs"
  obtains k ns where "cs = replicate k ''..'' @ ns" "list_all plain ns" "rooted \<longrightarrow> k = 0"
  using assms unfolding clean_def by blast

lemma clean_no_slash:
  assumes "clean rooted cs" and "c \<in> set cs"
  shows "CHR ''/'' \<notin> set c"
proof -
  from assms(1) obtain k ns where "cs = replicate k ''..'' @ ns" "list_all plain ns" by (rule cleanE)
  with assms(2) have "c = ''..'' \<or> plain c" by (auto simp: list_all_iff)
  then show ?thesis by (auto simp: plain_def)
qed

lemma clean_nonempty:
  assumes "clean rooted cs" and "c \<in> set cs"
  shows "c \<noteq> []"
proof -
  from assms(1) obtain k ns where "cs = replicate k ''..'' @ ns" "list_all plain ns" by (rule cleanE)
  with assms(2) have "c = ''..'' \<or> plain c" by (auto simp: list_all_iff)
  then show ?thesis by (auto simp: plain_def)
qed

lemma clean_snoc:
  assumes "clean rooted cs" and "plain c"
  shows "clean rooted (cs @ [c])"
proof -
  from assms(1) obtain k ns where c: "cs = replicate k ''..'' @ ns" "list_all plain ns" "rooted \<longrightarrow> k = 0" by (rule cleanE)
  with assms(2) cleanI [of "ns @ [c]" rooted k] show ?thesis by simp
qed

lemma clean_butlast: "clean rooted cs \<Longrightarrow> clean rooted (butlast cs)"
proof (elim cleanE)
  fix k ns
  assume c: "cs = replicate k ''..'' @ ns" "list_all plain ns" "rooted \<longrightarrow> k = 0"
  show "clean rooted (butlast cs)"
  proof (cases ns rule: rev_cases)
    case Nil
    with c have "butlast cs = replicate (k - 1) ''..'' @ []"
      by (cases k) (simp_all add: replicate_append_same [symmetric])
    with c cleanI [of "[]" rooted "k - 1"] show ?thesis by simp
  next
    case (snoc ms m)
    with c cleanI [of ms rooted k] show ?thesis by (simp add: butlast_append)
  qed
qed

lemma clean_stack_step:
  assumes "clean rooted (rev st)" and "CHR ''/'' \<notin> set c"
  shows "clean rooted (rev (clean_step rooted c st))"
proof -
  consider "c = [] \<or> c = ''.''" | (up) "c = ''..''" | (name) "plain c"
    using assms(2) by (auto simp: plain_def)
  then show ?thesis
  proof cases
    case up
    show ?thesis
    proof (cases st)
      case Nil
      from cleanI [of "[]" False 1] cleanI [of "[]" True 0] up Nil show ?thesis
        by (cases rooted) (simp_all add: clean_step_def)
    next
      case (Cons s ss)
      show ?thesis
      proof (cases "s = ''..''")
        case True
        from assms(1) obtain k ns where k': "rev st = replicate k ''..'' @ ns"
            "list_all plain ns" "rooted \<longrightarrow> k = 0"
          by (rule cleanE)
        then have k: "rev ss @ [''..''] = replicate k ''..'' @ ns" "list_all plain ns" "rooted \<longrightarrow> k = 0"
          using Cons True by simp_all
        have "ns = []"
        proof (cases ns rule: rev_cases)
          case (snoc ms m)
          with k show ?thesis by (auto simp: plain_def)
        qed
        with k have "rev ss @ [''..'', ''..''] = replicate (Suc k) ''..''"
          by (simp add: replicate_append_same [symmetric])
        moreover have "\<not> rooted" using k \<open>ns = []\<close> by auto
        ultimately show ?thesis using up Cons True cleanI [of "[]" rooted "Suc k"]
          by (simp add: clean_step_def)
      next
        case False
        with up Cons clean_butlast [OF assms(1)] show ?thesis by (simp add: clean_step_def)
      qed
    qed
  next
    case name
    with clean_snoc [OF assms(1) name] show ?thesis by (simp add: clean_step_def plain_def)
  qed (use assms in \<open>auto simp: clean_step_def\<close>)
qed

lemma clean_fold:
  "clean rooted (rev st) \<Longrightarrow> \<forall>c\<in>set cs. CHR ''/'' \<notin> set c \<Longrightarrow> clean rooted (rev (fold (clean_step rooted) cs st))"
proof (induction cs arbitrary: st)
  case (Cons c cs)
  then show ?case using clean_stack_step [of rooted st c] by simp
qed simp

lemma clean_parts_clean: "clean rooted (clean_parts rooted (split_on (CHR ''/'') p))"
  unfolding clean_parts_def
  by (rule clean_fold) (auto simp: clean_def dest: split_on_parts)

lemma clean_step_plain: "plain c \<Longrightarrow> clean_step rooted c st = c # st"
  by (simp add: clean_step_def plain_def)

lemma fold_plain: "list_all plain ns \<Longrightarrow> fold (clean_step rooted) ns st = rev ns @ st"
  by (induction ns arbitrary: st) (simp_all add: clean_step_plain)

lemma fold_dots: "fold (clean_step False) (replicate k ''..'') (replicate j ''..'') = replicate (k + j) ''..''"
proof (induction k arbitrary: j)
  case (Suc k)
  have "clean_step False ''..'' (replicate j ''..'') = replicate (Suc j) ''..''"
    by (cases j) (simp_all add: clean_step_def)
  with Suc.IH [of "Suc j"] show ?case by simp
qed simp

lemma clean_parts_id: "clean rooted cs \<Longrightarrow> clean_parts rooted cs = cs"
proof -
  assume "clean rooted cs"
  then obtain k ns where c: "cs = replicate k ''..'' @ ns" "list_all plain ns" "rooted \<longrightarrow> k = 0"
    by (auto simp: clean_def)
  show ?thesis
  proof (cases rooted)
    case True
    with c fold_plain [OF c(2), of True "[]"] show ?thesis by (simp add: clean_parts_def)
  next
    case False
    with c fold_dots [of k 0] fold_plain [OF c(2), of False] show ?thesis by (simp add: clean_parts_def)
  qed
qed


text \<open>The text of a cleaned path, and what joining it with a plain name gives.\<close>

definition path_text :: "bool \<Rightarrow> string list \<Rightarrow> string" where
  "path_text rooted cs = (if rooted then ''/'' else []) @ join ''/'' cs"

lemma join_snoc: "cs \<noteq> [] \<Longrightarrow> join sep (cs @ [c]) = join sep cs @ sep @ c"
  by (induction sep cs rule: join.induct) auto

lemma split_on_snoc: "b \<notin> set n \<Longrightarrow> split_on b (p @ b # n) = split_on b p @ [n]"
proof (induction p)
  case Nil
  then show ?case by (simp add: split_on_single)
next
  case (Cons c cs)
  obtain q qs where "split_on b cs = q # qs" by (cases "split_on b cs") auto
  with Cons show ?case by simp
qed

lemma clean_parts_snoc: "plain n \<Longrightarrow> clean_parts rooted (ss @ [n]) = clean_parts rooted ss @ [n]"
  by (simp add: clean_parts_def clean_step_plain)

lemma prefix_slash_append: "p \<noteq> [] \<Longrightarrow> prefix ''/'' (p @ q) \<longleftrightarrow> prefix ''/'' p"
  by (cases p) auto

lemma path_join_name:
  assumes "p \<noteq> []" and "plain n"
  shows "path_join [p, n] =
    path_text (prefix ''/'' p) (clean_parts (prefix ''/'' p) (split_on (CHR ''/'') p) @ [n])"
proof -
  have n: "n \<noteq> []" "CHR ''/'' \<notin> set n" using assms(2) by (simp_all add: plain_def)
  let ?cs = "clean_parts (prefix ''/'' p) (split_on (CHR ''/'') p)"
  have "join ''/'' (?cs @ [n]) \<noteq> []" using n by (cases "?cs = []") (simp_all add: join_snoc)
  then show ?thesis
    using assms n split_on_snoc [OF n(2), of p]
    by (simp add: path_join_def path_clean_def path_text_def prefix_slash_append clean_parts_snoc Let_def)
qed

lemma clean_parts_text:
  assumes "clean rooted cs" and "cs \<noteq> []"
  shows "clean_parts rooted (split_on (CHR ''/'') (path_text rooted cs)) = cs"
proof -
  have "split_on (CHR ''/'') (join ''/'' cs) = cs"
    using assms clean_no_slash by (intro split_on_join) blast+
  then have "split_on (CHR ''/'') (path_text rooted cs) = (if rooted then [[]] else []) @ cs"
    by (simp add: path_text_def)
  moreover have "clean_parts rooted ([] # cs) = clean_parts rooted cs"
    by (simp add: clean_parts_def clean_step_def)
  ultimately show ?thesis using clean_parts_id [OF assms(1)] by (cases rooted) simp_all
qed

lemma text_rooted:
  assumes "clean rooted cs" and "cs \<noteq> []"
  shows "prefix ''/'' (path_text rooted cs) \<longleftrightarrow> rooted" and "path_text rooted cs \<noteq> []"
proof -
  obtain c ds where cs: "cs = c # ds" using assms(2) by (cases cs) auto
  have c: "c \<noteq> []" "CHR ''/'' \<notin> set c"
    using clean_no_slash [OF assms(1), of c] clean_nonempty [OF assms(1), of c] cs by simp_all
  then obtain x xs where x: "c = x # xs" "x \<noteq> CHR ''/''" by (cases c) auto
  then have "join ''/'' cs = x # (xs @ (if ds = [] then [] else ''/'' @ join ''/'' ds))"
    by (cases ds) (simp_all add: cs)
  with x show "prefix ''/'' (path_text rooted cs) \<longleftrightarrow> rooted" "path_text rooted cs \<noteq> []"
    by (auto simp: path_text_def)
qed

lemma path_join_text:
  assumes "clean rooted cs" and "cs \<noteq> []" and "plain n"
  shows "path_join [path_text rooted cs, n] = path_text rooted cs @ ''/'' @ n"
  using path_join_name [OF text_rooted(2) [OF assms(1,2)] assms(3)] text_rooted(1) [OF assms(1,2)]
    clean_parts_text [OF assms(1,2)] assms(2)
  by (simp add: path_text_def join_snoc)

lemma last_path_join:
  assumes "p \<noteq> []" and "plain n"
  shows "last (path_join [p, n]) = last n"
proof -
  have n: "n \<noteq> []" using assms(2) by (simp add: plain_def)
  then have "last (path_text r (cs @ [n])) = last n" for r cs
    by (cases "cs = []") (simp_all add: path_text_def join_snoc)
  then show ?thesis by (simp add: path_join_name [OF assms])
qed

section \<open>Lengths\<close>

text \<open>Cleaning never makes a path longer, so walking up by \<open>Dir\<close> gets to a fixed point.\<close>

definition weight :: "string list \<Rightarrow> nat" where
  "weight cs = sum_list (map (\<lambda>c. Suc (length c)) cs)"

lemma weight_simps [simp]: "weight [] = 0" "weight (c # cs) = Suc (length c) + weight cs"
  "weight (cs @ ds) = weight cs + weight ds" "weight (rev cs) = weight cs"
  by (simp_all add: weight_def rev_map [symmetric])

lemma weight_split: "weight (split_on b p) = Suc (length p)"
proof (induction p)
  case (Cons c cs)
  then show ?case by (cases "split_on b cs") auto
qed simp

lemma length_join: "cs \<noteq> [] \<Longrightarrow> Suc (length (join ''/'' cs)) = weight cs"
  by (induction "''/''" cs rule: join.induct) auto

lemma clean_step_weight: "weight (clean_step rooted c st) \<le> weight st + Suc (length c)"
  by (auto simp: clean_step_def split: list.splits)

lemma fold_clean_weight: "weight (fold (clean_step rooted) cs st) \<le> weight st + weight cs"
proof (induction cs arbitrary: st)
  case (Cons c cs)
  from Cons.IH [of "clean_step rooted c st"] clean_step_weight [of rooted c st] show ?case by simp
qed simp

lemma clean_parts_weight: "weight (clean_parts rooted cs) \<le> weight cs"
  using fold_clean_weight [of rooted cs "[]"] by (simp add: clean_parts_def)

lemma path_clean_length:
  assumes "p \<noteq> []"
  shows "length (path_clean p) \<le> length p"
proof (cases "prefix ''/'' p")
  case True
  then obtain q where p: "p = CHR ''/'' # q" by (auto simp: prefix_def)
  have "clean_parts True (split_on (CHR ''/'') p) = clean_parts True (split_on (CHR ''/'') q)"
    by (simp add: p clean_parts_def clean_step_def)
  moreover have "weight (clean_parts True (split_on (CHR ''/'') q)) \<le> length p"
    using clean_parts_weight [of True "split_on (CHR ''/'') q"] by (simp add: weight_split p)
  ultimately show ?thesis
    using True p length_join [of "clean_parts True (split_on (CHR ''/'') q)"]
    by (cases "clean_parts True (split_on (CHR ''/'') q) = []") (simp_all add: path_clean_def Let_def)
next
  case False
  have "weight (clean_parts False (split_on (CHR ''/'') p)) \<le> Suc (length p)"
    using clean_parts_weight [of False "split_on (CHR ''/'') p"] by (simp add: weight_split)
  then show ?thesis
    using assms False length_join [of "clean_parts False (split_on (CHR ''/'') p)"]
    by (cases "clean_parts False (split_on (CHR ''/'') p) = []") (auto simp: path_clean_def Let_def Suc_le_eq)
qed

lemma path_clean_nonempty: "path_clean p \<noteq> []"
  by (simp add: path_clean_def Let_def)

lemma path_clean_slash:
  assumes "q \<noteq> []"
  shows "path_clean (q @ ''/'') = path_clean q"
  using split_on_snoc [of "CHR ''/''" "[]" q] assms
  by (simp add: path_clean_def prefix_slash_append clean_parts_def clean_step_def)

lemma path_dir_cases:
  "path_dir x = ''.'' \<or> path_dir x = ''/'' \<or> length (path_dir x) < length x"
proof -
  let ?q = "rev (dropWhile (\<lambda>c. c \<noteq> CHR ''/'') (rev x))"
  have le: "length ?q \<le> length x" using length_dropWhile_le [of _ "rev x"] by simp
  show ?thesis
  proof (cases ?q rule: rev_cases)
    case Nil
    have "path_clean [] = ''.''" by code_simp
    with Nil show ?thesis unfolding path_dir_def by (simp only:) simp
  next
    case (snoc p c)
    have d: "dropWhile (\<lambda>c. c \<noteq> CHR ''/'') (rev x) = c # rev p" using arg_cong [OF snoc, of rev] by simp
    with hd_dropWhile [of "\<lambda>c. c \<noteq> CHR ''/''" "rev x"] have c: "c = CHR ''/''" by simp
    show ?thesis
    proof (cases "p = []")
      case True
      have "path_clean ''/'' = ''/''" by code_simp
      with d c True show ?thesis by (simp add: path_dir_def)
    next
      case False
      from d c path_clean_slash [OF False] have "path_dir x = path_clean p" by (simp add: path_dir_def)
      with path_clean_length [OF False] le show ?thesis unfolding snoc by simp
    qed
  qed
qed

lemma path_dir_roots: "path_dir ''.'' = ''.''" "path_dir ''/'' = ''/''"
  by code_simp+

end
