(* ===== verification/Admin.thy ===== *)
theory Admin
  imports Proxy Metrics BundleUpd GoUrl
begin

text \<open>
  The admin plane, \<open>internal/admin/admin.go\<close>: dispatch by method and path, the role guard in front of
  every endpoint, the endpoints, and the recovery from panics. It reads and changes the state of the other
  components: the updater with the live router, the allowlist, the audit log, the counters, the files.

  What the handler gets from outside is in \<open>admin_env\<close>: the two callbacks, the order Go's map iteration
  happens to take, and the library's decoders and formatters (JSON bodies, multipart forms, RFC 3339
  times, error texts). A callback may panic.
\<close>

section \<open>State and surroundings\<close>

datatype hook_result = HookOk | HookErr string | HookPanic string

record admin_plane =
  ap_updater :: updater
  ap_allow :: "allowlist_cells option"
  ap_audit :: "audit_writer option"
  ap_metrics :: "counters option"
  ap_world :: world

text \<open>The request with the escaped form of its path, which the multiplexer matches on.\<close>

record admin_request = request +
  ar_escaped :: string

text \<open>
  What happens while a tail is streamed: a record is logged by someone, the handler takes one from its
  channel, its ticker fires, or the client is gone.
\<close>

datatype tail_event = TailLogged log_record | TailReceive | TailHeartbeat | TailDone

record admin_env =
  ae_version :: string
  ae_uptime :: int
  ae_broker_order :: "string list"
  ae_reload :: "(updater \<Rightarrow> world \<Rightarrow> hook_result \<times> updater \<times> world) option"
  ae_accept :: "(bytes \<Rightarrow> bytes \<Rightarrow> world \<Rightarrow> hook_result \<times> world) option"
  ae_role :: "(admin_request \<Rightarrow> role) option"
  ae_now :: gotime
  ae_stamp :: "gotime \<Rightarrow> string"
  ae_time_json :: "gotime \<Rightarrow> string option"
  ae_time_text :: "gotime \<Rightarrow> string"
  ae_mtime :: "world \<Rightarrow> path \<Rightarrow> string"
  ae_parse_time :: "string \<Rightarrow> string + gotime"
  ae_record_time :: "bytes \<Rightarrow> gotime option"
  ae_decode_serials :: "bytes \<Rightarrow> string + string list \<times> string list"
  ae_form :: "headers \<Rightarrow> body_copy \<Rightarrow> string + (string \<Rightarrow> string + string + bytes)"
  ae_flusher :: bool
  ae_tail :: "tail_event list"
  ae_os_text :: "os_err \<Rightarrow> string"
  ae_audit_text :: "audit_err \<Rightarrow> string"
  ae_allow_text :: "allowlist_err \<Rightarrow> string"

section \<open>Responses\<close>

definition set_header :: "string \<Rightarrow> string \<Rightarrow> response_writer \<Rightarrow> response_writer" where
  "set_header k v w = w\<lparr>rw_header := header_set k v (rw_header w)\<rparr>"

definition start_response :: "string \<Rightarrow> nat \<Rightarrow> response_writer \<Rightarrow> response_writer" where
  "start_response ctype status w = snd (write_header status (set_header ''Content-Type'' ctype w))"

text \<open>\<open>writeJSON\<close>; \<open>None\<close> is a value the encoder refuses, after the header is out.\<close>

definition write_json :: "nat \<Rightarrow> string option \<Rightarrow> response_writer \<Rightarrow> response_writer" where
  "write_json status v w =
     (let w1 = start_response ''application/json'' status w in
      case v of None \<Rightarrow> w1 | Some s \<Rightarrow> write_body (s @ [newline]) w1)"

definition error_body :: "string \<Rightarrow> bytes" where
  "error_body msg = ''{'' @ [quote] @ ''error'' @ [quote] @ '':'' @ go_quote msg @ ''}'' @ [newline]"

definition write_json_error :: "nat \<Rightarrow> string \<Rightarrow> response_writer \<Rightarrow> response_writer" where
  "write_json_error status msg w = write_body (error_body msg) (start_response ''application/json'' status w)"

text \<open>What a handler does: a panic if it ends in one, the response so far, and the state.\<close>

type_synonym reply = "string option \<times> response_writer \<times> admin_plane"

definition answer :: "response_writer \<Rightarrow> admin_plane \<Rightarrow> reply" where
  "answer w s = (None, w, s)"

definition json_strings :: "(string \<times> string) list \<Rightarrow> string" where
  "json_strings fs = json_object (map (\<lambda>(k, v). (k, json_string False v)) fs)"

definition json_list :: "string list \<Rightarrow> string" where
  "json_list xs = ''['' @ join '','' xs @ '']''"

definition json_bool :: "bool \<Rightarrow> string" where
  "json_bool b = (if b then ''true'' else ''false'')"

section \<open>Reading endpoints\<close>

definition healthz :: "admin_plane \<Rightarrow> reply" where
  "healthz s = answer (write_json 200 (Some (json_strings [(''status'', ''ok'')])) new_response) s"

definition broker_summary :: "broker_profile \<Rightarrow> string" where
  "broker_summary b = json_object
     [(''id'', json_string False (bp_id b)), (''display_name'', json_string False (display_name b)),
      (''host'', json_string False (bp_host b)), (''enabled'', json_bool (enabled b)),
      (''endpoints'', json_int (int (length (order_endpoints b))))]"

text \<open>A \<open>map[string]any\<close> is encoded with its keys in order.\<close>

definition status_json :: "admin_env \<Rightarrow> router option \<Rightarrow> string" where
  "status_json E r =
     (let (bv, bs) = (case r of
          Some router \<Rightarrow> (rt_bundle_version router, map broker_summary (router_brokers (ae_broker_order E) router))
        | None \<Rightarrow> ([], [])) in
      json_object [(''brokers'', json_list bs), (''bundle_version'', json_string False bv),
        (''uptime_seconds'', json_int (ae_uptime E)), (''version'', json_string False (ae_version E))])"

definition admin_status :: "admin_env \<Rightarrow> admin_plane \<Rightarrow> reply" where
  "admin_status E s =
     answer (write_json 200 (Some (status_json E (holder_load (up_holder (ap_updater s))))) new_response) s"

definition endpoint_json :: "order_endpoint \<Rightarrow> string" where
  "endpoint_json e = json_strings [(''method'', oe_method e), (''path'', oe_path e), (''kind'', oe_kind e)]"

definition profile_json :: "broker_profile \<Rightarrow> string" where
  "profile_json b = json_object
     [(''id'', json_string False (bp_id b)), (''display_name'', json_string False (display_name b)),
      (''host'', json_string False (bp_host b)), (''enabled'', json_bool (enabled b)),
      (''order_endpoints'', json_list (map endpoint_json (order_endpoints b))),
      (''idempotency'', json_strings
        [(''client_order_id_header'', client_order_id_header (idempotency b)),
         (''client_order_id_body_path'', client_order_id_body_path (idempotency b)),
         (''echo_in_response_path'', echo_in_response_path (idempotency b))]),
      (''rate_limit'', json_object
        [(''per_user_rps'', json_int (per_user_rps (rate_limit b))),
         (''per_user_burst'', json_int (per_user_burst (rate_limit b)))])]"

definition profiles :: "admin_env \<Rightarrow> admin_plane \<Rightarrow> reply" where
  "profiles E s =
     (case holder_load (up_holder (ap_updater s)) of
        None \<Rightarrow> answer (write_json 200 (Some (json_list [])) new_response) s
      | Some router \<Rightarrow>
          answer (write_json 200 (Some (json_list (map profile_json (router_brokers (ae_broker_order E) router)))) new_response) s)"

text \<open>Encoding a slice of records: a nil slice is \<open>null\<close>, and one bad record spoils the whole.\<close>

definition records_json :: "admin_env \<Rightarrow> log_record list \<Rightarrow> string option" where
  "records_json E rs =
     (let js = map (json_record (ae_time_json E)) rs in
      if rs = [] then Some ''null'' else if None \<in> set js then None else Some (json_list (map the js)))"

definition recent_count :: "string \<Rightarrow> int" where
  "recent_count q =
     (let s = query_get q ''n'' in
      if s = [] then 100
      else (case atoi s of None \<Rightarrow> 100 | Some n \<Rightarrow> if n > 0 then n else 100))"

definition audit_recent_handler :: "admin_env \<Rightarrow> admin_request \<Rightarrow> admin_plane \<Rightarrow> reply" where
  "audit_recent_handler E r s =
     (case ap_audit s of
        None \<Rightarrow> answer (write_json 200 (Some (json_list [])) new_response) s
      | Some a \<Rightarrow> answer (write_json 200 (records_json E (audit_Recent (recent_count (rq_query r)) a)) new_response) s)"


section \<open>The audit log over HTTP\<close>

text \<open>
  \<open>bufio.Scanner\<close> with a buffer of at most 1 MiB: lines without their break and one carriage return, up to
  the first that does not fit, where the scan ends. Reading an opened file is taken to succeed.
\<close>

definition max_scan_token :: nat where "max_scan_token = 1048576"

definition raw_lines :: "bytes \<Rightarrow> bytes list" where
  "raw_lines c = (let ps = split_on newline c in if last ps = [] then butlast ps else ps)"

definition drop_cr :: "bytes \<Rightarrow> bytes" where
  "drop_cr l = (if l \<noteq> [] \<and> last l = CHR 0x0D then butlast l else l)"

definition scan_lines :: "bytes \<Rightarrow> bytes list" where
  "scan_lines c = map drop_cr (takeWhile (\<lambda>l. length l < max_scan_token) (raw_lines c))"

text \<open>The ring of the last \<open>linesN\<close> lines.\<close>

record line_ring =
  lg_slots :: "bytes list"
  lg_head :: nat
  lg_count :: nat

definition new_line_ring :: "nat \<Rightarrow> line_ring" where
  "new_line_ring n = \<lparr>lg_slots = replicate n [], lg_head = 0, lg_count = 0\<rparr>"

definition line_push :: "bytes \<Rightarrow> line_ring \<Rightarrow> line_ring" where
  "line_push l q =
     (let n = length (lg_slots q) in
      q\<lparr>lg_slots := (lg_slots q)[lg_head q := l], lg_head := (lg_head q + 1) mod n,
        lg_count := (if lg_count q < n then lg_count q + 1 else lg_count q)\<rparr>)"

definition line_contents :: "line_ring \<Rightarrow> bytes list" where
  "line_contents q =
     (let n = length (lg_slots q); start = (lg_head q + n - lg_count q) mod n in
      map (\<lambda>i. lg_slots q ! ((start + i) mod n)) [0..<lg_count q])"

definition max_audit_range_lines :: nat where "max_audit_range_lines = 10000"

datatype range_mode = TailLines nat | Between gotime gotime

definition parse_bound :: "admin_env \<Rightarrow> string \<Rightarrow> string \<Rightarrow> string + gotime" where
  "parse_bound E q name =
     (let s = query_get q name in
      if s = [] then Inr 0 else wrap_err (\<lambda>e. name @ '': '' @ e) (ae_parse_time E s))"

definition range_mode_of :: "admin_env \<Rightarrow> string \<Rightarrow> string + range_mode" where
  "range_mode_of E q =
     (let s = query_get q ''lines'' in
      if s \<noteq> [] then
        (case atoi s of
           None \<Rightarrow> Inl ''lines must be positive integer''
         | Some n \<Rightarrow> if n \<le> 0 then Inl ''lines must be positive integer''
             else Inr (TailLines (if nat n < max_audit_range_lines then nat n else max_audit_range_lines)))
      else andthen (parse_bound E q ''since'') (\<lambda>since.
           andthen (parse_bound E q ''until'') (\<lambda>until. Inr (Between since until))))"

text \<open>The filtering loop; \<open>emitted\<close> counts the lines written so far.\<close>

fun range_loop :: "(bytes \<Rightarrow> gotime option) \<Rightarrow> gotime \<Rightarrow> gotime \<Rightarrow> nat \<Rightarrow> bytes list \<Rightarrow> bytes list" where
  "range_loop rt since until emitted [] = []"
| "range_loop rt since until emitted (l # ls) =
     (if max_audit_range_lines \<le> emitted then []
      else (case rt l of
          None \<Rightarrow> range_loop rt since until emitted ls
        | Some t \<Rightarrow>
            if since \<noteq> 0 \<and> \<not> t > since then range_loop rt since until emitted ls
            else if until \<noteq> 0 \<and> t > until then range_loop rt since until emitted ls
            else l # range_loop rt since until (emitted + 1) ls))"

definition range_output :: "admin_env \<Rightarrow> range_mode \<Rightarrow> bytes list \<Rightarrow> bytes list" where
  "range_output E m ls =
     (case m of
        TailLines n \<Rightarrow> line_contents (fold line_push ls (new_line_ring n))
      | Between since until \<Rightarrow> range_loop (ae_record_time E) since until 0 ls)"

definition write_lines :: "bytes list \<Rightarrow> response_writer \<Rightarrow> response_writer" where
  "write_lines ls w = fold (\<lambda>l w. write_body [newline] (write_body l w)) ls w"

definition audit_range :: "admin_env \<Rightarrow> admin_request \<Rightarrow> admin_plane \<Rightarrow> reply" where
  "audit_range E r s =
     (case ap_audit s of
        None \<Rightarrow> answer (write_json_error 503 ''audit not configured'' new_response) s
      | Some a \<Rightarrow>
     (case range_mode_of E (rq_query r) of
        Inl msg \<Rightarrow> answer (write_json_error 400 msg new_response) s
      | Inr m \<Rightarrow>
     (case os_read_file (aw_path a) (ap_world s) of
        (Inl NotExist, w') \<Rightarrow>
          answer (start_response ''application/x-ndjson'' 200 new_response) (s\<lparr>ap_world := w'\<rparr>)
      | (Inl Failure, w') \<Rightarrow> answer (write_json_error 500 (ae_os_text E Failure) new_response) (s\<lparr>ap_world := w'\<rparr>)
      | (Inr c, w') \<Rightarrow>
          answer (write_lines (range_output E m (scan_lines c)) (start_response ''application/x-ndjson'' 200 new_response))
            (s\<lparr>ap_world := w'\<rparr>))))"

definition zero_time_json :: string where
  "zero_time_json = [quote] @ ''0001-01-01T00:00:00Z'' @ [quote]"

definition log_stat :: "admin_env \<Rightarrow> admin_plane \<Rightarrow> reply" where
  "log_stat E s =
     (case ap_audit s of
        None \<Rightarrow> answer (write_json_error 503 ''audit not configured'' new_response) s
      | Some a \<Rightarrow>
     (case audit_Stat a (ap_world s) of
        (Inl Failure, w') \<Rightarrow> answer (write_json_error 500 (ae_os_text E Failure) new_response) (s\<lparr>ap_world := w'\<rparr>)
      | (r, w') \<Rightarrow>
          answer (write_json 200 (Some (json_object
              [(''exists'', json_bool (is_ok r)),
               (''mtime'', if is_ok r then ae_mtime E w' (aw_path a) else zero_time_json),
               (''path'', json_string False (aw_path a)),
               (''size'', json_int (case r of Inr n \<Rightarrow> int n | Inl _ \<Rightarrow> 0))])) new_response)
            (s\<lparr>ap_world := w'\<rparr>)))"

definition log_rotate :: "admin_env \<Rightarrow> admin_plane \<Rightarrow> reply" where
  "log_rotate E s =
     (case ap_audit s of
        None \<Rightarrow> answer (write_json_error 503 ''audit not configured'' new_response) s
      | Some a \<Rightarrow>
     (case audit_Rotate (ae_stamp E) (ae_now E) a (ap_world s) of
        (dest, res, a', w') \<Rightarrow>
          (let s' = s\<lparr>ap_audit := Some a', ap_world := w'\<rparr> in
           case res of
             Inl e \<Rightarrow> answer (write_json_error 500 (ae_audit_text E e) new_response) s'
           | Inr _ \<Rightarrow> answer (write_json 200 (Some (json_strings [(''rotated_to'', dest)])) new_response) s')))"


section \<open>The live tail\<close>

text \<open>\<open>emit\<close>: the flag is whether the loop goes on; \<open>json.Marshal\<close> escapes HTML.\<close>

definition tail_emit :: "admin_env \<Rightarrow> log_record \<Rightarrow> response_writer \<Rightarrow> bool \<times> response_writer" where
  "tail_emit E rec w =
     (case record_json True (ae_time_json E) rec of
        None \<Rightarrow> (False, w)
      | Some d \<Rightarrow> (True, write_body (''id: '' @ ae_time_text E (lr_time rec) @ [newline] @ ''data: '' @ d
                   @ [newline, newline]) w))"

fun tail_backlog :: "admin_env \<Rightarrow> log_record list \<Rightarrow> response_writer \<Rightarrow> bool \<times> response_writer" where
  "tail_backlog E [] w = (True, w)"
| "tail_backlog E (r # rs) w =
     (case tail_emit E r w of (True, w') \<Rightarrow> tail_backlog E rs w' | (False, w') \<Rightarrow> (False, w'))"

text \<open>The head of the loop reports drops; then it waits in its \<open>select\<close>.\<close>

definition tail_drops :: "nat \<Rightarrow> audit_writer \<times> response_writer \<Rightarrow> audit_writer \<times> response_writer" where
  "tail_drops i aw = (case aw of (a, w) \<Rightarrow>
     (case dropped_and_reset i a of (n, a') \<Rightarrow>
        (a', if n > 0 then write_body (''event: dropped'' @ [newline] @ ''data: {'' @ [quote] @ ''count'' @ [quote]
               @ '':'' @ int_str n @ ''}'' @ [newline, newline]) w else w)))"

fun tail_loop :: "admin_env \<Rightarrow> nat \<Rightarrow> tail_event list \<Rightarrow> audit_writer \<times> response_writer \<Rightarrow> audit_writer \<times> response_writer" where
  "tail_loop E i [] aw = aw"
| "tail_loop E i (TailLogged r # es) (a, w) =
     tail_loop E i es (a\<lparr>aw_ring := ring_push r (aw_ring a), aw_subs := map (offer r) (aw_subs a)\<rparr>, w)"
| "tail_loop E i (TailReceive # es) (a, w) =
     (case sub_receive i a of
        (None, a') \<Rightarrow> tail_loop E i es (a', w)
      | (Some r, a') \<Rightarrow> (case tail_emit E r w of
          (False, w') \<Rightarrow> (a', w')
        | (True, w') \<Rightarrow> tail_loop E i es (tail_drops i (a', w'))))"
| "tail_loop E i (TailHeartbeat # es) (a, w) =
     tail_loop E i es (tail_drops i (a, write_body ('': heartbeat'' @ [newline, newline]) w))"
| "tail_loop E i (TailDone # es) aw = aw"

definition audit_tail :: "admin_env \<Rightarrow> admin_request \<Rightarrow> admin_plane \<Rightarrow> reply" where
  "audit_tail E r s =
     (case ap_audit s of
        None \<Rightarrow> answer (write_json_error 503 ''audit not configured'' new_response) s
      | Some a \<Rightarrow>
      if \<not> ae_flusher E then answer (write_json_error 500 ''streaming not supported'' new_response) s
      else
        (let last_id = header_get (rq_header r) ''Last-Event-ID'';
             after = (if last_id = [] then 0 else case ae_parse_time E last_id of Inl _ \<Rightarrow> 0 | Inr t \<Rightarrow> t);
             w0 = set_header ''X-Accel-Buffering'' ''no'' (set_header ''Connection'' ''keep-alive''
               (set_header ''Cache-Control'' ''no-cache'' (set_header ''Content-Type'' ''text/event-stream'' new_response)));
             w1 = snd (write_header 200 w0)
         in case audit_Subscribe 0 after a of ((i, backlog), a1) \<Rightarrow>
           (case tail_backlog E backlog w1 of
              (False, w2) \<Rightarrow> answer w2 (s\<lparr>ap_audit := Some (sub_close i a1)\<rparr>)
            | (True, w2) \<Rightarrow> (case tail_loop E i (ae_tail E) (tail_drops i (a1, w2)) of
                (a3, w3) \<Rightarrow> answer w3 (s\<lparr>ap_audit := Some (sub_close i a3)\<rparr>)))))"

section \<open>Changing endpoints\<close>

definition admin_metrics :: "admin_plane \<Rightarrow> reply" where
  "admin_metrics s =
     (let m = (case ap_metrics s of None \<Rightarrow> new_counters | Some m \<Rightarrow> m) in
      answer (write_body (render m) (start_response ''text/plain; version=0.0.4'' 200 new_response)) s)"

definition bundle_reload :: "admin_env \<Rightarrow> admin_plane \<Rightarrow> reply" where
  "bundle_reload E s =
     (case ae_reload E of
        None \<Rightarrow> answer (write_json_error 501 ''bundle reload not configured'' new_response) s
      | Some reload \<Rightarrow>
     (case reload (ap_updater s) (ap_world s) of (res, u', w') \<Rightarrow>
        (let s' = s\<lparr>ap_updater := u', ap_world := w'\<rparr> in
         case res of
           HookPanic p \<Rightarrow> (Some p, new_response, s')
         | HookErr e \<Rightarrow> answer (write_json_error 500 e new_response) s'
         | HookOk \<Rightarrow> answer (write_json 200 (Some (json_strings [(''status'', ''reloaded'')])) new_response) s')))"

definition rotate_server :: "admin_plane \<Rightarrow> reply" where
  "rotate_server s =
     answer (write_json_error 501 ''server cert rotation not yet implemented (P6.1)'' new_response) s"

definition max_binary_upload_bytes :: nat where "max_binary_upload_bytes = 33554432"

text \<open>\<open>http.MaxBytesReader\<close>: at most \<open>n\<close> bytes, then an error.\<close>

definition max_bytes_reader :: "nat \<Rightarrow> bytes \<Rightarrow> body_copy" where
  "max_bytes_reader n b = (if length b \<le> n then Whole b else Interrupted (take n b))"

text \<open>\<open>readPart\<close>: the part is missing, cannot be read, or is there.\<close>

definition read_part :: "(string \<Rightarrow> string + string + bytes) \<Rightarrow> string \<Rightarrow> string + bytes" where
  "read_part form name =
     (case form name of
        Inl e \<Rightarrow> Inl (''missing form file '' @ go_quote name @ '': '' @ e)
      | Inr (Inl e) \<Rightarrow> Inl (''read '' @ go_quote name @ '': '' @ e)
      | Inr (Inr b) \<Rightarrow> Inr b)"

definition upload_parts :: "admin_env \<Rightarrow> admin_request \<Rightarrow> string + bytes \<times> bytes" where
  "upload_parts E r =
     andthen (wrap_err (\<lambda>e. ''parse multipart: '' @ e)
                (ae_form E (rq_header r) (max_bytes_reader max_binary_upload_bytes (rq_body r)))) (\<lambda>form.
     andthen (read_part form ''binary'') (\<lambda>bin.
     andthen (read_part form ''signature'') (\<lambda>sig. Inr (bin, sig))))"

definition binary_upload :: "admin_env \<Rightarrow> admin_request \<Rightarrow> admin_plane \<Rightarrow> reply" where
  "binary_upload E r s =
     (case ae_accept E of
        None \<Rightarrow> answer (write_json_error 501 ''binary upload not configured'' new_response) s
      | Some accept \<Rightarrow>
     (case upload_parts E r of
        Inl e \<Rightarrow> answer (write_json_error 400 e new_response) s
      | Inr (bin, sig) \<Rightarrow>
     (case accept bin sig (ap_world s) of (res, w') \<Rightarrow>
        (let s' = s\<lparr>ap_world := w'\<rparr> in
         case res of
           HookPanic p \<Rightarrow> (Some p, new_response, s')
         | HookErr e \<Rightarrow> answer (write_json_error 400 e new_response) s'
         | HookOk \<Rightarrow> answer (write_json 200 (Some (json_strings [(''status'', ''staged'')])) new_response) s'))))"

definition client_serials :: "admin_env \<Rightarrow> admin_request \<Rightarrow> admin_plane \<Rightarrow> reply" where
  "client_serials E r s =
     (case ap_allow s of
        None \<Rightarrow> answer (write_json_error 500 ''no allowlist configured'' new_response) s
      | Some al \<Rightarrow>
     (case ae_decode_serials E (rq_body r) of
        Inl e \<Rightarrow> answer (write_json_error 400 (''invalid json: '' @ e) new_response) s
      | Inr (orders, admins) \<Rightarrow>
     (case replace_serials orders admins al of
        (Inl e, al') \<Rightarrow> answer (write_json_error 400 (ae_allow_text E e) new_response) (s\<lparr>ap_allow := Some al'\<rparr>)
      | (Inr _, al') \<Rightarrow>
          answer (write_json 200 (Some (json_strings [(''status'', ''ok'')])) new_response) (s\<lparr>ap_allow := Some al'\<rparr>))))"


section \<open>Dispatch\<close>

datatype endpoint = Healthz | Status | Profiles | AuditRecent | AuditTail | AuditRange | LogStat | LogRotate
  | MetricsPage | BundleReload | RotateServer | ClientSerials | BinaryUpload

definition admin_routes :: "(string \<times> string \<times> endpoint) list" where
  "admin_routes =
     [(''GET'', ''/admin/healthz'', Healthz), (''GET'', ''/admin/status'', Status),
      (''GET'', ''/admin/profiles'', Profiles), (''GET'', ''/admin/audit/recent'', AuditRecent),
      (''GET'', ''/admin/audit/tail'', AuditTail), (''GET'', ''/admin/audit/range'', AuditRange),
      (''GET'', ''/admin/log/stat'', LogStat), (''POST'', ''/admin/log/rotate'', LogRotate),
      (''GET'', ''/admin/metrics'', MetricsPage), (''POST'', ''/admin/bundle/reload'', BundleReload),
      (''POST'', ''/admin/cert/rotate-server'', RotateServer),
      (''POST'', ''/admin/client-serials'', ClientSerials), (''POST'', ''/admin/binary/upload'', BinaryUpload)]"

text \<open>
  The multiplexer on these patterns: each has its own path, a GET pattern also takes HEAD, and a path that
  is registered for another method only is answered 405.
\<close>

datatype routing = Routed endpoint | WrongMethod string | NotRouted

definition method_matches :: "string \<Rightarrow> string \<Rightarrow> bool" where
  "method_matches pat m = (pat = m \<or> pat = ''GET'' \<and> m = ''HEAD'')"

definition route_admin :: "string \<Rightarrow> string \<Rightarrow> routing" where
  "route_admin m escaped =
     (case find (\<lambda>(_, p, _). split_on (CHR ''/'') p = path_segments escaped) admin_routes of
        None \<Rightarrow> NotRouted
      | Some (pat, _, e) \<Rightarrow> if method_matches pat m then Routed e
          else WrongMethod (if pat = ''GET'' then ''GET, HEAD'' else pat))"

definition handle :: "admin_env \<Rightarrow> admin_request \<Rightarrow> endpoint \<Rightarrow> admin_plane \<Rightarrow> reply" where
  "handle E r e s =
     (case e of
        Healthz \<Rightarrow> healthz s
      | Status \<Rightarrow> admin_status E s
      | Profiles \<Rightarrow> profiles E s
      | AuditRecent \<Rightarrow> audit_recent_handler E r s
      | AuditTail \<Rightarrow> audit_tail E r s
      | AuditRange \<Rightarrow> audit_range E r s
      | LogStat \<Rightarrow> log_stat E s
      | LogRotate \<Rightarrow> log_rotate E s
      | MetricsPage \<Rightarrow> admin_metrics s
      | BundleReload \<Rightarrow> bundle_reload E s
      | RotateServer \<Rightarrow> rotate_server s
      | ClientSerials \<Rightarrow> client_serials E r s
      | BinaryUpload \<Rightarrow> binary_upload E r s)"

text \<open>
  The default \<open>RoleFunc\<close>, \<open>None\<close> where it panics: a nil allowlist is dereferenced once the peer has
  shown a certificate.
\<close>

definition caller_role :: "admin_env \<Rightarrow> admin_request \<Rightarrow> admin_plane \<Rightarrow> role option" where
  "caller_role E r s =
     (case ae_role E of
        Some f \<Rightarrow> Some (f r)
      | None \<Rightarrow>
     (case ap_allow s of
        Some al \<Rightarrow> Some (peer_role al (map_option (map Some) (rq_peers r)))
      | None \<Rightarrow> (case rq_peers r of Some (n # ns) \<Rightarrow> None | _ \<Rightarrow> Some RoleNone)))"

definition guard :: "admin_env \<Rightarrow> admin_request \<Rightarrow> endpoint \<Rightarrow> admin_plane \<Rightarrow> reply" where
  "guard E r e s =
     (case caller_role E r s of
        None \<Rightarrow> (Some ''nil pointer dereference'', new_response, s)
      | Some role \<Rightarrow>
          if \<not> role_allows role RoleAdmin then answer (write_json_error 403 ''admin role required'' new_response) s
          else handle E r e s)"

text \<open>\<open>http.Error\<close>, as the multiplexer calls it.\<close>

definition plain_error :: "nat \<Rightarrow> string \<Rightarrow> response_writer \<Rightarrow> response_writer" where
  "plain_error status msg w =
     write_body (msg @ [newline])
       (start_response ''text/plain; charset=utf-8'' status (set_header ''X-Content-Type-Options'' ''nosniff'' w))"

definition mux_serve :: "admin_env \<Rightarrow> admin_request \<Rightarrow> admin_plane \<Rightarrow> reply" where
  "mux_serve E r s =
     (case route_admin (rq_method r) (ar_escaped r) of
        Routed e \<Rightarrow> guard E r e s
      | WrongMethod allow \<Rightarrow>
          answer (plain_error 405 ''Method Not Allowed'' (set_header ''Allow'' allow new_response)) s
      | NotRouted \<Rightarrow> answer (plain_error 404 ''404 page not found'' new_response) s)"

text \<open>\<open>ServeHTTP\<close> with its recovery; the response and the state after it.\<close>

definition admin_serve :: "admin_env \<Rightarrow> admin_request \<Rightarrow> admin_plane \<Rightarrow> response_writer \<times> admin_plane" where
  "admin_serve E r s =
     (case mux_serve E r s of
        (None, w, s') \<Rightarrow> (w, s')
      | (Some p, w, s') \<Rightarrow> (write_json_error 500 ''internal server error'' w, s'))"

end
