(* ===== verification/AdminFacts.thy ===== *)
theory AdminFacts
  imports Admin
begin

text \<open>
  The properties of the admin plane: who may change what, what the endpoints answer, and how they agree
  with the components behind them.
\<close>

section \<open>The ring of lines\<close>

definition line_wf :: "line_ring \<Rightarrow> bool" where
  "line_wf q = (lg_head q < length (lg_slots q) \<and> lg_count q \<le> length (lg_slots q))"

definition line_cap :: "line_ring \<Rightarrow> nat" where "line_cap q = length (lg_slots q)"

lemma line_contents_circ: "line_contents q = circ_window (lg_slots q) (lg_head q) (lg_count q)"
  by (simp add: line_contents_def circ_window_def Let_def)

lemma line_push_contents:
  assumes "line_wf q"
  shows "line_contents (line_push l q) = lastn (line_cap q) (line_contents q @ [l])"
proof (cases "lg_count q < length (lg_slots q)")
  case True
  with assms circ_window_push [of "lg_head q" "lg_slots q" "lg_count q" l] show ?thesis
    by (simp add: line_wf_def line_cap_def line_push_def line_contents_circ Let_def lastn_all)
next
  case False
  with assms circ_window_push_full [of "lg_head q" "lg_slots q" l] show ?thesis
    by (simp add: line_wf_def line_cap_def line_push_def line_contents_circ Let_def)
qed

interpretation line_window: bounded_log line_push line_contents line_cap line_wf
proof (unfold_locales, goal_cases)
  case (1 q e)
  then have "length (lg_slots q) \<noteq> 0" by (auto simp: line_wf_def)
  with 1 show ?case by (simp add: line_wf_def line_push_def Let_def)
next
  case (3 q e)
  then show ?case by (rule line_push_contents)
qed (auto simp: line_wf_def line_cap_def line_push_def line_contents_circ Let_def)

lemma line_ring_last:
  assumes "0 < n"
  shows "line_contents (fold line_push ls (new_line_ring n)) = lastn n ls"
proof -
  have "line_wf (new_line_ring n)" "line_cap (new_line_ring n) = n" "line_contents (new_line_ring n) = []"
    using assms by (simp_all add: line_wf_def line_cap_def new_line_ring_def line_contents_circ circ_window_def)
  then show ?thesis using line_window.pushes(3) [of "new_line_ring n" ls] by simp
qed

section \<open>Lines and filters\<close>

definition in_range :: "(bytes \<Rightarrow> gotime option) \<Rightarrow> gotime \<Rightarrow> gotime \<Rightarrow> bytes \<Rightarrow> bool" where
  "in_range rt since until l =
     (case rt l of None \<Rightarrow> False | Some t \<Rightarrow> (since = 0 \<or> since < t) \<and> (until = 0 \<or> t \<le> until))"

lemma range_loop_eq:
  "range_loop rt a b k ls = take (max_audit_range_lines - k) (filter (in_range rt a b) ls)"
proof (induction ls arbitrary: k)
  case (Cons l ls)
  show ?case
  proof (cases "max_audit_range_lines \<le> k")
    case False
    then obtain d where d: "max_audit_range_lines - k = Suc d" by (metis Suc_diff_Suc not_le)
    then have "max_audit_range_lines - Suc k = d" by simp
    with d False Cons show ?thesis by (auto simp: in_range_def split: option.splits)
  qed simp
qed simp

definition terminated :: "bytes list \<Rightarrow> bytes" where
  "terminated ls = concat (map (\<lambda>l. l @ [newline]) ls)"

lemma terminated_simps [simp]: "terminated [] = []" "terminated (l # ls) = l @ newline # terminated ls"
  by (simp_all add: terminated_def)

definition log_line :: "bytes \<Rightarrow> bool" where
  "log_line l = (one_line l \<and> length l < max_scan_token \<and> (l \<noteq> [] \<longrightarrow> last l \<noteq> CHR 0x0D))"

lemma scan_terminated: "\<forall>l\<in>set ls. log_line l \<Longrightarrow> scan_lines (terminated ls) = ls"
proof -
  assume ls: "\<forall>l\<in>set ls. log_line l"
  then have "raw_lines (terminated ls) = ls"
    using split_lines [of ls] by (simp add: raw_lines_def terminated_def log_line_def)
  moreover have "takeWhile (\<lambda>l. length l < max_scan_token) ls = ls" "map drop_cr ls = ls"
    using ls by (auto simp: log_line_def drop_cr_def intro!: map_idI)
  ultimately show ?thesis by (simp only: scan_lines_def)
qed

lemma write_lines_open:
  "rw_sent w = Some (200, h) \<Longrightarrow>
     write_lines ls w = w\<lparr>rw_body := rw_body w @ terminated ls\<rparr>"
  unfolding write_lines_def
proof (induction ls arbitrary: w)
  case (Cons l ls)
  have "write_body [newline] (write_body l w) = w\<lparr>rw_body := rw_body w @ l @ [newline]\<rparr>"
    using Cons.prems by (simp add: write_body_def write_header_def body_allowed_def)
  with Cons show ?case by simp
qed simp

lemma start_response_sent:
  "200 \<le> st \<Longrightarrow> st \<le> 999 \<Longrightarrow> start_response ct st new_response =
     \<lparr>rw_header = header_set ''Content-Type'' ct Map.empty,
      rw_sent = Some (st, header_set ''Content-Type'' ct Map.empty), rw_body = []\<rparr>"
  by (simp add: start_response_def set_header_def write_header_def new_response_def)

definition read_range :: "admin_env \<Rightarrow> range_mode \<Rightarrow> bytes list \<Rightarrow> bytes list" where
  "read_range E m ls =
     (case m of
        TailLines n \<Rightarrow> lastn n ls
      | Between since until \<Rightarrow> take max_audit_range_lines (filter (in_range (ae_record_time E) since until) ls))"

lemma range_mode_positive: "range_mode_of E q = Inr (TailLines n) \<Longrightarrow> 0 < n \<and> n \<le> max_audit_range_lines"
  by (auto simp: range_mode_of_def Let_def max_audit_range_lines_def split: if_splits option.splits)

lemma range_output_eq: "range_mode_of E q = Inr m \<Longrightarrow> range_output E m ls = read_range E m ls"
  by (cases m) (auto simp: range_output_def read_range_def range_loop_eq line_ring_last dest: range_mode_positive)



lemma audit_range_answer:
  assumes "ap_audit s = Some a" and "healthy (ap_world s)" and "content_of (ap_world s) (aw_path a) = Some c"
    and "range_mode_of E (rq_query r) = Inr m"
  obtains w s' h where "audit_range E r s = (None, w, s')" "rw_sent w = Some (200, h)"
    "rw_body w = terminated (read_range E m (scan_lines c))" "files (ap_world s') = files (ap_world s)"
proof -
  from os_read_file_healthy [OF assms(2,3)] obtain w' where
    w': "os_read_file (aw_path a) (ap_world s) = (Inr c, w')" "files w' = files (ap_world s)" by blast
  let ?w = "start_response ''application/x-ndjson'' 200 new_response"
  have w: "rw_sent ?w = Some (200, header_set ''Content-Type'' ''application/x-ndjson'' Map.empty)" "rw_body ?w = []"
    by (simp_all add: start_response_sent)
  then have "write_lines ls ?w = ?w\<lparr>rw_body := terminated ls\<rparr>" for ls
    by (simp add: write_lines_open)
  then show ?thesis
    using that [of "?w\<lparr>rw_body := terminated (read_range E m (scan_lines c))\<rparr>" "s\<lparr>ap_world := w'\<rparr>"] assms w w'
    by (simp add: audit_range_def answer_def range_output_eq)
qed

section \<open>Who may change what\<close>

definition status_of :: "response_writer \<Rightarrow> nat option" where
  "status_of w = map_option fst (rw_sent w)"

lemma write_body_status: "status_of w = Some st \<Longrightarrow> status_of (write_body b w) = Some st"
  by (auto simp: status_of_def write_body_def write_header_def Let_def split: if_splits)

lemma start_response_status: "200 \<le> st \<Longrightarrow> st \<le> 999 \<Longrightarrow> rw_sent w = None \<Longrightarrow> status_of (start_response ct st w) = Some st"
  by (simp add: start_response_def set_header_def write_header_def status_of_def)

lemma fresh_unsent [simp]: "rw_sent new_response = None" "rw_sent (set_header k v w) = rw_sent w"
  by (simp_all add: new_response_def set_header_def)

lemma statuses [simp]:
  "200 \<le> st \<Longrightarrow> st \<le> 999 \<Longrightarrow> rw_sent w = None \<Longrightarrow> status_of (write_json_error st msg w) = Some st"
  "200 \<le> st \<Longrightarrow> st \<le> 999 \<Longrightarrow> rw_sent w = None \<Longrightarrow> status_of (write_json st v w) = Some st"
  "200 \<le> st \<Longrightarrow> st \<le> 999 \<Longrightarrow> rw_sent w = None \<Longrightarrow> status_of (plain_error st msg w) = Some st"
  by (auto simp: write_json_error_def write_json_def plain_error_def start_response_status Let_def
      intro!: write_body_status split: option.splits)

lemma guard_refuses:
  "caller_role E r s = Some role \<Longrightarrow> role \<noteq> RoleAdmin \<Longrightarrow>
     guard E r e s = (None, write_json_error 403 ''admin role required'' new_response, s)"
  by (cases role) (auto simp: guard_def role_allows_def role_order answer_def)

text \<open>Endpoints for GET leave everything but the subscribers of the audit log as it was.\<close>

definition same_service :: "admin_plane \<Rightarrow> admin_plane \<Rightarrow> bool" where
  "same_service s s' = (ap_updater s' = ap_updater s \<and> ap_allow s' = ap_allow s \<and> ap_metrics s' = ap_metrics s
     \<and> files (ap_world s') = files (ap_world s))"

definition posts :: "endpoint list" where
  "posts = [LogRotate, BundleReload, RotateServer, ClientSerials, BinaryUpload]"

lemma stat_files: "audit_Stat a w = (r, w') \<Longrightarrow> files w' = files w"
  by (auto simp: audit_Stat_def split: prod.splits sum.splits dest: reads_frame(2))

lemma reads_change_nothing:
  assumes "e \<notin> set posts" and "handle E r e s = (p, w, s')"
  shows "same_service s s' \<and> (e \<noteq> AuditTail \<longrightarrow> ap_audit s' = ap_audit s)"
proof -
  have range: "same_service s s' \<and> ap_audit s' = ap_audit s" if "audit_range E r s = (p, w, s')"
    using that
    by (auto simp: audit_range_def answer_def same_service_def split: option.splits sum.splits prod.splits os_err.splits
        dest: reads_frame(1))
  have stat: "same_service s s' \<and> ap_audit s' = ap_audit s" if "log_stat E s = (p, w, s')"
    using that
    by (auto simp: log_stat_def answer_def same_service_def split: option.splits sum.splits prod.splits os_err.splits
        dest: stat_files)
  have tail: "same_service s s'" if "audit_tail E r s = (p, w, s')"
    using that
    by (auto simp: audit_tail_def answer_def same_service_def Let_def split: option.splits sum.splits prod.splits bool.splits if_splits)
  have rest: "same_service s s' \<and> ap_audit s' = ap_audit s"
    if "e \<in> {Healthz, Status, Profiles, AuditRecent, MetricsPage}"
    using that assms(2)
    by (auto simp: handle_def healthz_def admin_status_def profiles_def audit_recent_handler_def admin_metrics_def
        answer_def same_service_def split: option.splits)
  show ?thesis
    using assms range stat tail rest by (cases e) (auto simp: handle_def posts_def)
qed

lemma routed_posts:
  "route_admin m p = Routed e \<Longrightarrow> e \<in> set posts \<Longrightarrow> m = ''POST''"
  by (auto simp: route_admin_def admin_routes_def method_matches_def posts_def split: if_splits)


section \<open>Properties\<close>

text \<open>
  C9: A caller whose certificate does not have the admin role gets nothing from the admin plane and
  changes nothing: on every registered endpoint the answer is the fixed 403, elsewhere 404 or 405. Whoever
  calls, only POST changes a file, the live router, the allowlist or a counter.
\<close>

theorem admin_gate:
  assumes "admin_serve E r s = (w, s')"
  shows "(caller_role E r s \<noteq> Some RoleAdmin \<longrightarrow> s' = s \<and> status_of w \<in> {Some 403, Some 404, Some 405, Some 500})
    \<and> (\<forall>e role. route_admin (rq_method r) (ar_escaped r) = Routed e \<and> caller_role E r s = Some role \<and> role \<noteq> RoleAdmin
         \<longrightarrow> w = write_json_error 403 ''admin role required'' new_response)
    \<and> (rq_method r \<noteq> ''POST'' \<longrightarrow> same_service s s')"
proof (cases "route_admin (rq_method r) (ar_escaped r)")
  case (Routed e)
  show ?thesis
  proof (cases "caller_role E r s")
    case None
    with assms Routed show ?thesis
      by (auto simp: admin_serve_def mux_serve_def guard_def same_service_def)
  next
    case (Some role)
    show ?thesis
    proof (cases "role = RoleAdmin")
      case True
      obtain p w1 where h: "handle E r e s = (p, w1, s')"
        using assms Routed Some True
        by (auto simp: admin_serve_def mux_serve_def guard_def role_allows_def split: prod.splits option.splits)
      have "same_service s s'" if "rq_method r \<noteq> ''POST''"
        using reads_change_nothing [OF _ h] routed_posts [OF Routed] that by blast
      with Some True show ?thesis by simp
    next
      case False
      with assms Routed Some guard_refuses [OF Some False] show ?thesis
        by (auto simp: admin_serve_def mux_serve_def same_service_def)
    qed
  qed
qed (use assms in \<open>auto simp: admin_serve_def mux_serve_def answer_def same_service_def\<close>)

text \<open>A run of requests against the admin plane, each with the surroundings it meets.\<close>

definition serve_run :: "(admin_env \<times> admin_request) list \<Rightarrow> admin_plane \<Rightarrow> admin_plane" where
  "serve_run rs s = foldl (\<lambda>t (E, r). snd (admin_serve E r t)) s rs"

definition locked_out :: "admin_plane \<Rightarrow> bool" where
  "locked_out s = (\<exists>al. ap_allow s = Some al \<and> (\<forall>n. classify al n = RoleNone))"

lemma locked_out_role:
  assumes "locked_out s" and "ae_role E = None"
  shows "caller_role E r s = Some RoleNone"
  using assms by (auto simp: locked_out_def caller_role_def peer_role_def split: option.splits list.splits)

lemma locked_out_serve: "locked_out s \<Longrightarrow> ae_role E = None \<Longrightarrow> snd (admin_serve E r s) = s"
  using guard_refuses [OF locked_out_role [of s E r]]
  by (auto simp: admin_serve_def mux_serve_def answer_def split: routing.splits)

lemma locked_out_run:
  "locked_out s \<Longrightarrow> list_all (\<lambda>(E, r). ae_role E = None) rs \<Longrightarrow> serve_run rs s = s"
  by (induction rs) (auto simp: serve_run_def locked_out_serve)

lemma posted_serials:
  assumes "ap_allow s = Some al" and "ae_decode_serials E (rq_body r) = Inr (orders, admins)"
    and "ae_role E' = None" and "client_serials E r s = (p, w, s')"
  shows "(status_of w = Some 200 \<and> p = None \<and>
            (\<forall>r' n ns. rq_peers r' = Some (n # ns) \<longrightarrow> caller_role E' r' s' = Some (role_by orders admins n)))
         \<or> (status_of w = Some 400 \<and> s' = s)"
    and "orders = [] \<and> admins = [] \<Longrightarrow> status_of w = Some 200 \<and>
            (\<forall>rs. list_all (\<lambda>(E, r). ae_role E = None) rs \<longrightarrow> serve_run rs s' = s')"
proof -
  obtain res al' where rep: "replace_serials orders admins al = (res, al')" by fastforce
  have s': "s' = s\<lparr>ap_allow := Some al'\<rparr>" and w: "status_of w = Some (if is_ok res then 200 else 400)" and p: "p = None"
    using assms(1,2,4) rep by (auto simp: client_serials_def answer_def split: sum.splits)
  have ok: "classify al' (Some n) = role_by orders admins n" if "is_ok res" for n
  proof -
    from rep that obtain ok ak where "parse_serials orders = Inr ok" "parse_serials admins = Inr ak"
      "al' = al\<lparr>al_order := Some ok, al_admin := Some ak\<rparr>"
      by (auto simp: replace_serials_def split: sum.splits)
    then show ?thesis by (intro classify_cells) simp_all
  qed
  have bad: "al' = al" if "\<not> is_ok res"
    using rep that by (auto simp: replace_serials_def split: sum.splits)
  show "(status_of w = Some 200 \<and> p = None \<and>
            (\<forall>r' n ns. rq_peers r' = Some (n # ns) \<longrightarrow> caller_role E' r' s' = Some (role_by orders admins n)))
         \<or> (status_of w = Some 400 \<and> s' = s)"
    using s' w p ok bad assms(1,3) by (cases "is_ok res") (auto simp: caller_role_def peer_role_def)
  show "status_of w = Some 200 \<and> (\<forall>rs. list_all (\<lambda>(E, r). ae_role E = None) rs \<longrightarrow> serve_run rs s' = s')"
    if "orders = [] \<and> admins = []"
  proof -
    from that rep have r: "is_ok res" "al_order al' = Some {}" "al_admin al' = Some {}"
      by (auto simp: replace_serials_def parse_serials_def)
    then have "classify al' n = RoleNone" for n
      by (cases n) (simp_all add: classify_def listed_def)
    then have "locked_out s'" by (simp add: locked_out_def s')
    with w r(1) show ?thesis by (simp add: locked_out_run)
  qed
qed

text \<open>
  C23: A POST to client-serials answers 200 and then every later caller has the role the two new lists give
  its serial, or it answers 400 and the allowlist is as before. Two empty lists, which is what the body
  \<open>{}\<close> decodes to, are accepted, and from then on no sequence of admin requests changes anything.
\<close>

theorem client_serials_effect:
  assumes "ap_allow s = Some al" and "ae_decode_serials E (rq_body r) = Inr (orders, admins)"
    and "ae_role E' = None" and "client_serials E r s = (p, w, s')"
  shows "(status_of w = Some 200 \<and> p = None \<and>
            (\<forall>r' n ns. rq_peers r' = Some (n # ns) \<longrightarrow> caller_role E' r' s' = Some (role_by orders admins n))
          \<or> status_of w = Some 400 \<and> s' = s)
    \<and> (orders = [] \<and> admins = [] \<longrightarrow> status_of w = Some 200 \<and>
            (\<forall>rs. list_all (\<lambda>(E, r). ae_role E = None) rs \<longrightarrow> serve_run rs s' = s'))"
  using posted_serials [OF assms] by blast

text \<open>
  After any records were logged to a fresh audit log, GET audit/range with lines=n answers 200 with
  exactly the lines of the last n of them (10000 at most), in order; with since and until it answers the
  first 10000 lines whose time lies in that range. Lines of a mebibyte or more would end the scan.
\<close>

theorem audit_range_serves_log:
  assumes "log_all tj xs a0 w0 = (Inr u, a, ap_world s)" and "ap_audit s = Some a" and "healthy (ap_world s)"
    and "aw_file a0 = Some (aw_path a0)" and "content_of w0 (aw_path a0) = Some []"
    and lines: "list_all (\<lambda>x. log_line (the (json_record tj (stamped x)))) xs"
    and "range_mode_of E (rq_query r) = Inr m"
  shows "\<exists>w s'. audit_range E r s = (None, w, s') \<and> status_of w = Some 200
    \<and> rw_body w = terminated (read_range E m (map (\<lambda>x. the (json_record tj (stamped x))) xs))
    \<and> files (ap_world s') = files (ap_world s)"
proof -
  let ?ls = "map (\<lambda>x. the (json_record tj (stamped x))) xs"
  from log_all_ok [OF assms(1)] assms(4,5)
  have c: "content_of (ap_world s) (aw_path a) = Some (terminated ?ls)"
    by (simp add: terminated_def comp_def)
  have "scan_lines (terminated ?ls) = ?ls"
    using lines by (intro scan_terminated) (auto simp: list_all_iff)
  with audit_range_answer [OF assms(2,3) c assms(7)] show ?thesis
    by (metis (mono_tags, lifting) fst_conv option.map(2) status_of_def)
qed

text \<open>A fresh log is answered as \<open>null\<close>, no log at all as an empty list.\<close>

lemma recent_null:
  "ap_audit s = Some a \<Longrightarrow> audit_Recent (recent_count (rq_query r)) a = [] \<Longrightarrow>
     audit_recent_handler E r s = answer (write_json 200 (Some ''null'') new_response) s"
  by (simp add: audit_recent_handler_def records_json_def)


section \<open>Examples\<close>

definition ex_env :: admin_env where
  "ex_env = \<lparr>ae_version = ''v1'', ae_uptime = 3, ae_broker_order = [], ae_reload = None, ae_accept = None,
     ae_role = None, ae_now = 9, ae_stamp = int_str, ae_time_json = ex_time_json, ae_time_text = int_str,
     ae_mtime = (\<lambda>w p. ''0''), ae_parse_time = (\<lambda>s. case atoi s of None \<Rightarrow> Inl ''bad'' | Some t \<Rightarrow> Inr t),
     ae_record_time = (\<lambda>l. None),
     ae_decode_serials = (\<lambda>b. if b = ''{}'' then Inr ([], []) else Inl ''bad''),
     ae_form = (\<lambda>h b. Inl ''no form''), ae_flusher = True, ae_tail = [],
     ae_os_text = (\<lambda>e. ''os''), ae_audit_text = (\<lambda>e. ''audit''), ae_allow_text = (\<lambda>e. ''serial'')\<rparr>"

definition ex_plane :: admin_plane where
  "ex_plane = \<lparr>ap_updater = new_updater (new_holder None),
     ap_allow = Some \<lparr>al_order = Some {''7''}, al_admin = Some {''9''}\<rparr>,
     ap_audit = Some ex_writer, ap_metrics = Some new_counters, ap_world = ex_audit_world []\<rparr>"

definition ex_admin_request :: "string \<Rightarrow> string \<Rightarrow> string \<Rightarrow> int \<Rightarrow> bytes \<Rightarrow> admin_request" where
  "ex_admin_request m p q n b = \<lparr>rq_method = m, rq_path = p, rq_query = q, rq_header = Map.empty,
     rq_peers = Some [n], rq_body = b, ar_escaped = p\<rparr>"

theorem admin_gate_witness:
  "admin_serve ex_env (ex_admin_request ''POST'' ''/admin/client-serials'' [] 7 ''{}'') ex_plane
     = (write_json_error 403 ''admin role required'' new_response, ex_plane)"
proof -
  let ?r = "ex_admin_request ''POST'' ''/admin/client-serials'' [] 7 ''{}''"
  obtain w s' where t: "admin_serve ex_env ?r ex_plane = (w, s')" by fastforce
  have route: "route_admin (rq_method ?r) (ar_escaped ?r) = Routed ClientSerials" by code_simp
  have "int_str 7 = ''7''" by code_simp
  then have "caller_role ex_env ?r ex_plane = Some RoleOrder"
    by (simp add: caller_role_def ex_env_def ex_plane_def ex_admin_request_def peer_role_def classify_def listed_def)
  with admin_gate [OF t] route t show ?thesis by auto
qed

theorem client_serials_effect_witness:
  "\<exists>w s'. client_serials ex_env (ex_admin_request ''POST'' ''/admin/client-serials'' [] 9 ''{}'') ex_plane = (None, w, s')
     \<and> status_of w = Some 200
     \<and> caller_role ex_env (ex_admin_request ''POST'' ''/admin/client-serials'' [] 9 []) s' = Some RoleNone
     \<and> serve_run [(ex_env, ex_admin_request ''POST'' ''/admin/client-serials'' [] 9 [])] s' = s'"
proof -
  let ?r = "ex_admin_request ''POST'' ''/admin/client-serials'' [] 9 ''{}''"
  let ?r' = "ex_admin_request ''POST'' ''/admin/client-serials'' [] 9 []"
  have al: "ap_allow ex_plane = Some \<lparr>al_order = Some {''7''}, al_admin = Some {''9''}\<rparr>"
    and d: "ae_decode_serials ex_env (rq_body ?r) = Inr ([], [])" and n: "ae_role ex_env = None"
    by (simp_all add: ex_plane_def ex_env_def ex_admin_request_def)
  obtain p w s' where t: "client_serials ex_env ?r ex_plane = (p, w, s')" by (metis prod.collapse)
  have two: "status_of w = Some 200 \<and> (\<forall>rs. list_all (\<lambda>(E, r). ae_role E = None) rs \<longrightarrow> serve_run rs s' = s')"
    using client_serials_effect [OF al d n t] by simp
  moreover have peers: "rq_peers ?r' = Some [9]" by (simp add: ex_admin_request_def)
  ultimately have "p = None \<and> caller_role ex_env ?r' s' = Some RoleNone"
    using client_serials_effect [OF al d n t] by (auto simp: role_by_def denotes_def)
  with two n t show ?thesis by auto
qed

lemma ex_lines_small:
  "list_all (\<lambda>x. one_line (the (json_record ex_time_json (stamped x)))
     \<and> length (the (json_record ex_time_json (stamped x))) < 120
     \<and> last (the (json_record ex_time_json (stamped x))) = CHR ''}'') ex_records"
  by code_simp

lemma ex_range_mode: "range_mode_of ex_env ''lines=2'' = Inr (TailLines 2)"
proof -
  have "query_get ''lines=2'' ''lines'' = ''2''" "atoi ''2'' = Some 2" by code_simp+
  then show ?thesis by (simp add: range_mode_of_def max_audit_range_lines_def)
qed

theorem audit_range_serves_log_witness:
  "\<exists>a w' w s'. log_all ex_time_json ex_records ex_writer (ex_audit_world []) = (Inr (), a, w')
     \<and> audit_range ex_env (ex_admin_request ''GET'' ''/admin/audit/range'' ''lines=2'' 9 [])
         (ex_plane\<lparr>ap_audit := Some a, ap_world := w'\<rparr>) = (None, w, s')
     \<and> status_of w = Some 200
     \<and> rw_body w = terminated (lastn 2 (map (\<lambda>x. the (json_record ex_time_json (stamped x))) ex_records))"
proof -
  obtain a w' where l: "log_all ex_time_json ex_records ex_writer (ex_audit_world []) = (Inr (), a, w')"
    using ex_log by blast
  have "healthy (snd (snd (log_all ex_time_json ex_records ex_writer (ex_audit_world []))))" by code_simp
  with l have h: "healthy (ap_world (ex_plane\<lparr>ap_audit := Some a, ap_world := w'\<rparr>))" by simp
  have lines: "list_all (\<lambda>x. log_line (the (json_record ex_time_json (stamped x)))) ex_records"
    using ex_lines_small by (auto simp: list_all_iff log_line_def max_scan_token_def)
  have m: "range_mode_of ex_env (rq_query (ex_admin_request ''GET'' ''/admin/audit/range'' ''lines=2'' 9 [])) = Inr (TailLines 2)"
    using ex_range_mode by (simp add: ex_admin_request_def)
  have f: "aw_file ex_writer = Some (aw_path ex_writer)" "content_of (ex_audit_world []) (aw_path ex_writer) = Some []"
    by (simp_all add: ex_writer_def ex_audit_world_def content_of_def)
  show ?thesis
    using audit_range_serves_log [OF _ _ h f lines m, of "()" a] l by (fastforce simp: read_range_def)
qed

end
