(* ===== verification/Command.thy ===== *)
theory Command
  imports Admin BinUpd Egress Config BundleUpdFacts
begin

text \<open>
  The proxy command, \<open>cmd/proxy/main.go\<close>: flags, the two rollback modes, the order in which \<open>serve\<close>
  brings the components up, and what a signal, a timer, a request or a shutdown does to the service they
  form. Events are taken one at a time; inside the program the handlers, the polling loop and the signal
  loop run concurrently and share the updater, the log and the allowlist.
\<close>

section \<open>Flags and modes\<close>

record cmd_flags =
  config_path :: path
  show_version :: bool
  log_level_flag :: string
  log_format_flag :: string
  rollback_bundle_flag :: bool
  rollback_binary_flag :: bool

text \<open>What \<open>flag.FlagSet.Parse\<close> gives: help was asked for, a bad flag, or the values.\<close>

datatype parsed_flags = FlagHelp | FlagError string | FlagsParsed cmd_flags

definition default_config_path :: path where
  "default_config_path = ''/etc/tesseract-proxy/proxy.conf.yaml''"

definition default_flags :: cmd_flags where
  "default_flags = \<lparr>config_path = default_config_path, show_version = False, log_level_flag = [],
     log_format_flag = [], rollback_bundle_flag = False, rollback_binary_flag = False\<rparr>"

definition pick :: "string \<Rightarrow> string \<Rightarrow> string" where
  "pick override fallback = (if override \<noteq> [] then override else fallback)"

text \<open>Libraries and surroundings of the command.\<close>

record cmd_env =
  ce_crypto :: crypto
  ce_yaml :: yaml_codec
  ce_version :: string
  ce_decode :: "bytes \<Rightarrow> config option"
  ce_rest :: "bytes \<Rightarrow> config_tail"
  ce_order :: map_order
  ce_parse_url :: "string \<Rightarrow> (string \<times> string) option"
  ce_keypair_ok :: "bytes \<Rightarrow> bytes \<Rightarrow> bool"
  ce_ca_ok :: "bytes \<Rightarrow> bool"
  ce_names :: "string list"
  ce_tick_text :: "tick_err \<Rightarrow> string"
  ce_bin_text :: "bin_err \<Rightarrow> string"

definition load_config :: "cmd_env \<Rightarrow> path \<Rightarrow> world \<Rightarrow> (config_err + config) \<times> world" where
  "load_config V p w = config_Load (ce_decode V) (ce_rest V) (ce_order V) (ce_parse_url V) p w"

section \<open>Rollbacks\<close>

datatype rollback_bundle_err = NoPreviousBundle os_err | RenameBundle os_err | RenameSig os_err

definition rollback_bundle :: "config \<Rightarrow> world \<Rightarrow> (rollback_bundle_err + unit) \<times> world" where
  "rollback_bundle cfg w =
     (let bundle = pb_path (cfg_bundle cfg); sig = pb_sig_path (cfg_bundle cfg);
          prev_bundle = bundle @ ''.previous''; prev_sig = sig @ ''.previous'' in
     (case os_stat prev_bundle w of
        (Inl e, w1) \<Rightarrow> (Inl (NoPreviousBundle e), w1)
      | (Inr _, w1) \<Rightarrow>
     (case os_rename prev_bundle bundle w1 of
        (Inl e, w2) \<Rightarrow> (Inl (RenameBundle e), w2)
      | (Inr _, w2) \<Rightarrow>
     (case os_rename prev_sig sig w2 of
        (Inl e, w3) \<Rightarrow> (Inl (RenameSig e), w3)
      | (Inr _, w3) \<Rightarrow> (Inr (), w3)))))"

definition bin_opts_of :: "config \<Rightarrow> bin_opts" where
  "bin_opts_of cfg = \<lparr>bo_pubkey_path = bb_pubkey (cfg_binary cfg), bo_current_path = bb_current (cfg_binary cfg),
     bo_previous_path = bb_previous (cfg_binary cfg), bo_staged_path = bb_staged (cfg_binary cfg)\<rparr>"

datatype rollback_binary_err = BinaryNotConfigured | RollbackBinary bin_err

definition rollback_binary :: "cmd_env \<Rightarrow> config \<Rightarrow> world \<Rightarrow> (rollback_binary_err + unit) \<times> world" where
  "rollback_binary V cfg w =
     (if binary_is_zero (cfg_binary cfg) then (Inl BinaryNotConfigured, w)
      else (case binupd_New (ce_crypto V) (ce_names V) (bin_opts_of cfg) w of
        (Inl e, w1) \<Rightarrow> (Inl (RollbackBinary e), w1)
      | (Inr r, w1) \<Rightarrow>
     (case rollback r w1 of
        (Inl e, w2) \<Rightarrow> (Inl (RollbackBinary e), w2)
      | (Inr _, w2) \<Rightarrow> (Inr (), w2))))"

section \<open>Starting the service\<close>

text \<open>The messages \<open>serve\<close> and its signal loop log.\<close>

datatype log_msg = BundleReloaded string | ConfigReloadFailed config_err | ListenChangedRestart
  | AuditReopenFailed audit_err | BundleTickFailed tick_err

record service =
  sv_config :: config
  sv_plane :: admin_plane
  sv_receiver :: "receiver option"
  sv_egress :: "generator option"
  sv_tls :: tls_config
  sv_poke :: bool
  sv_log :: "log_msg list"

datatype serve_err = ServeAudit audit_err | ServeBundle load_err | ServeMtls build_config_err
  | ServeBinupd bin_err | ServeEgress egress_err | ServeUpdater new_err | ServeProxy proxy_new_err

definition initial_options :: "cmd_env \<Rightarrow> config \<Rightarrow> load_options" where
  "initial_options V cfg = \<lparr>lo_bundle_path = pb_path (cfg_bundle cfg), lo_sig_path = pb_sig_path (cfg_bundle cfg),
     lo_pubkey_path = pb_pubkey_path (cfg_bundle cfg), lo_binary_version = ce_version V, lo_previous_version = []\<rparr>"

definition updater_options :: "cmd_env \<Rightarrow> config \<Rightarrow> up_opts" where
  "updater_options V cfg = \<lparr>uo_bundle_path = pb_path (cfg_bundle cfg), uo_sig_path = pb_sig_path (cfg_bundle cfg),
     uo_pubkey_path = pb_pubkey_path (cfg_bundle cfg), uo_binary_version = ce_version V\<rparr>"

definition mtls_options_of :: "config \<Rightarrow> mtls_options" where
  "mtls_options_of cfg = \<lparr>mo_cert_path = server_cert (cfg_mtls cfg), mo_key_path = server_key (cfg_mtls cfg),
     mo_ca_path = client_ca (cfg_mtls cfg), mo_order_serials = allowed_order_serials (cfg_mtls cfg),
     mo_admin_serials = allowed_admin_serials (cfg_mtls cfg)\<rparr>"

definition default_bundle_refresh :: int where "default_bundle_refresh = 21600000000000"

definition start_receiver :: "cmd_env \<Rightarrow> config \<Rightarrow> world \<Rightarrow> (serve_err + receiver option) \<times> world" where
  "start_receiver V cfg w =
     (if binary_is_zero (cfg_binary cfg) then (Inr None, w)
      else (case binupd_New (ce_crypto V) (ce_names V) (bin_opts_of cfg) w of
        (Inl e, w') \<Rightarrow> (Inl (ServeBinupd e), w')
      | (Inr r, w') \<Rightarrow> (Inr (Some r), w')))"

definition start_egress :: "config \<Rightarrow> broker_bundle \<Rightarrow> serve_err + generator option" where
  "start_egress cfg b =
     (if \<not> eb_enabled (cfg_egress cfg) then Inr None
      else andthen (wrap_err ServeEgress (egress_New True True (eb_refresh (cfg_egress cfg))))
        (\<lambda>g. Inr (Some (update_hosts (enabled_hosts b) g))))"

text \<open>The applier \<open>serve\<close> picks.\<close>

definition pick_applier ::
    "(path \<Rightarrow> string \<Rightarrow> string + unit) \<Rightarrow> (path \<Rightarrow> string \<Rightarrow> string + unit) \<Rightarrow> config \<Rightarrow> string \<Rightarrow> string + unit" where
  "pick_applier nft exec cfg =
     (if helper_path (cfg_egress cfg) \<noteq> [] then helper_applier exec (helper_path (cfg_egress cfg))
      else nft_applier nft (nft_path (cfg_egress cfg)))"

definition start_updater :: "cmd_env \<Rightarrow> config \<Rightarrow> holder \<Rightarrow> serve_err + updater" where
  "start_updater V cfg h =
     (let refresh = rf_interval (pb_refresh (cfg_bundle cfg)) in
      wrap_err ServeUpdater (bundleupd_New True (Some h)
        (if refresh \<le> 0 then default_bundle_refresh else refresh) (updater_options V cfg)))"

text \<open>\<open>serve\<close> up to the listener, after the audit log is open; every error closes the log again.\<close>

definition start_components :: "cmd_env \<Rightarrow> config \<Rightarrow> audit_writer \<Rightarrow> world \<Rightarrow> (serve_err + service) \<times> world" where
  "start_components V cfg aw w =
     (case load_and_verify (ce_crypto V) (ce_yaml V) (initial_options V cfg) w of
        (Inl e, w1) \<Rightarrow> (Inl (ServeBundle e), w1)
      | (Inr res, w1) \<Rightarrow>
     (let h = fst (holder_store (new_holder None) (Some (lr_router res))) in
     (case build_server_config (ce_keypair_ok V) (ce_ca_ok V) (mtls_options_of cfg) w1 of
        (Inl e, w2) \<Rightarrow> (Inl (ServeMtls e), w2)
      | (Inr (tls, al), w2) \<Rightarrow>
     (case start_receiver V cfg w2 of
        (Inl e, w3) \<Rightarrow> (Inl e, w3)
      | (Inr rc, w3) \<Rightarrow>
        (andthen (start_egress cfg (lr_bundle res)) (\<lambda>eg.
         andthen (start_updater V cfg h) (\<lambda>u.
         andthen (wrap_err ServeProxy (proxy_New (Some h) (Some (\<lambda>out. RtError [])) None)) (\<lambda>_.
           Inr \<lparr>sv_config = cfg,
                sv_plane = \<lparr>ap_updater = u, ap_allow = Some al, ap_audit = Some aw,
                  ap_metrics = Some new_counters, ap_world = w3\<rparr>,
                sv_receiver = rc, sv_egress = eg, sv_tls = tls, sv_poke = False, sv_log = []\<rparr>))), w3)))))"

definition start_service :: "cmd_env \<Rightarrow> config \<Rightarrow> world \<Rightarrow> (serve_err + service) \<times> world" where
  "start_service V cfg w =
     (case audit_Open (ab_path (cfg_audit cfg)) 256 w of
        (Inl e, w1) \<Rightarrow> (Inl (ServeAudit e), w1)
      | (Inr aw, w1) \<Rightarrow>
     (case start_components V cfg aw w1 of
        (Inl e, w2) \<Rightarrow> (Inl e, snd (snd (audit_Close aw w2)))
      | (Inr s, w2) \<Rightarrow> (Inr s, w2)))"


section \<open>The running service\<close>

type_synonym http_client = "string \<Rightarrow> string \<Rightarrow> http_outcome"

definition service_fetch :: "config \<Rightarrow> http_client \<Rightarrow> string \<Rightarrow> fetch_err + fetch_result" where
  "service_fetch cfg http =
     (let url = rf_url (pb_refresh (cfg_bundle cfg)) in http_fetch (Some http) url (url @ ''.sig''))"

text \<open>The \<open>OnSwap\<close> hook, for what a poll added to the swapped bundles.\<close>

definition on_swap :: "updater \<Rightarrow> service \<Rightarrow> service" where
  "on_swap old s =
     (let new = drop (length (swaps old)) (swaps (ap_updater (sv_plane s))) in
      s\<lparr>sv_log := sv_log s @ map (\<lambda>b. BundleReloaded (bundle_version b)) new,
        sv_egress := map_option (fold (\<lambda>b. update_hosts (enabled_hosts b)) new) (sv_egress s)\<rparr>)"

definition service_tick :: "cmd_env \<Rightarrow> http_client \<Rightarrow> service \<Rightarrow> (tick_err + unit) \<times> service" where
  "service_tick V http s =
     (let p = sv_plane s in
      case tick (ce_crypto V) (ce_yaml V) (updater_options V (sv_config s)) (service_fetch (sv_config s) http)
             (ap_updater p) (ap_world p) of
        (r, u', w') \<Rightarrow> (r, on_swap (ap_updater p) (s\<lparr>sv_plane := p\<lparr>ap_updater := u', ap_world := w'\<rparr>\<rparr>)))"

text \<open>The admin options \<open>serve\<close> fills in: both callbacks are always set.\<close>

definition reload_hook :: "cmd_env \<Rightarrow> http_client \<Rightarrow> service \<Rightarrow> updater \<Rightarrow> world \<Rightarrow> hook_result \<times> updater \<times> world" where
  "reload_hook V http s u w =
     (case tick (ce_crypto V) (ce_yaml V) (updater_options V (sv_config s)) (service_fetch (sv_config s) http) u w of
        (Inl e, u', w') \<Rightarrow> (HookErr (ce_tick_text V e), u', w')
      | (Inr _, u', w') \<Rightarrow> (HookOk, u', w'))"

definition accept_hook :: "cmd_env \<Rightarrow> service \<Rightarrow> bytes \<Rightarrow> bytes \<Rightarrow> world \<Rightarrow> hook_result \<times> world" where
  "accept_hook V s bin sig w =
     (case sv_receiver s of
        None \<Rightarrow> (HookErr ''binary upload not configured'', w)
      | Some r \<Rightarrow> (case apply_binary (ce_crypto V) r bin sig w of
          (Inl e, w') \<Rightarrow> (HookErr (ce_bin_text V e), w')
        | (Inr _, w') \<Rightarrow> (HookOk, w')))"

definition admin_options :: "cmd_env \<Rightarrow> http_client \<Rightarrow> service \<Rightarrow> admin_env \<Rightarrow> admin_env" where
  "admin_options V http s E = E\<lparr>ae_version := ce_version V, ae_reload := Some (reload_hook V http s),
     ae_accept := Some (accept_hook V s), ae_role := None\<rparr>"

text \<open>The outer multiplexer: an unclean path is redirected, the rest goes by its first segment.\<close>

datatype plane_choice = ToAdmin | ToOrder | RedirectTo string

definition outer_mux :: "string \<Rightarrow> plane_choice" where
  "outer_mux escaped =
     (let p = mux_clean escaped; segs = path_segments p in
      if segs = [[], ''admin''] then RedirectTo (p @ ''/'')
      else if p \<noteq> escaped then RedirectTo p
      else if take 2 segs = [[], ''admin''] then ToAdmin else ToOrder)"

text \<open>What an order request meets: the clock, the transport, the formatter of the log.\<close>

record order_env =
  oe_time_json :: "gotime \<Rightarrow> string option"
  oe_now :: gotime
  oe_latency :: int
  oe_transport :: "outbound \<Rightarrow> rt_result"

datatype service_event =
    Request http_client admin_env order_env admin_request
  | TlsLogLine bytes
  | PollTimer http_client
  | PollPoke http_client
  | Hangup http_client
  | Usr1
  | EgressWake egress_event "string \<Rightarrow> string + ip list" "string \<Rightarrow> string + unit"
  | OutsideWrite path fentry

definition serve_order :: "order_env \<Rightarrow> admin_request \<Rightarrow> admin_plane \<Rightarrow> serve_result \<times> admin_plane" where
  "serve_order O' r p =
     (case serve_http (oe_time_json O') (oe_now O') (oe_latency O') (up_holder (ap_updater p)) default_backend_url
             (oe_transport O') (request.truncate r)
             \<lparr>op_audit = ap_audit p, op_metrics = ap_metrics p, op_world = ap_world p\<rparr> of
        (res, pl) \<Rightarrow> (res, p\<lparr>ap_audit := op_audit pl, ap_metrics := op_metrics pl, ap_world := op_world pl\<rparr>))"

definition serve_any :: "cmd_env \<Rightarrow> http_client \<Rightarrow> admin_env \<Rightarrow> order_env \<Rightarrow> admin_request \<Rightarrow> service \<Rightarrow> service" where
  "serve_any V http E O' r s =
     (case outer_mux (ar_escaped r) of
        RedirectTo _ \<Rightarrow> s
      | ToAdmin \<Rightarrow> on_swap (ap_updater (sv_plane s))
          (s\<lparr>sv_plane := snd (admin_serve (admin_options V http s E) r (sv_plane s))\<rparr>)
      | ToOrder \<Rightarrow> s\<lparr>sv_plane := snd (serve_order O' r (sv_plane s))\<rparr>)"

text \<open>\<open>slogWriter\<close>: the line without its breaks, and the length reported back.\<close>

definition slog_write :: "bytes \<Rightarrow> bytes \<times> nat" where
  "slog_write p = (rev (dropWhile (\<lambda>c. c = CHR 0x0A \<or> c = CHR 0x0D) (rev p)), length p)"

definition tls_log_line :: "bytes \<Rightarrow> service \<Rightarrow> service" where
  "tls_log_line line s =
     s\<lparr>sv_plane := (sv_plane s)\<lparr>ap_metrics := map_option
         (\<lambda>m. case handshake_write line (Some (handshake_failures m), Some []) of
            (_, Some l, _) \<Rightarrow> m\<lparr>handshake_failures := l\<rparr> | _ \<Rightarrow> m) (ap_metrics (sv_plane s))\<rparr>\<rparr>"

definition log_tick_err :: "(tick_err + unit) \<times> service \<Rightarrow> service" where
  "log_tick_err rs = (case rs of
       (Inl e, s) \<Rightarrow> s\<lparr>sv_log := sv_log s @ [BundleTickFailed e]\<rparr> | (Inr _, s) \<Rightarrow> s)"

text \<open>
  The SIGHUP branch: the configuration is loaded and compared, and nothing of it is used; the log file is
  reopened; the updater polls its URL.
\<close>

definition hangup :: "cmd_env \<Rightarrow> path \<Rightarrow> http_client \<Rightarrow> service \<Rightarrow> service" where
  "hangup V cp http s =
     (case load_config V cp (ap_world (sv_plane s)) of (loaded, w1) \<Rightarrow>
     (let msgs = (case loaded of
          Inl e \<Rightarrow> [ConfigReloadFailed e]
        | Inr c \<Rightarrow> if listen_changed c (sv_config s) then [ListenChangedRestart] else []) in
     (case ap_audit (sv_plane s) of
        None \<Rightarrow> s
      | Some a \<Rightarrow> (case audit_Reopen a w1 of (r, a', w2) \<Rightarrow>
          log_tick_err (service_tick V http
            (s\<lparr>sv_plane := (sv_plane s)\<lparr>ap_audit := Some a', ap_world := w2\<rparr>,
               sv_log := sv_log s @ msgs @ (case r of Inl e \<Rightarrow> [AuditReopenFailed e] | Inr _ \<Rightarrow> [])\<rparr>))))))"

definition egress_wake ::
    "egress_event \<Rightarrow> (string \<Rightarrow> string + ip list) \<Rightarrow> (string \<Rightarrow> string + unit) \<Rightarrow> generator \<Rightarrow> generator" where
  "egress_wake e look applier g = (case e of HostsChanged _ \<Rightarrow> g | _ \<Rightarrow> egress_step look applier g e)"

text \<open>The polling loop runs only if refreshing is enabled; a poke then stays in the channel.\<close>

fun service_step :: "cmd_env \<Rightarrow> path \<Rightarrow> service \<Rightarrow> service_event \<Rightarrow> service" where
  "service_step V cp s (Request http E O' r) = serve_any V http E O' r s"
| "service_step V cp s (TlsLogLine l) = tls_log_line l s"
| "service_step V cp s (PollTimer http) =
     (if rf_enabled (pb_refresh (cfg_bundle (sv_config s))) then log_tick_err (service_tick V http s) else s)"
| "service_step V cp s (PollPoke http) =
     (if rf_enabled (pb_refresh (cfg_bundle (sv_config s))) \<and> sv_poke s
      then log_tick_err (service_tick V http (s\<lparr>sv_poke := False\<rparr>)) else s)"
| "service_step V cp s (Hangup http) = hangup V cp http s"
| "service_step V cp s Usr1 = s\<lparr>sv_poke := True\<rparr>"
| "service_step V cp s (EgressWake e look applier) =
     s\<lparr>sv_egress := map_option (egress_wake e look applier) (sv_egress s)\<rparr>"
| "service_step V cp s (OutsideWrite q f) =
     s\<lparr>sv_plane := (sv_plane s)\<lparr>ap_world := publish ((files (ap_world (sv_plane s)))(q \<mapsto> f)) (ap_world (sv_plane s))\<rparr>\<rparr>"

text \<open>The states a service started from \<open>cfg\<close> can be in.\<close>

inductive reachable :: "cmd_env \<Rightarrow> config \<Rightarrow> path \<Rightarrow> service \<Rightarrow> bool" for V cfg cp where
  started: "start_service V cfg w = (Inr s, w') \<Longrightarrow> reachable V cfg cp s"
| stepped: "reachable V cfg cp s \<Longrightarrow> reachable V cfg cp (service_step V cp s e)"

section \<open>The whole command\<close>

datatype run_err = ParseFlagsErr string | RunConfig config_err | InitLogger log_err
  | RunRollbackBundle rollback_bundle_err | RunRollbackBinary rollback_binary_err | RunServe serve_err | Listen string

datatype run_ok = HelpShown | VersionShown string | RolledBackBundle | RolledBackBinary | Serving service

definition cmd_run :: "cmd_env \<Rightarrow> parsed_flags \<Rightarrow> world \<Rightarrow> (run_err + run_ok) \<times> world" where
  "cmd_run V pf w =
     (case pf of
        FlagHelp \<Rightarrow> (Inr HelpShown, w)
      | FlagError e \<Rightarrow> (Inl (ParseFlagsErr e), w)
      | FlagsParsed f \<Rightarrow>
      if show_version f then (Inr (VersionShown (ce_version V)), w)
      else (case load_config V (config_path f) w of
        (Inl e, w1) \<Rightarrow> (Inl (RunConfig e), w1)
      | (Inr cfg, w1) \<Rightarrow>
     (case log_New (pick (log_level_flag f) (lb_level (cfg_log cfg))) (pick (log_format_flag f) (lb_format (cfg_log cfg))) True of
        Inl e \<Rightarrow> (Inl (InitLogger e), w1)
      | Inr _ \<Rightarrow>
      if rollback_bundle_flag f then
        (case rollback_bundle cfg w1 of (Inl e, w2) \<Rightarrow> (Inl (RunRollbackBundle e), w2) | (Inr _, w2) \<Rightarrow> (Inr RolledBackBundle, w2))
      else if rollback_binary_flag f then
        (case rollback_binary V cfg w1 of (Inl e, w2) \<Rightarrow> (Inl (RunRollbackBinary e), w2) | (Inr _, w2) \<Rightarrow> (Inr RolledBackBinary, w2))
      else
        (case start_service V cfg w1 of (Inl e, w2) \<Rightarrow> (Inl (RunServe e), w2) | (Inr s, w2) \<Rightarrow> (Inr (Serving s), w2)))))"

text \<open>How \<open>serve\<close> ends: a failing listener is its error, a signal ends it cleanly; the log is closed.\<close>

definition shut_down :: "string option \<Rightarrow> service \<Rightarrow> (run_err + unit) \<times> world" where
  "shut_down listen_err s =
     ((case listen_err of Some e \<Rightarrow> Inl (Listen e) | None \<Rightarrow> Inr ()),
      (case ap_audit (sv_plane s) of None \<Rightarrow> ap_world (sv_plane s)
       | Some a \<Rightarrow> snd (snd (audit_Close a (ap_world (sv_plane s))))))"

end
