(* ===== verification/CommandFacts.thy ===== *)
theory CommandFacts
  imports Command AdminFacts
begin

text \<open>
  What the composed service keeps in every state it can reach, what a reload signal does and does not do,
  and what the bundle rollback leaves on disk.
\<close>

section \<open>Polls inside the service\<close>

lemma tick_shape:
  assumes "tick C Y o' fetch u w = (r, u', w')"
  shows "(up_holder u' = up_holder u \<and> swaps u' = swaps u)
    \<or> (r = Inr () \<and> (\<exists>b rt. bundle_ok b \<and> build_router b = Inr rt \<and> holder_load (up_holder u') = Some rt
         \<and> swaps u' = swaps u @ [b]))"
  using assms
proof (cases rule: tick_cases)
  case (swapped res w1 lr w2)
  then have "load_and_verify C Y (staged_options o' u) w1 = (Inr lr, w2)"
    by (auto simp: verify_staged_def split: prod.splits sum.splits)
  from load_sound [OF this] have "bundle_ok (lr_bundle lr)" "build_router (lr_bundle lr) = Inr (lr_router lr)"
    by (auto simp: loadable_def bytes_ok_def)
  with swapped show ?thesis by (auto simp: holder_store_def holder_load_def)
qed simp_all

text \<open>The live router is that of a valid bundle, and the egress filter follows that bundle's enabled brokers.\<close>

definition serves :: "service \<Rightarrow> broker_bundle \<Rightarrow> bool" where
  "serves s b = (bundle_ok b
     \<and> (\<exists>r. build_router b = Inr r \<and> holder_load (up_holder (ap_updater (sv_plane s))) = Some r)
     \<and> (\<forall>g. sv_egress s = Some g \<longrightarrow> eg_hosts g = dedup_sorted (enabled_hosts b)))"

definition service_inv :: "config \<Rightarrow> service \<Rightarrow> bool" where
  "service_inv cfg s = (sv_config s = cfg \<and> (\<exists>b. serves s b)
     \<and> (sv_egress s \<noteq> None \<longleftrightarrow> eb_enabled (cfg_egress cfg))
     \<and> ap_allow (sv_plane s) \<noteq> None \<and> ap_audit (sv_plane s) \<noteq> None \<and> ap_metrics (sv_plane s) \<noteq> None)"

lemma update_hosts_simps [simp]: "eg_hosts (update_hosts hs g) = dedup_sorted hs"
  by (simp add: update_hosts_def)

lemma on_swap_simps [simp]:
  "sv_config (on_swap old s) = sv_config s" "sv_plane (on_swap old s) = sv_plane s"
  "sv_egress (on_swap old s) = None \<longleftrightarrow> sv_egress s = None"
  by (simp_all add: on_swap_def Let_def)

text \<open>A state of the planes after which the hook runs.\<close>

definition swap_from :: "updater \<Rightarrow> updater \<Rightarrow> bool" where
  "swap_from u u' = ((up_holder u' = up_holder u \<and> swaps u' = swaps u)
     \<or> (\<exists>b rt. bundle_ok b \<and> build_router b = Inr rt \<and> holder_load (up_holder u') = Some rt
          \<and> swaps u' = swaps u @ [b]))"

lemma on_swap_serves:
  assumes "serves s b" and "ap_updater (sv_plane s) = u" and "swap_from u (ap_updater p')"
    and "sv_plane s' = p'" and "sv_egress s' = sv_egress s"
  shows "\<exists>b'. serves (on_swap u s') b'"
  using assms(3) unfolding swap_from_def
proof (elim disjE exE conjE)
  assume "up_holder (ap_updater p') = up_holder u" "swaps (ap_updater p') = swaps u"
  with assms have "serves (on_swap u s') b"
    by (auto simp: serves_def on_swap_def Let_def)
  then show ?thesis by blast
next
  fix b' rt
  assume "bundle_ok b'" "build_router b' = Inr rt" "holder_load (up_holder (ap_updater p')) = Some rt"
    "swaps (ap_updater p') = swaps u @ [b']"
  with assms have "serves (on_swap u s') b'"
    by (auto simp: serves_def on_swap_def Let_def)
  then show ?thesis by blast
qed

lemma service_tick_inv:
  assumes "service_inv cfg s" and "service_tick V http s = (r, s')"
  shows "service_inv cfg s'"
proof -
  obtain b where b: "serves s b" using assms(1) by (auto simp: service_inv_def)
  let ?p = "sv_plane s"
  obtain u' w' where t: "tick (ce_crypto V) (ce_yaml V) (updater_options V (sv_config s))
      (service_fetch (sv_config s) http) (ap_updater ?p) (ap_world ?p) = (r, u', w')"
    and s': "s' = on_swap (ap_updater ?p) (s\<lparr>sv_plane := ?p\<lparr>ap_updater := u', ap_world := w'\<rparr>\<rparr>)"
    using assms(2) by (auto simp: service_tick_def Let_def split: prod.splits)
  have "swap_from (ap_updater ?p) u'" using tick_shape [OF t] by (auto simp: swap_from_def)
  then have "\<exists>b'. serves s' b'"
    unfolding s' by (intro on_swap_serves [OF b, where p' = "?p\<lparr>ap_updater := u', ap_world := w'\<rparr>"]) simp_all
  moreover have "sv_egress s' = None \<longleftrightarrow> sv_egress s = None" by (simp add: s')
  ultimately show ?thesis using assms(1) by (simp add: service_inv_def s')
qed


section \<open>Every event keeps the invariant\<close>

definition same_parts :: "admin_plane \<Rightarrow> admin_plane \<Rightarrow> bool" where
  "same_parts s s' = ((ap_allow s' = None \<longleftrightarrow> ap_allow s = None) \<and> (ap_audit s' = None \<longleftrightarrow> ap_audit s = None)
     \<and> (ap_metrics s' = None \<longleftrightarrow> ap_metrics s = None))"

definition reloaded :: "admin_env \<Rightarrow> admin_plane \<Rightarrow> admin_plane \<Rightarrow> bool" where
  "reloaded E s s' = (\<exists>f x y. ae_reload E = Some f \<and> f (ap_updater s) (ap_world s) = (x, ap_updater s', y))"

lemma post_effect:
  assumes "e \<in> set posts" and "handle E r e s = (p, w, s')"
  shows "(ap_updater s' = ap_updater s \<or> reloaded E s s') \<and> same_parts s s'"
proof -
  have 1: ?thesis if "log_rotate E s = (p, w, s')"
    using that by (auto simp: log_rotate_def answer_def same_parts_def Let_def split: option.splits prod.splits sum.splits)
  have 2: ?thesis if "bundle_reload E s = (p, w, s')"
    using that
    by (auto simp: bundle_reload_def answer_def same_parts_def reloaded_def Let_def split: option.splits prod.splits hook_result.splits)
  have 3: ?thesis if "client_serials E r s = (p, w, s')"
    using that by (auto simp: client_serials_def answer_def same_parts_def split: option.splits prod.splits sum.splits)
  have 4: ?thesis if "binary_upload E r s = (p, w, s')"
    using that by (auto simp: binary_upload_def answer_def same_parts_def Let_def split: option.splits prod.splits sum.splits hook_result.splits)
  have 5: ?thesis if "rotate_server s = (p, w, s')"
    using that by (auto simp: rotate_server_def answer_def same_parts_def)
  from assms 1 2 3 4 5 show ?thesis by (cases e) (auto simp: posts_def handle_def)
qed

lemma tail_parts: "audit_tail E r s = (p, w, s') \<Longrightarrow> same_parts s s'"
  by (auto simp: audit_tail_def answer_def same_parts_def Let_def split: option.splits prod.splits bool.splits if_splits)

lemma handle_effect:
  assumes "handle E r e s = (p, w, s')"
  shows "(ap_updater s' = ap_updater s \<or> reloaded E s s') \<and> same_parts s s'"
proof (cases "e \<in> set posts")
  case True
  then show ?thesis using assms by (rule post_effect)
next
  case False
  from reads_change_nothing [OF False assms] have same: "same_service s s'" "e \<noteq> AuditTail \<Longrightarrow> ap_audit s' = ap_audit s" by auto
  show ?thesis
  proof (cases "e = AuditTail")
    case True
    with assms tail_parts [of E r s p w s'] same show ?thesis by (simp add: handle_def same_service_def)
  next
    case e: False
    with same show ?thesis by (simp add: same_service_def same_parts_def)
  qed
qed

lemma admin_serve_effect:
  assumes "admin_serve E r s = (w, s')"
  shows "(ap_updater s' = ap_updater s \<or> reloaded E s s') \<and> same_parts s s'"
proof -
  have refl: "same_parts s s" by (simp add: same_parts_def)
  show ?thesis
  proof (cases "route_admin (rq_method r) (ar_escaped r)")
    case (Routed e)
    show ?thesis
    proof (cases "\<exists>p w1. handle E r e s = (p, w1, s')")
      case True
      then show ?thesis using handle_effect by blast
    next
      case False
      with assms Routed have "s' = s"
        by (auto simp: admin_serve_def mux_serve_def guard_def answer_def split: prod.splits option.splits if_splits)
      with refl show ?thesis by simp
    qed
  qed (use assms refl in \<open>auto simp: admin_serve_def mux_serve_def answer_def\<close>)
qed

lemma reload_hook_shape:
  "reload_hook V http s u w = (x, u', w') \<Longrightarrow> swap_from u u'"
  by (auto simp: reload_hook_def swap_from_def split: prod.splits sum.splits dest!: tick_shape)

lemma serve_order_effect:
  assumes "serve_order O' r p = (res, p')"
  shows "ap_updater p' = ap_updater p \<and> same_parts p p'"
  using assms
  by (auto simp: serve_order_def serve_http_def same_parts_def Let_def split: prod.splits option.splits)

lemma serves_same:
  "serves s b \<Longrightarrow> ap_updater (sv_plane s') = ap_updater (sv_plane s) \<Longrightarrow>
     (\<And>g'. sv_egress s' = Some g' \<Longrightarrow> \<exists>g. sv_egress s = Some g \<and> eg_hosts g' = eg_hosts g) \<Longrightarrow> serves s' b"
  by (fastforce simp: serves_def)

lemma serve_any_inv:
  assumes inv: "service_inv cfg s"
  shows "service_inv cfg (serve_any V http E O' r s)"
proof (cases "outer_mux (ar_escaped r)")
  case ToAdmin
  obtain b where b: "serves s b" using inv by (auto simp: service_inv_def)
  obtain w p' where a: "admin_serve (admin_options V http s E) r (sv_plane s) = (w, p')" by fastforce
  from admin_serve_effect [OF a] have parts: "same_parts (sv_plane s) p'"
    and "ap_updater p' = ap_updater (sv_plane s) \<or> reloaded (admin_options V http s E) (sv_plane s) p'" by auto
  moreover have "swap_from u u" for u by (simp add: swap_from_def)
  ultimately have "swap_from (ap_updater (sv_plane s)) (ap_updater p')"
    by (auto simp: reloaded_def admin_options_def dest: reload_hook_shape)
  then have "\<exists>b'. serves (on_swap (ap_updater (sv_plane s)) (s\<lparr>sv_plane := p'\<rparr>)) b'"
    by (intro on_swap_serves [OF b, where p' = p']) simp_all
  with inv parts ToAdmin a show ?thesis
    by (auto simp: serve_any_def service_inv_def same_parts_def)
next
  case ToOrder
  obtain b where b: "serves s b" using inv by (auto simp: service_inv_def)
  obtain res p' where o': "serve_order O' r (sv_plane s) = (res, p')" by fastforce
  from serve_order_effect [OF o'] have p': "ap_updater p' = ap_updater (sv_plane s)" "same_parts (sv_plane s) p'" by auto
  have "serves (s\<lparr>sv_plane := p'\<rparr>) b" using p' by (intro serves_same [OF b]) simp_all
  with inv p' ToOrder o' show ?thesis
    by (auto simp: serve_any_def service_inv_def same_parts_def)
qed (simp add: serve_any_def inv)

lemma egress_wake_hosts [simp]: "eg_hosts (egress_wake e look applier g) = eg_hosts g"
  by (cases e) (auto simp: egress_wake_def egress_Tick_def Let_def split: sum.splits)

lemma log_tick_err_inv: "service_inv cfg (snd rs) \<Longrightarrow> service_inv cfg (log_tick_err rs)"
  by (auto simp: log_tick_err_def service_inv_def serves_def split: prod.splits sum.splits)

lemma ticked_inv: "service_inv cfg s \<Longrightarrow> service_inv cfg (log_tick_err (service_tick V http s))"
  by (rule log_tick_err_inv) (metis prod.collapse service_tick_inv)

lemma plane_change_inv:
  "service_inv cfg s \<Longrightarrow> ap_updater p' = ap_updater (sv_plane s) \<Longrightarrow> same_parts (sv_plane s) p' \<Longrightarrow>
     service_inv cfg (s\<lparr>sv_plane := p', sv_log := l\<rparr>)"
  by (auto simp: service_inv_def serves_def same_parts_def)

lemma hangup_inv:
  assumes inv: "service_inv cfg s"
  shows "service_inv cfg (hangup V cp http s)"
proof -
  have "service_inv cfg (log_tick_err (service_tick V http
          (s\<lparr>sv_plane := (sv_plane s)\<lparr>ap_audit := Some a', ap_world := w2\<rparr>, sv_log := l\<rparr>)))"
    for a' w2 l
    using inv by (intro ticked_inv plane_change_inv) (simp_all add: service_inv_def same_parts_def)
  with inv show ?thesis
    by (auto simp: hangup_def Let_def split: prod.splits option.splits)
qed

lemma service_step_inv:
  assumes inv: "service_inv cfg s"
  shows "service_inv cfg (service_step V cp s e)"
proof (cases e)
  case (Request http E O' r)
  with inv show ?thesis by (simp add: serve_any_inv)
next
  case (TlsLogLine l)
  with inv show ?thesis by (auto simp: tls_log_line_def service_inv_def serves_def)
next
  case (PollTimer http)
  with inv show ?thesis by (simp add: ticked_inv)
next
  case (PollPoke http)
  have "service_inv cfg (s\<lparr>sv_poke := False\<rparr>)" using inv by (simp add: service_inv_def serves_def)
  with inv PollPoke show ?thesis by (simp add: ticked_inv)
next
  case (Hangup http)
  with inv show ?thesis by (simp add: hangup_inv)
next
  case Usr1
  with inv show ?thesis by (simp add: service_inv_def serves_def)
next
  case (EgressWake e' look applier)
  with inv show ?thesis by (auto simp: service_inv_def serves_def)
next
  case (OutsideWrite q f)
  with inv show ?thesis by (simp add: service_inv_def serves_def)
qed


section \<open>The start\<close>

lemma started_inv:
  assumes "start_service V cfg w = (Inr s, w')"
  shows "service_inv cfg s"
proof -
  from assms obtain aw w1 where "start_components V cfg aw w1 = (Inr s, w')"
    by (auto simp: start_service_def split: prod.splits sum.splits)
  then obtain res w2 tls al w3 rc eg u where
    load: "load_and_verify (ce_crypto V) (ce_yaml V) (initial_options V cfg) w1 = (Inr res, w2)"
    and eg: "start_egress cfg (lr_bundle res) = Inr eg"
    and u: "start_updater V cfg (fst (holder_store (new_holder None) (Some (lr_router res)))) = Inr u"
    and s: "s = \<lparr>sv_config = cfg,
        sv_plane = \<lparr>ap_updater = u, ap_allow = Some al, ap_audit = Some aw, ap_metrics = Some new_counters, ap_world = w3\<rparr>,
        sv_receiver = rc, sv_egress = eg, sv_tls = tls, sv_poke = False, sv_log = []\<rparr>"
    by (auto simp: start_components_def Let_def split: prod.splits sum.splits)
  from load_sound [OF load] have b: "bundle_ok (lr_bundle res)" "build_router (lr_bundle res) = Inr (lr_router res)"
    by (auto simp: loadable_def bytes_ok_def)
  have "up_holder u = fst (holder_store (new_holder None) (Some (lr_router res)))"
    using u by (auto simp: start_updater_def bundleupd_New_def new_updater_def Let_def)
  moreover have "eg = None \<longleftrightarrow> \<not> eb_enabled (cfg_egress cfg)"
    "\<forall>g. eg = Some g \<longrightarrow> eg_hosts g = dedup_sorted (enabled_hosts (lr_bundle res))"
    using eg by (auto simp: start_egress_def split: if_splits)
  ultimately have "serves s (lr_bundle res)" "eg = None \<longleftrightarrow> \<not> eb_enabled (cfg_egress cfg)"
    using b by (simp_all add: serves_def s holder_store_def holder_load_def)
  then show ?thesis by (auto simp: service_inv_def s)
qed

section \<open>Properties\<close>



text \<open>The refresh URL gives no answer, as \<open>net/http\<close> does for the empty one.\<close>

definition no_answer :: "config \<Rightarrow> http_client \<Rightarrow> bool" where
  "no_answer cfg http = (\<forall>e. http (rf_url (pb_refresh (cfg_bundle cfg))) e \<in> {RequestInvalid, TransportFailure})"

lemma failed_fetch:
  assumes "no_answer cfg http"
  shows "\<exists>x. service_fetch cfg http e = Inl x"
proof -
  have "http (rf_url (pb_refresh (cfg_bundle cfg))) e \<in> {RequestInvalid, TransportFailure}"
    using assms by (simp add: no_answer_def)
  then show ?thesis by (auto simp: service_fetch_def http_fetch_def get_with_etag_def Let_def)
qed

lemma failed_tick:
  assumes "no_answer (sv_config s) http"
  shows "\<exists>x. service_tick V http s = (Inl (FetchFailed x), s)"
proof -
  obtain x where "service_fetch (sv_config s) http (last_etag (ap_updater (sv_plane s))) = Inl x"
    using failed_fetch [OF assms] by blast
  then show ?thesis
    by (cases s) (auto simp: service_tick_def tick_def on_swap_def Let_def option.map_id)
qed

lemma hangup_keeps:
  "ap_allow (sv_plane (hangup V cp http s)) = ap_allow (sv_plane s) \<and> sv_config (hangup V cp http s) = sv_config s"
  by (auto simp: hangup_def log_tick_err_def service_tick_def Let_def split: prod.splits option.splits sum.splits)

lemma hangup_offline:
  assumes "ap_audit (sv_plane s) \<noteq> None"
    and "no_answer (sv_config s) http"
  shows "ap_updater (sv_plane (hangup V cp http s)) = ap_updater (sv_plane s) \<and> sv_egress (hangup V cp http s) = sv_egress s
    \<and> (\<exists>x. last (sv_log (hangup V cp http s)) = BundleTickFailed (FetchFailed x))"
proof -
  obtain a where a: "ap_audit (sv_plane s) = Some a" using assms(1) by auto
  obtain loaded w1 where l: "load_config V cp (ap_world (sv_plane s)) = (loaded, w1)" by fastforce
  obtain r a' w2 where ro: "audit_Reopen a w1 = (r, a', w2)" by (metis prod.collapse)
  define msgs where "msgs = (case loaded of Inl e \<Rightarrow> [ConfigReloadFailed e]
        | Inr c \<Rightarrow> if listen_changed c (sv_config s) then [ListenChangedRestart] else [])"
  define s1 where "s1 = s\<lparr>sv_plane := (sv_plane s)\<lparr>ap_audit := Some a', ap_world := w2\<rparr>,
      sv_log := sv_log s @ msgs @ (case r of Inl e \<Rightarrow> [AuditReopenFailed e] | Inr _ \<Rightarrow> [])\<rparr>"
  have "hangup V cp http s = log_tick_err (service_tick V http s1)"
    by (simp add: hangup_def a l ro s1_def msgs_def Let_def)
  moreover obtain x where "service_tick V http s1 = (Inl (FetchFailed x), s1)"
    using failed_tick [of s1 http V] assms(2) by (auto simp: s1_def)
  ultimately have "hangup V cp http s = s1\<lparr>sv_log := sv_log s1 @ [BundleTickFailed (FetchFailed x)]\<rparr>"
    by (simp add: log_tick_err_def)
  then show ?thesis by (simp add: s1_def)
qed

lemma outside_writes:
  "list_all (\<lambda>e. \<exists>q f. e = OutsideWrite q f) es \<Longrightarrow>
     \<exists>w. foldl (service_step V cp) s es = s\<lparr>sv_plane := (sv_plane s)\<lparr>ap_world := w\<rparr>\<rparr>"
proof (induction es arbitrary: s)
  case Nil
  show ?case by (intro exI [of _ "ap_world (sv_plane s)"]) simp
next
  case (Cons e es)
  then obtain q f where "e = OutsideWrite q f" by auto
  with Cons.IH [of "service_step V cp s e"] Cons.prems show ?case by fastforce
qed

text \<open>
  A reload signal after any files were replaced, as the bundle push script sends it, applies nothing
  of them by itself: the serial lists and the configuration in use stay as they were, and when no
  answer comes from the refresh URL, as when none is configured, the live router and the firewall's hosts
  stay too; the pushed bundle waits for a restart and only a failed poll is logged.
\<close>

theorem pushed_files_not_loaded:
  fixes V :: cmd_env and cp :: path and http :: http_client
  assumes "list_all (\<lambda>e. \<exists>q f. e = OutsideWrite q f) es" and "ap_audit (sv_plane s) \<noteq> None"
  defines "s' \<equiv> foldl (service_step V cp) s (es @ [Hangup http])"
  shows "ap_allow (sv_plane s') = ap_allow (sv_plane s) \<and> sv_config s' = sv_config s
    \<and> (no_answer (sv_config s) http \<longrightarrow> ap_updater (sv_plane s') = ap_updater (sv_plane s) \<and> sv_egress s' = sv_egress s
      \<and> (\<exists>x. last (sv_log s') = BundleTickFailed (FetchFailed x)))"
proof -
  obtain w where w: "foldl (service_step V cp) s es = s\<lparr>sv_plane := (sv_plane s)\<lparr>ap_world := w\<rparr>\<rparr>"
    using outside_writes [OF assms(1)] by blast
  then have s': "s' = hangup V cp http (s\<lparr>sv_plane := (sv_plane s)\<lparr>ap_world := w\<rparr>\<rparr>)" by (simp add: s'_def)
  then have "ap_allow (sv_plane s') = ap_allow (sv_plane s) \<and> sv_config s' = sv_config s"
    by (simp add: hangup_keeps)
  moreover have "no_answer (sv_config s) http \<Longrightarrow> ap_updater (sv_plane s') = ap_updater (sv_plane s)
      \<and> sv_egress s' = sv_egress s \<and> (\<exists>x. last (sv_log s') = BundleTickFailed (FetchFailed x))"
    using hangup_offline [of "s\<lparr>sv_plane := (sv_plane s)\<lparr>ap_world := w\<rparr>\<rparr>" http V cp] assms(2) s' by simp
  ultimately show ?thesis by blast
qed

section \<open>The bundle rollback\<close>

definition rollback_paths :: "config \<Rightarrow> path list" where
  "rollback_paths cfg = [pb_path (cfg_bundle cfg), previous_of (pb_path (cfg_bundle cfg)),
     pb_sig_path (cfg_bundle cfg), previous_of (pb_sig_path (cfg_bundle cfg))]"

definition rolled_back :: "config \<Rightarrow> world \<Rightarrow> world \<Rightarrow> bool" where
  "rolled_back cfg w w' =
     (\<exists>b sg. files w (previous_of (pb_path (cfg_bundle cfg))) = Some b
        \<and> files w (previous_of (pb_sig_path (cfg_bundle cfg))) = Some sg
        \<and> files w' = (files w)(previous_of (pb_path (cfg_bundle cfg)) := None, pb_path (cfg_bundle cfg) \<mapsto> b,
             previous_of (pb_sig_path (cfg_bundle cfg)) := None, pb_sig_path (cfg_bundle cfg) \<mapsto> sg))"

text \<open>
  A bundle rollback puts the previous pair in place of the current one, which is lost: nothing is
  kept as previous, so a second rollback is refused. If the signature cannot be renamed the pair on disk is
  torn, the previous bundle with the current signature; in every other failure no file has changed.
\<close>

theorem rollback_bundle_effect:
  assumes "distinct (rollback_paths cfg)" and "rollback_bundle cfg w = (r, w')"
  shows "case r of
      Inr _ \<Rightarrow> rolled_back cfg w w' \<and> (\<forall>r2 w2. rollback_bundle cfg w' = (r2, w2) \<longrightarrow> \<not> is_ok r2)
    | Inl (RenameSig e) \<Rightarrow> files w' (pb_path (cfg_bundle cfg)) = files w (previous_of (pb_path (cfg_bundle cfg)))
        \<and> files w' (previous_of (pb_path (cfg_bundle cfg))) = None
        \<and> files w' (pb_sig_path (cfg_bundle cfg)) = files w (pb_sig_path (cfg_bundle cfg))
    | Inl _ \<Rightarrow> files w' = files w"
proof -
  let ?b = "pb_path (cfg_bundle cfg)" and ?s = "pb_sig_path (cfg_bundle cfg)"
  have d: "distinct [?b, previous_of ?b, ?s, previous_of ?s]" using assms(1) by (simp add: rollback_paths_def)
  have def': "rollback_bundle cfg w = (case os_stat (previous_of ?b) w of
        (Inl e, w1) \<Rightarrow> (Inl (NoPreviousBundle e), w1)
      | (Inr _, w1) \<Rightarrow> (case os_rename (previous_of ?b) ?b w1 of
        (Inl e, w2) \<Rightarrow> (Inl (RenameBundle e), w2)
      | (Inr _, w2) \<Rightarrow> (case os_rename (previous_of ?s) ?s w2 of
        (Inl e, w3) \<Rightarrow> (Inl (RenameSig e), w3)
      | (Inr _, w3) \<Rightarrow> (Inr (), w3))))" for w
    unfolding rollback_bundle_def previous_of_def Let_def by (rule refl)
  have again: "\<not> is_ok r2" if "files w'' (previous_of ?b) = None" "rollback_bundle cfg w'' = (r2, w2)" for w'' r2 w2
    using that by (auto simp: def' split: prod.splits sum.splits dest!: os_stat_ok)
  from assms(2) [unfolded def'] show ?thesis
  proof (cases "os_stat (previous_of ?b) w")
    case st: (Pair r1 w1)
    have f1: "files w1 = files w" by (rule reads_frame(2) [OF st])
    show ?thesis
    proof (cases r1)
      case (Inl e)
      with assms(2) [unfolded def'] st f1 show ?thesis by auto
    next
      case Inr1: (Inr u)
      obtain r2 w2 where rn: "os_rename (previous_of ?b) ?b w1 = (r2, w2)" by fastforce
      show ?thesis
      proof (cases r2)
        case (Inl e)
        with assms(2) [unfolded def'] st rn Inr1 f1 os_rename_err [of _ _ w1 e w2] show ?thesis by auto
      next
        case Inr2: (Inr u2)
        obtain fb where fb: "files w (previous_of ?b) = Some fb" "files w2 = (files w)(previous_of ?b := None, ?b \<mapsto> fb)"
          using os_rename_ok [OF rn [unfolded Inr2]] f1 by auto
        obtain r3 w3 where rs: "os_rename (previous_of ?s) ?s w2 = (r3, w3)" by fastforce
        show ?thesis
        proof (cases r3)
          case (Inl e)
          with assms(2) [unfolded def'] st rn rs Inr1 Inr2 have "r = Inl (RenameSig e)" "w' = w3" by auto
          with os_rename_err [OF rs [unfolded Inl]] fb d show ?thesis by auto
        next
          case Inr3: (Inr u3)
          obtain fs where fs: "files w2 (previous_of ?s) = Some fs" "files w3 = (files w2)(previous_of ?s := None, ?s \<mapsto> fs)"
            using os_rename_ok [OF rs [unfolded Inr3]] by auto
          have r: "r = Inr ()" "w' = w3" using assms(2) [unfolded def'] st rn rs Inr1 Inr2 Inr3 by auto
          have "files w (previous_of ?s) = Some fs" using fs(1) fb(2) d by auto
          then have "rolled_back cfg w w'" using r fb fs by (auto simp: rolled_back_def)
          moreover have "files w' (previous_of ?b) = None" using r fb fs d by auto
          ultimately show ?thesis using r again by auto
        qed
      qed
    qed
  qed
qed


section \<open>Examples\<close>

definition ex_cmd_env :: cmd_env where
  "ex_cmd_env = \<lparr>ce_crypto = ex_crypto, ce_yaml = ex_yaml, ce_version = ''1.2.0'', ce_decode = (\<lambda>_. None),
     ce_rest = (\<lambda>_. NoMoreInput), ce_order = id, ce_parse_url = (\<lambda>_. None), ce_keypair_ok = (\<lambda>c k. True),
     ce_ca_ok = (\<lambda>_. True), ce_names = [], ce_tick_text = (\<lambda>_. ''tick''), ce_bin_text = (\<lambda>_. ''bin'')\<rparr>"

definition ex_service_config :: config where
  "ex_service_config = ex_config\<lparr>
     cfg_mtls := \<lparr>server_cert = ''k'', server_key = ''k'', client_ca = ''k'', allowed_order_serials = [''7''],
       allowed_admin_serials = [''9'']\<rparr>,
     cfg_bundle := \<lparr>pb_path = ''b'', pb_sig_path = ''s'', pb_pubkey_path = ''k'',
       pb_refresh = \<lparr>rf_enabled = False, rf_url = [], rf_interval = 0\<rparr>\<rparr>,
     cfg_egress := \<lparr>eb_enabled = True, eb_refresh = 60, nft_path = [], helper_path = []\<rparr>\<rparr>"

lemma ex_starts: "is_ok (fst (start_service ex_cmd_env ex_service_config (ex_world [])))" by code_simp

lemma ex_service:
  obtains s w where "start_service ex_cmd_env ex_service_config (ex_world []) = (Inr s, w)"
  using is_ok_Inr [OF ex_starts] by (metis prod.collapse)

definition offline :: http_client where "offline url etag = TransportFailure"


theorem pushed_files_not_loaded_witness:
  "\<exists>s w. start_service ex_cmd_env ex_service_config (ex_world []) = (Inr s, w)
     \<and> ap_updater (sv_plane (foldl (service_step ex_cmd_env []) s
          ([OutsideWrite ''b'' (ex_entry ''B'')] @ [Hangup offline]))) = ap_updater (sv_plane s)
     \<and> ap_allow (sv_plane (foldl (service_step ex_cmd_env []) s
          ([OutsideWrite ''b'' (ex_entry ''B'')] @ [Hangup offline]))) = ap_allow (sv_plane s)
     \<and> is_ok (fst (load_and_verify ex_crypto ex_yaml (initial_options ex_cmd_env ex_service_config)
          ((ex_world [])\<lparr>files := (files (ex_world []))(''b'' \<mapsto> ex_entry ''B'')\<rparr>)))"
proof -
  obtain s w where st: "start_service ex_cmd_env ex_service_config (ex_world []) = (Inr s, w)" by (rule ex_service)
  have es: "list_all (\<lambda>e. \<exists>q f. e = OutsideWrite q f) [OutsideWrite ''b'' (ex_entry ''B'')]" by simp
  have a: "ap_audit (sv_plane s) \<noteq> None"
    using started_inv [OF st] by (simp add: service_inv_def)
  have off: "no_answer (sv_config s) offline" by (simp add: no_answer_def offline_def)
  have "is_ok (fst (load_and_verify ex_crypto ex_yaml (initial_options ex_cmd_env ex_service_config)
          ((ex_world [])\<lparr>files := (files (ex_world []))(''b'' \<mapsto> ex_entry ''B'')\<rparr>)))" by code_simp
  with st pushed_files_not_loaded [OF es a, of ex_cmd_env "[]" offline] off show ?thesis by blast
qed

definition ex_rollback_world :: "bool list \<Rightarrow> world" where
  "ex_rollback_world fs = \<lparr>files = [''b'' \<mapsto> ex_entry ''B'', ''b.previous'' \<mapsto> ex_entry ''A'', ''s'' \<mapsto> ex_entry ''sB'',
     ''s.previous'' \<mapsto> ex_entry ''sA''], faults = fs, tmp_seq = 0, history = []\<rparr>"

theorem rollback_bundle_effect_witness:
  "\<exists>r w'. rollback_bundle ex_service_config (ex_rollback_world [False, False, True]) = (r, w')
     \<and> files w' ''b'' = Some (ex_entry ''A'') \<and> files w' ''s'' = Some (ex_entry ''sB'')"
proof -
  have d: "distinct (rollback_paths ex_service_config)" by code_simp
  obtain r w' where t: "rollback_bundle ex_service_config (ex_rollback_world [False, False, True]) = (r, w')" by fastforce
  have "case fst (rollback_bundle ex_service_config (ex_rollback_world [False, False, True])) of Inl (RenameSig e) \<Rightarrow> True | _ \<Rightarrow> False"
    by code_simp
  then obtain e where "r = Inl (RenameSig e)"
    using t by (auto split: sum.splits rollback_bundle_err.splits)
  with rollback_bundle_effect [OF d t] t show ?thesis
    by (simp add: ex_service_config_def previous_of_def ex_rollback_world_def)
qed

end
