(* ===== verification/DiffFacts.thy ===== *)
theory DiffFacts
  imports Diff
begin

text \<open>
  What the line diff promises: lines that concatenate to the text, a table equal to the recursion of
  the longest common subsequence, operations that turn one text into the other with as few changes as
  any, hunks that a patch program applies, and hunk bodies that can be read back from the output.
\<close>

section \<open>Splitting into lines\<close>

definition is_line :: "string \<Rightarrow> bool" where
  "is_line s = (s \<noteq> [] \<and> eol \<notin> set (butlast s))"

lemma concat_split_loop: "concat (split_keep_eol_loop cur s) = cur @ s"
  by (induction cur s rule: split_keep_eol_loop.induct) auto

lemma split_loop_lines:
  "eol \<notin> set cur \<Longrightarrow> l \<in> set (split_keep_eol_loop cur s) \<Longrightarrow> is_line l"
  by (induction cur s rule: split_keep_eol_loop.induct)
    (auto simp: is_line_def split: if_splits dest: in_set_butlastD)

lemma split_keep_lines: "l \<in> set (split_keep_eol s) \<Longrightarrow> is_line l"
  unfolding split_keep_eol_def by (rule split_loop_lines) auto

lemma concat_split [simp]: "concat (split_keep_eol s) = s"
  by (simp add: split_keep_eol_def concat_split_loop)

lemma split_loop_eol: "eol \<notin> set s \<Longrightarrow> split_keep_eol_loop cur (s @ eol # t) = (cur @ s @ [eol]) # split_keep_eol_loop [] t"
  by (induction s arbitrary: cur) auto

lemma split_line: "eol \<notin> set s \<Longrightarrow> split_keep_eol (s @ eol # t) = (s @ [eol]) # split_keep_eol t"
  by (simp add: split_keep_eol_def split_loop_eol)

lemma split_Nil [simp]: "split_keep_eol [] = []"
  by (simp add: split_keep_eol_def)

section \<open>The longest common subsequence\<close>

fun lcs_len :: "'a list \<Rightarrow> 'a list \<Rightarrow> nat" where
  "lcs_len [] ys = 0"
| "lcs_len (x # xs) [] = 0"
| "lcs_len (x # xs) (y # ys) =
     (if x = y then lcs_len xs ys + 1 else max (lcs_len xs (y # ys)) (lcs_len (x # xs) ys))"

lemma lcs_len_Nil [simp]: "lcs_len xs [] = 0"
  by (cases xs) auto

lemma lcs_len_upper: "subseq zs xs \<Longrightarrow> subseq zs ys \<Longrightarrow> length zs \<le> lcs_len xs ys"
proof (induction xs ys arbitrary: zs rule: lcs_len.induct)
  case (1 ys)
  then show ?case by simp
next
  case (2 x xs)
  then show ?case by simp
next
  case (3 x xs y ys)
  show ?case
  proof (cases zs)
    case (Cons z zs')
    show ?thesis
    proof (cases "x = y")
      case True
      have "subseq zs' xs" "subseq zs' ys"
        using 3(4,5) Cons by (auto simp: subseq_Cons' split: if_splits dest: subseq_Cons')
      with 3(1) [OF True, of zs'] True Cons show ?thesis by simp
    next
      case False
      then have "subseq zs xs \<or> subseq zs ys"
        using 3(4,5) Cons by (auto split: if_splits)
      then have "length zs \<le> lcs_len xs (y # ys) \<or> length zs \<le> lcs_len (x # xs) ys"
        using 3(2,3) [OF False] 3(4,5) by blast
      with False show ?thesis by (simp add: le_max_iff_disj)
    qed
  qed simp
qed


lemma lcs_len_step:
  assumes "i < length a" "j < length b"
  shows "lcs_len (drop i a) (drop j b) =
    (if a ! i = b ! j then lcs_len (drop (i + 1) a) (drop (j + 1) b) + 1
     else max (lcs_len (drop (i + 1) a) (drop j b)) (lcs_len (drop i a) (drop (j + 1) b)))"
  using assms by (simp add: Cons_nth_drop_Suc [symmetric])

section \<open>The table\<close>

text \<open>The cells from \<open>(i, j)\<close> on, in the order the loops fill them, hold their values and all others are 0.\<close>

definition done_from :: "nat \<Rightarrow> nat \<Rightarrow> nat \<Rightarrow> nat \<Rightarrow> bool" where
  "done_from i j i' j' = (i < i' \<or> i' = i \<and> j \<le> j')"

definition filled :: "string list \<Rightarrow> string list \<Rightarrow> nat \<Rightarrow> nat \<Rightarrow> table \<Rightarrow> bool" where
  "filled a b i j dp =
     (length dp = length a + 1 \<and> (\<forall>i' \<le> length a. length (dp ! i') = length b + 1) \<and>
      (\<forall>i' \<le> length a. \<forall>j' \<le> length b.
         dp ! i' ! j' = (if done_from i j i' j' then lcs_len (drop i' a) (drop j' b) else 0)))"

lemma filled_start: "filled a b (length a) 0 (replicate (length a + 1) (replicate (length b + 1) 0))"
  by (auto simp: filled_def done_from_def nth_Cons' simp del: replicate_Suc)

lemma filled_next_row: "filled a b (Suc i) 0 dp \<Longrightarrow> filled a b i (length b) dp"
  by (auto simp: filled_def done_from_def)

lemma filled_cell:
  assumes "filled a b i (Suc j) dp" and ij: "i < length a" "j < length b"
  shows "filled a b i j (fill_cell a b i j dp)"
proof -
  have dims: "length dp = length a + 1" "\<And>i'. i' \<le> length a \<Longrightarrow> length (dp ! i') = length b + 1"
    and val: "\<And>i' j'. i' \<le> length a \<Longrightarrow> j' \<le> length b \<Longrightarrow>
      dp ! i' ! j' = (if done_from i (Suc j) i' j' then lcs_len (drop i' a) (drop j' b) else 0)"
    using assms(1) by (auto simp: filled_def)
  have "dp ! (i + 1) ! (j + 1) = lcs_len (drop (i + 1) a) (drop (j + 1) b)"
    "dp ! (i + 1) ! j = lcs_len (drop (i + 1) a) (drop j b)"
    "dp ! i ! (j + 1) = lcs_len (drop i a) (drop (j + 1) b)"
    using ij by (simp_all add: val done_from_def)
  then have "fill_cell a b i j dp = set_cell dp i j (lcs_len (drop i a) (drop j b))"
    by (simp add: fill_cell_def lcs_len_step [OF ij] max_def)
  with dims ij val show ?thesis
    by (auto simp: filled_def set_cell_def nth_list_update done_from_def)
qed

lemma filled_row_loop:
  "k \<le> length b \<Longrightarrow> i < length a \<Longrightarrow> filled a b i k dp \<Longrightarrow>
     filled a b i 0 (fold (fill_cell a b i) (rev [0..<k]) dp)"
  by (induction k arbitrary: dp) (simp_all add: filled_cell)

lemma filled_row: "i < length a \<Longrightarrow> filled a b (Suc i) 0 dp \<Longrightarrow> filled a b i 0 (fill_row a b i dp)"
  unfolding fill_row_def by (rule filled_row_loop) (simp_all add: filled_next_row)

lemma filled_loop:
  "k \<le> length a \<Longrightarrow> filled a b k 0 dp \<Longrightarrow> filled a b 0 0 (fold (fill_row a b) (rev [0..<k]) dp)"
  by (induction k arbitrary: dp) (simp_all add: filled_row)

lemma filled_table: "filled a b 0 0 (fill_table a b)"
  unfolding fill_table_def by (rule filled_loop) (simp_all only: filled_start order_refl)

lemma table_value:
  "i \<le> length a \<Longrightarrow> j \<le> length b \<Longrightarrow> fill_table a b ! i ! j = lcs_len (drop i a) (drop j b)"
  using filled_table [of a b] by (simp add: filled_def done_from_def)

section \<open>The operations\<close>

definition lines_a :: "diff_op list \<Rightarrow> string list" where "lines_a ops = map text_of (filter in_a ops)"
definition lines_b :: "diff_op list \<Rightarrow> string list" where "lines_b ops = map text_of (filter in_b ops)"
definition changes :: "diff_op list \<Rightarrow> nat" where "changes ops = length (filter (\<lambda>p. kind p \<noteq> Same) ops)"
definition shared :: "diff_op list \<Rightarrow> string list" where "shared ops = map text_of (filter (\<lambda>p. kind p = Same) ops)"

lemmas side_defs = lines_a_def lines_b_def in_a_def in_b_def changes_def shared_def

lemma sides_append [simp]:
  "lines_a (xs @ ys) = lines_a xs @ lines_a ys" "lines_b (xs @ ys) = lines_b xs @ lines_b ys"
  by (simp_all add: side_defs)

lemma sides_Nil [simp]: "lines_a [] = []" "lines_b [] = []"
  by (simp_all add: side_defs)

lemma lines_flush:
  "lines_a (map (mk_op Removed) as) = as" "lines_a (map (mk_op Added) bs) = []"
  "lines_b (map (mk_op Removed) as) = []" "lines_b (map (mk_op Added) bs) = bs"
  "shared (map (mk_op Removed) as) = []" "shared (map (mk_op Added) bs) = []"
  by (simp_all add: side_defs filter_map comp_def)


lemma sides_Cons [simp]:
  "lines_a (mk_op Same s # ops) = s # lines_a ops" "lines_b (mk_op Same s # ops) = s # lines_b ops"
  "lines_a (mk_op Removed s # ops) = s # lines_a ops" "lines_b (mk_op Removed s # ops) = lines_b ops"
  "lines_a (mk_op Added s # ops) = lines_a ops" "lines_b (mk_op Added s # ops) = s # lines_b ops"
  "shared (mk_op Same s # ops) = s # shared ops" "shared (mk_op Removed s # ops) = shared ops"
  "shared (mk_op Added s # ops) = shared ops"
  by (simp_all add: side_defs)

lemma walk_sides:
  "lines_a (lcs_walk a b dp i j) = drop i a \<and> lines_b (lcs_walk a b dp i j) = drop j b"
proof (induction a b dp i j rule: lcs_walk.induct)
  case (1 a b dp i j)
  show ?case
  proof (cases "i < length a \<and> j < length b")
    case True
    consider (eq) "a ! i = b ! j" | (del) "a ! i \<noteq> b ! j" "dp ! (i + 1) ! j \<ge> dp ! i ! (j + 1)"
      | (add) "a ! i \<noteq> b ! j" "\<not> dp ! (i + 1) ! j \<ge> dp ! i ! (j + 1)" by blast
    then show ?thesis
    proof cases
      case eq
      with True 1(1) have "lcs_walk a b dp i j = mk_op Same (a ! i) # lcs_walk a b dp (i + 1) (j + 1)"
        by (subst lcs_walk.simps) simp
      with True eq 1(1) show ?thesis by (simp add: Cons_nth_drop_Suc) (metis Cons_nth_drop_Suc)
    next
      case del
      with True have "lcs_walk a b dp i j = mk_op Removed (a ! i) # lcs_walk a b dp (i + 1) j"
        by (subst lcs_walk.simps) simp
      with True del 1(2) show ?thesis by (simp add: Cons_nth_drop_Suc)
    next
      case add
      with True have "lcs_walk a b dp i j = mk_op Added (b ! j) # lcs_walk a b dp i (j + 1)"
        by (subst lcs_walk.simps) simp
      with True add 1(3) show ?thesis by (simp add: Cons_nth_drop_Suc)
    qed
  next
    case False
    have "lcs_walk a b dp i j = map (mk_op Removed) (drop i a) @ map (mk_op Added) (drop j b)"
      by (subst lcs_walk.simps) (rule if_not_P [OF False])
    then show ?thesis by (simp add: lines_flush)
  qed
qed

lemma walk_shared:
  "i \<le> length a \<Longrightarrow> j \<le> length b \<Longrightarrow>
     length (shared (lcs_walk a b (fill_table a b) i j)) = lcs_len (drop i a) (drop j b)"
proof (induction a b "fill_table a b" i j rule: lcs_walk.induct)
  case (1 a b i j)
  show ?case
  proof (cases "i < length a \<and> j < length b")
    case True
    then have "lcs_walk a b (fill_table a b) i j =
        (if a ! i = b ! j then mk_op Same (a ! i) # lcs_walk a b (fill_table a b) (i + 1) (j + 1)
         else if lcs_len (drop (i + 1) a) (drop j b) \<ge> lcs_len (drop i a) (drop (j + 1) b)
           then mk_op Removed (a ! i) # lcs_walk a b (fill_table a b) (i + 1) j
         else mk_op Added (b ! j) # lcs_walk a b (fill_table a b) i (j + 1))"
      by (subst lcs_walk.simps) (simp add: table_value)
    then show ?thesis
      using True 1 by (simp add: table_value lcs_len_step)
  next
    case False
    with 1(4,5) show ?thesis
      by (subst lcs_walk.simps) (auto simp: lines_flush shared_def filter_map comp_def)
  qed
qed

text \<open>Any operations between the two texts share a common subsequence, so they cannot keep more than the longest.\<close>

lemma shared_subseq: "subseq (shared ops) (lines_a ops)" "subseq (shared ops) (lines_b ops)"
  by (induction ops) (auto simp: side_defs)

lemma sides_count: "length (lines_a ops) + length (lines_b ops) = 2 * length (shared ops) + changes ops"
proof (induction ops)
  case (Cons p ops)
  then show ?case by (cases "kind p") (simp_all add: side_defs)
qed (simp add: side_defs)

lemma walk_minimal:
  assumes "lines_a ops = a" "lines_b ops = b"
  shows "changes (lcs_diff a b) \<le> changes ops"
proof -
  have "length (shared ops) \<le> length (shared (lcs_diff a b))"
    using lcs_len_upper [OF shared_subseq [of ops]] assms by (simp add: lcs_diff_def walk_shared)
  moreover have "length a + length b = 2 * length (shared (lcs_diff a b)) + changes (lcs_diff a b)"
    using sides_count [of "lcs_diff a b"] by (simp add: lcs_diff_def walk_sides)
  ultimately show ?thesis
    using sides_count [of ops] assms by simp
qed

section \<open>Marks\<close>

lemma nth_set_True: "k < length keep \<Longrightarrow> keep[a := True] ! k \<longleftrightarrow> keep ! k \<or> k = a"
  by (cases "a = k") auto

lemma fold_update: "length (fold (\<lambda>k keep. keep[k := True]) ks keep) = length keep
   \<and> (\<forall>k < length keep. fold (\<lambda>k keep. keep[k := True]) ks keep ! k = (keep ! k \<or> k \<in> set ks))"
  by (induction ks arbitrary: keep) (auto simp: nth_set_True)

lemma length_mark [simp]: "length (mark lo hi keep) = length keep"
  by (simp add: mark_def fold_update)

lemma nth_mark: "k < length keep \<Longrightarrow> mark lo hi keep ! k \<longleftrightarrow> keep ! k \<or> lo \<le> k \<and> k < hi"
  using fold_update [of "[lo..<hi]" keep] by (auto simp: mark_def)

definition near :: "diff_op list \<Rightarrow> nat \<Rightarrow> nat \<Rightarrow> bool" where
  "near ops i k = (kind (ops ! i) \<noteq> Same \<and> i \<le> k + ctx \<and> k \<le> i + ctx)"

lemma length_mark_op [simp]: "length (mark_op ops i keep) = length keep"
  by (simp add: mark_op_def)

lemma nth_mark_op: "k < length keep \<Longrightarrow> length keep = length ops \<Longrightarrow>
    mark_op ops i keep ! k \<longleftrightarrow> keep ! k \<or> near ops i k"
  by (auto simp: mark_op_def near_def nth_mark)

lemma mark_ops:
  "length keep = length ops \<Longrightarrow> length (fold (mark_op ops) is keep) = length ops
     \<and> (\<forall>k < length ops. fold (mark_op ops) is keep ! k \<longleftrightarrow> keep ! k \<or> (\<exists>i\<in>set is. near ops i k))"
  by (induction "is" arbitrary: keep) (auto simp: nth_mark_op)

lemma length_keep_marks [simp]: "length (keep_marks ops) = length ops"
  unfolding keep_marks_def by (rule conjunct1 [OF mark_ops]) simp

lemma nth_keep_marks:
  "k < length ops \<Longrightarrow> keep_marks ops ! k \<longleftrightarrow> (\<exists>i < length ops. near ops i k)"
  using mark_ops [of "replicate (length ops) False" ops "[0..<length ops]"] by (auto simp: keep_marks_def)

lemma unmarked_same: "k < length ops \<Longrightarrow> \<not> keep_marks ops ! k \<Longrightarrow> kind (ops ! k) = Same"
  using nth_keep_marks [of k ops] by (force simp: near_def)

section \<open>Hunks\<close>

lemma run_end_run: "j \<le> length keep \<Longrightarrow> run_end keep j \<le> length keep
    \<and> (\<forall>k. j \<le> k \<and> k < run_end keep j \<longrightarrow> keep ! k)"
proof (induction keep j rule: run_end.induct)
  case (1 keep j)
  show ?case
  proof (cases "j < length keep \<and> keep ! j")
    case True
    then have "run_end keep j = run_end keep (j + 1)" by (subst run_end.simps) simp
    with True 1 show ?thesis by (auto simp: Suc_le_eq) (metis Suc_leI le_neq_implies_less)
  next
    case False
    have "run_end keep j = j" by (subst run_end.simps) (rule if_not_P [OF False])
    with 1(2) show ?thesis by auto
  qed
qed

lemma runs_skip: "i < length keep \<Longrightarrow> \<not> keep ! i \<Longrightarrow> runs keep i = runs keep (i + 1)"
  by (subst runs.simps) simp

lemma runs_take: "i < length keep \<Longrightarrow> keep ! i \<Longrightarrow> runs keep i = (i, run_end keep i) # runs keep (run_end keep i)"
  by (subst runs.simps) simp

lemma runs_end: "length keep \<le> i \<Longrightarrow> runs keep i = []"
  by (subst runs.simps) simp

lemma runs_after: "r \<in> set (runs keep i) \<Longrightarrow> i \<le> fst r"
proof (induction keep i rule: runs.induct)
  case (1 keep i)
  consider "i < length keep" "keep ! i" | "i < length keep" "\<not> keep ! i" | "length keep \<le> i" by linarith
  then show ?case
  proof cases
    case 1
    with "1.IH"(2) "1.prems" run_end_ge [of i keep] show ?thesis by (fastforce simp: runs_take)
  next
    case 2
    with "1.IH"(1) "1.prems" show ?thesis by (fastforce simp: runs_skip)
  next
    case 3
    with "1.prems" show ?thesis by (simp add: runs_end)
  qed
qed


section \<open>Patching\<close>

text \<open>
  What a patch program does with the hunks: copy the lines up to where the hunk starts, check the numbers
  and the old lines, put the new lines in their place, go on behind them. \<open>pa\<close> and \<open>pb\<close> are
  the current line numbers in the old and in the new text.
\<close>

fun apply_hunks :: "nat \<Rightarrow> nat \<Rightarrow> string list \<Rightarrow> hunk list \<Rightarrow> string list option" where
  "apply_hunks pa pb as [] = Some as"
| "apply_hunks pa pb as (h # hs) =
     (let skip = a_start h - pa; old = lines_a (body h); new = lines_b (body h) in
      if a_start h < pa \<or> length as < skip + a_len h \<or> b_start h \<noteq> pb + skip \<or> a_len h \<noteq> length old
        \<or> b_len h \<noteq> length new \<or> take (a_len h) (drop skip as) \<noteq> old then None
      else map_option (\<lambda>rest. take skip as @ new @ rest)
        (apply_hunks (a_start h + a_len h) (b_start h + b_len h) (drop (skip + a_len h) as) hs))"

lemma apply_hunks_skip:
  "(\<And>h. h \<in> set hs \<Longrightarrow> pa < a_start h) \<Longrightarrow>
     apply_hunks pa pb (x # as) hs = map_option ((#) x) (apply_hunks (pa + 1) (pb + 1) as hs)"
proof (cases hs)
  case (Cons h hs')
  assume "\<And>h. h \<in> set hs \<Longrightarrow> pa < a_start h"
  with Cons have "pa < a_start h" by simp
  then obtain d where "a_start h = Suc pa + d" by (auto simp: less_iff_Suc_add)
  with Cons show ?thesis by (simp add: Let_def option.map_comp comp_def)
qed simp

lemma count_ab_eq: "count_ab ops (x, y) = (x + length (lines_a ops), y + length (lines_b ops))"
proof (induction ops arbitrary: x y)
  case (Cons p ops)
  then show ?case by (cases "kind p") (simp_all add: side_defs)
qed simp

lemma hunk_at_simps [simp]:
  "a_start (hunk_at ops (lo, hi)) = 1 + length (lines_a (take lo ops))"
  "b_start (hunk_at ops (lo, hi)) = 1 + length (lines_b (take lo ops))"
  "a_len (hunk_at ops (lo, hi)) = length (lines_a (slice lo hi ops))"
  "b_len (hunk_at ops (lo, hi)) = length (lines_b (slice lo hi ops))"
  "body (hunk_at ops (lo, hi)) = slice lo hi ops"
  by (simp_all add: hunk_at_def count_ab_eq)

lemma take_slice: "lo \<le> hi \<Longrightarrow> take hi xs = take lo xs @ slice lo hi xs"
  by (metis le_add_diff_inverse slice_def take_add)

lemma drop_slice: "lo \<le> hi \<Longrightarrow> drop lo xs = slice lo hi xs @ drop hi xs"
  by (metis append_take_drop_id drop_drop le_add_diff_inverse2 slice_def)

lemma take_le_lines: "i \<le> j \<Longrightarrow> length (lines_a (take i ops)) \<le> length (lines_a (take j ops))"
  by (simp add: take_slice)

lemma apply_runs:
  assumes same: "\<And>k. k < length ops \<Longrightarrow> \<not> keep ! k \<Longrightarrow> kind (ops ! k) = Same"
  shows "length keep = length ops \<Longrightarrow> i \<le> length ops \<Longrightarrow>
    apply_hunks (1 + length (lines_a (take i ops))) (1 + length (lines_b (take i ops)))
      (lines_a (drop i ops)) (map (hunk_at ops) (runs keep i)) = Some (lines_b (drop i ops))"
  using same
proof (induction keep i rule: runs.induct)
  case (1 keep i)
  consider (take) "i < length keep" "keep ! i" | (skip) "i < length keep" "\<not> keep ! i" | (stop) "i = length keep"
    using "1.prems" by linarith
  then show ?case
  proof cases
    case take
    define hi where "hi = run_end keep i"
    have hi: "i < hi" "hi \<le> length ops"
      using take "1.prems" run_end_gt [of i keep] run_end_run [of i keep] by (auto simp: hi_def)
    have IH: "apply_hunks (1 + length (lines_a (take hi ops))) (1 + length (lines_b (take hi ops)))
        (lines_a (drop hi ops)) (map (hunk_at ops) (runs keep hi)) = Some (lines_b (drop hi ops))"
      using "1.IH"(2) take hi "1.prems" by (simp add: hi_def)
    show ?thesis
      using take IH hi by (simp add: runs_take hi_def [symmetric] drop_slice [of i hi] take_slice [of i hi] Let_def)
  next
    case skip
    then have x: "drop i ops = ops ! i # drop (i + 1) ops" "take (i + 1) ops = take i ops @ [ops ! i]"
      and k: "kind (ops ! i) = Same"
      using "1.prems" by (simp_all add: Cons_nth_drop_Suc take_Suc_conv_app_nth)
    then have s: "lines_a [ops ! i] = [text_of (ops ! i)]" "lines_b [ops ! i] = [text_of (ops ! i)]"
      "lines_a (drop i ops) = text_of (ops ! i) # lines_a (drop (i + 1) ops)"
      "lines_b (drop i ops) = text_of (ops ! i) # lines_b (drop (i + 1) ops)"
      by (simp_all add: side_defs)
    have later: "1 + length (lines_a (take i ops)) < a_start h" if "h \<in> set (map (hunk_at ops) (runs keep (i + 1)))" for h
    proof -
      from that obtain lo hi where h: "(lo, hi) \<in> set (runs keep (i + 1))" "h = hunk_at ops (lo, hi)" by auto
      then have "i + 1 \<le> lo" using runs_after by fastforce
      with take_le_lines [of "i + 1" lo ops] h x s show ?thesis by simp
    qed
    have "apply_hunks (1 + length (lines_a (take i ops))) pb (text_of (ops ! i) # as)
          (map (hunk_at ops) (runs keep (i + 1))) =
        map_option ((#) (text_of (ops ! i)))
          (apply_hunks (1 + length (lines_a (take i ops)) + 1) (pb + 1) as (map (hunk_at ops) (runs keep (i + 1))))" for pb as
      by (rule apply_hunks_skip) (rule later)
    with "1.IH"(1) skip "1.prems" x s show ?thesis
      by (simp add: runs_skip)
  next
    case stop
    with "1.prems" show ?thesis by (simp add: runs_end)
  qed
qed

lemma apply_diff:
  "apply_hunks 1 1 (split_keep_eol a) (diff_hunks a b) = Some (split_keep_eol b)"
proof -
  define ops where "ops = lcs_diff (split_keep_eol a) (split_keep_eol b)"
  have "apply_hunks (1 + length (lines_a (take 0 ops))) (1 + length (lines_b (take 0 ops)))
      (lines_a (drop 0 ops)) (map (hunk_at ops) (runs (keep_marks ops) 0)) = Some (lines_b (drop 0 ops))"
    by (rule apply_runs) (simp_all add: unmarked_same)
  then show ?thesis
    by (simp add: diff_hunks_def ops_def [symmetric]) (simp add: ops_def lcs_diff_def walk_sides)
qed


section \<open>Reading the output back\<close>

text \<open>
  A reader of the unified format: two header lines, then for each line that starts with an at sign the
  four numbers on it and the operations on the lines up to the next one. A line that starts with a
  backslash takes the line break off the line before.
\<close>

fun numbers :: "string \<Rightarrow> string \<Rightarrow> nat list" where
  "numbers cur [] = (if cur = [] then [] else [nat (digits_val cur)])"
| "numbers cur (c # cs) =
     (if is_digit c then numbers (cur @ [c]) cs
      else (if cur = [] then [] else [nat (digits_val cur)]) @ numbers [] cs)"

definition kind_of :: "string \<Rightarrow> op_kind" where
  "kind_of l = (if hd l = CHR '' '' then Same else if hd l = CHR ''-'' then Removed else Added)"

fun read_body :: "string list \<Rightarrow> diff_op list" where
  "read_body [] = []"
| "read_body [l] = [mk_op (kind_of l) (tl l)]"
| "read_body (l # m # ls) =
     (if hd m = CHR 0x5C then mk_op (kind_of l) (butlast (tl l)) # read_body ls
      else mk_op (kind_of l) (tl l) # read_body (m # ls))"

definition is_header :: "string \<Rightarrow> bool" where "is_header l = (hd l = CHR ''@'')"

definition make_hunk :: "nat list \<Rightarrow> diff_op list \<Rightarrow> hunk" where
  "make_hunk ns ops = \<lparr>a_start = ns ! 0, a_len = ns ! 1, b_start = ns ! 2, b_len = ns ! 3, body = ops\<rparr>"

function read_hunks :: "string list \<Rightarrow> hunk list" where
  "read_hunks [] = []"
| "read_hunks (l # ls) =
     make_hunk (numbers [] l) (read_body (takeWhile (\<lambda>m. \<not> is_header m) ls))
       # read_hunks (dropWhile (\<lambda>m. \<not> is_header m) ls)"
  by pat_completeness auto
termination
  by (relation "measure length") (auto simp: le_imp_less_Suc length_dropWhile_le)

definition patch :: "string \<Rightarrow> string \<Rightarrow> string option" where
  "patch old out = map_option concat
     (apply_hunks 1 1 (split_keep_eol old) (read_hunks (drop 2 (split_keep_eol out))))"

lemma numbers_digits:
  "list_all is_digit ds \<Longrightarrow> \<not> is_digit c \<Longrightarrow> cur @ ds \<noteq> [] \<Longrightarrow>
     numbers cur (ds @ c # cs) = nat (digits_val (cur @ ds)) # numbers [] cs"
  by (induction ds arbitrary: cur) auto

lemma numbers_nat: "\<not> is_digit c \<Longrightarrow> numbers [] (nat_str n @ c # cs) = n # numbers [] cs"
  by (subst numbers_digits) (simp_all add: nat_str_digits digits_val_nat_str)

definition hunk_header :: "hunk \<Rightarrow> string" where
  "hunk_header h = ''@@ -'' @ nat_str (a_start h) @ '','' @ nat_str (a_len h) @ '' +'' @ nat_str (b_start h) @ '',''
       @ nat_str (b_len h) @ '' @@''"

lemma numbers_header: "numbers [] (hunk_header h @ [eol]) = [a_start h, a_len h, b_start h, b_len h]"
  by (simp add: hunk_header_def numbers_nat is_digit_def eol_def)

lemma digits_no_eol: "list_all is_digit ds \<Longrightarrow> eol \<notin> set ds"
  by (auto simp: list_all_iff is_digit_def eol_def)

lemma header_no_eol: "eol \<notin> set (hunk_header h)"
  using digits_no_eol [OF nat_str_digits] by (simp add: hunk_header_def eol_def)

lemma write_hunk_eq: "write_hunk h = hunk_header h @ eol # concat (map render_op (body h))"
  by (simp add: write_hunk_def hunk_header_def)

text \<open>The lines of one rendered operation.\<close>

definition op_lines :: "diff_op \<Rightarrow> string list" where
  "op_lines p =
     (if has_suffix (text_of p) [eol] then [prefix_of (kind p) # text_of p]
      else [prefix_of (kind p) # text_of p @ [eol], tl no_eol_mark])"

lemma prefix_of_simps [simp]: "prefix_of k \<noteq> eol" "eol \<noteq> prefix_of k" "prefix_of k \<noteq> CHR 0x5C" "prefix_of k \<noteq> CHR ''@''"
  "kind_of (prefix_of k # s) = k"
  by (cases k; simp add: prefix_of_def eol_def kind_of_def)+

lemma line_cases:
  assumes "is_line s"
  obtains (ended) t where "s = t @ [eol]" "eol \<notin> set t" | (unended) "eol \<notin> set s" "s \<noteq> []"
proof (cases s rule: rev_cases)
  case Nil
  with assms show ?thesis by (simp add: is_line_def)
next
  case (snoc t c)
  with assms ended [of t] unended show ?thesis by (cases "c = eol") (auto simp: is_line_def)
qed

lemma no_eol_mark_line:
  obtains u where "no_eol_mark = eol # u @ [eol]" "eol \<notin> set u"
  by (rule that [of "butlast (tl no_eol_mark)"]) (simp_all add: no_eol_mark_def eol_def)

lemma split_op:
  assumes "is_line (text_of p)"
  shows "split_keep_eol (render_op p @ t) = op_lines p @ split_keep_eol t"
  using assms
proof (cases rule: line_cases)
  case (ended u)
  then show ?thesis
    using split_line [of "prefix_of (kind p) # u" t] by (simp add: render_op_def op_lines_def has_suffix_def)
next
  case unended
  then have "\<not> has_suffix (text_of p) [eol]" by (auto simp: has_suffix_def suffix_def)
  moreover obtain u where u: "no_eol_mark = eol # u @ [eol]" "eol \<notin> set u" by (rule no_eol_mark_line)
  ultimately show ?thesis
    using unended split_line [of "prefix_of (kind p) # text_of p" "u @ eol # t"] split_line [OF u(2), of t]
    by (simp add: render_op_def op_lines_def u(1))
qed

lemma split_ops:
  "\<forall>p\<in>set ops. is_line (text_of p) \<Longrightarrow>
     split_keep_eol (concat (map render_op ops) @ t) = concat (map op_lines ops) @ split_keep_eol t"
  by (induction ops) (simp_all add: split_op)


lemma mk_op_self [simp]: "mk_op (kind p) (text_of p) = p"
  by (cases p) (simp add: mk_op_def)

lemma read_ops: "read_body (concat (map op_lines ops)) = ops"
proof (induction ops)
  case (Cons p ops)
  show ?case
  proof (cases "has_suffix (text_of p) [eol]")
    case True
    with Cons show ?thesis
      by (cases ops) (auto simp: op_lines_def)
  next
    case False
    with Cons show ?thesis by (simp add: op_lines_def no_eol_mark_def)
  qed
qed simp

lemma op_lines_no_header: "l \<in> set (op_lines p) \<Longrightarrow> \<not> is_header l"
  by (auto simp: op_lines_def is_header_def no_eol_mark_def split: if_splits)

definition hunk_lines :: "hunk \<Rightarrow> string list" where
  "hunk_lines h = (hunk_header h @ [eol]) # concat (map op_lines (body h))"

lemma split_hunks:
  "\<forall>h\<in>set hs. \<forall>p\<in>set (body h). is_line (text_of p) \<Longrightarrow>
     split_keep_eol (concat (map write_hunk hs)) = concat (map hunk_lines hs)"
  by (induction hs) (simp_all add: write_hunk_eq split_line [OF header_no_eol] split_ops hunk_lines_def)

lemma make_hunk_self: "make_hunk (numbers [] (hunk_header h @ [eol])) (body h) = h"
  by (cases h) (simp add: make_hunk_def numbers_header)

lemma while_header:
  "ys = [] \<or> is_header (hd ys) \<Longrightarrow> takeWhile (\<lambda>m. \<not> is_header m) ys = []"
  "ys = [] \<or> is_header (hd ys) \<Longrightarrow> dropWhile (\<lambda>m. \<not> is_header m) ys = ys"
  by (cases ys; simp)+

lemma read_hunk_lines: "read_hunks (concat (map hunk_lines hs)) = hs"
proof (induction hs)
  case (Cons h hs)
  have body: "\<not> is_header l" if "l \<in> set (concat (map op_lines (body h)))" for l
    using that op_lines_no_header by auto
  have "concat (map hunk_lines hs) = [] \<or> is_header (hd (concat (map hunk_lines hs)))"
    by (cases hs) (simp_all add: hunk_lines_def is_header_def hunk_header_def)
  note rest = while_header [OF this]
  have "takeWhile (\<lambda>m. \<not> is_header m) (concat (map op_lines (body h)) @ concat (map hunk_lines hs)) =
      concat (map op_lines (body h))"
    "dropWhile (\<lambda>m. \<not> is_header m) (concat (map op_lines (body h)) @ concat (map hunk_lines hs)) =
      concat (map hunk_lines hs)"
    by (simp_all only: takeWhile_append2 [OF body] dropWhile_append2 [OF body] rest append_Nil2)
  moreover have "concat (map hunk_lines (h # hs)) =
      (hunk_header h @ [eol]) # (concat (map op_lines (body h)) @ concat (map hunk_lines hs))"
    by (simp add: hunk_lines_def)
  ultimately show ?case
    using Cons.IH make_hunk_self [of h] by (simp only: read_hunks.simps read_ops)
qed simp

lemma ops_are_lines:
  assumes "h \<in> set (diff_hunks a b)" and "p \<in> set (body h)"
  shows "is_line (text_of p)"
proof -
  define ops where "ops = lcs_diff (split_keep_eol a) (split_keep_eol b)"
  from assms(1) obtain lo hi where "h = hunk_at ops (lo, hi)" by (auto simp: diff_hunks_def ops_def Let_def)
  with assms(2) have "p \<in> set ops" by (auto simp: slice_def dest: in_set_takeD in_set_dropD)
  then have "text_of p \<in> set (lines_a ops) \<or> text_of p \<in> set (lines_b ops)"
    by (cases "kind p") (auto simp: side_defs)
  then show ?thesis
    by (auto simp: ops_def lcs_diff_def walk_sides intro: split_keep_lines)
qed

lemma read_unified:
  assumes "eol \<notin> set a_name" "eol \<notin> set b_name"
  shows "read_hunks (drop 2 (split_keep_eol (unified_diff a_name b_name a b))) = diff_hunks a b"
proof -
  have "split_keep_eol (unified_diff a_name b_name a b) =
      (''--- '' @ a_name @ [eol]) # (''+++ '' @ b_name @ [eol]) # concat (map hunk_lines (diff_hunks a b))"
    using assms split_line [of "''--- '' @ a_name"] split_line [of "''+++ '' @ b_name"] ops_are_lines
    by (simp add: unified_diff_def split_hunks eol_def)
  then show ?thesis by (simp add: read_hunk_lines)
qed


section \<open>Properties\<close>

text \<open>
  The two nested loops of lcsDiff fill the table with the lengths of the longest common subsequences
  of the remaining lines: every one of the (n+1)(m+1) cells equals the defining recursion at its suffixes.
\<close>

theorem table_is_lcs:
  "fill_table a b =
     map (\<lambda>i. map (\<lambda>j. lcs_len (drop i a) (drop j b)) [0..<length b + 1]) [0..<length a + 1]"
proof (rule nth_equalityI)
  have dims: "length (fill_table a b) = length a + 1" "i \<le> length a \<Longrightarrow> length (fill_table a b ! i) = length b + 1" for i
    using filled_table [of a b] by (simp_all add: filled_def)
  then show "length (fill_table a b) =
      length (map (\<lambda>i. map (\<lambda>j. lcs_len (drop i a) (drop j b)) [0..<length b + 1]) [0..<length a + 1])"
    by simp
  fix i
  assume "i < length (fill_table a b)"
  then have "i \<le> length a" using dims by simp
  then show "fill_table a b ! i =
      map (\<lambda>i. map (\<lambda>j. lcs_len (drop i a) (drop j b)) [0..<length b + 1]) [0..<length a + 1] ! i"
    using dims(2) by (intro nth_equalityI) (simp_all add: table_value del: upt_Suc)
qed

text \<open>
  C22: LcsDiff returns operations that spell the first list of lines when the added ones are left out, the
  second when the removed ones are, and no other such operations change fewer lines; their number is
  the number of both lists' lines less the longest common subsequence.
\<close>

theorem lcs_diff_minimal:
  "lines_a (lcs_diff a b) = a \<and> lines_b (lcs_diff a b) = b \<and>
   length (lcs_diff a b) + lcs_len a b = length a + length b \<and>
   (\<forall>ops. lines_a ops = a \<and> lines_b ops = b \<longrightarrow> changes (lcs_diff a b) \<le> changes ops)"
proof -
  have sides: "lines_a (lcs_diff a b) = a" "lines_b (lcs_diff a b) = b"
    by (simp_all add: lcs_diff_def walk_sides)
  have "length (lcs_diff a b) = length (shared (lcs_diff a b)) + changes (lcs_diff a b)"
    using sum_length_filter_compl [of "\<lambda>p. kind p = Same" "lcs_diff a b"] by (simp add: shared_def changes_def)
  moreover have "length (shared (lcs_diff a b)) = lcs_len a b"
    by (simp add: lcs_diff_def walk_shared)
  ultimately show ?thesis
    using sides sides_count [of "lcs_diff a b"] walk_minimal [of _ a b] by auto
qed

lemma lcs_diff_minimal_witness:
  "changes (lcs_diff [''a'', ''b''] [''b'', ''c'']) \<le>
   changes (map (mk_op Removed) [''a'', ''b''] @ map (mk_op Added) [''b'', ''c''])
   \<and> lcs_diff [''a'', ''b''] [''b'', ''c''] = [mk_op Removed ''a'', mk_op Same ''b'', mk_op Added ''c'']"
proof
  show "changes (lcs_diff [''a'', ''b''] [''b'', ''c'']) \<le>
      changes (map (mk_op Removed) [''a'', ''b''] @ map (mk_op Added) [''b'', ''c''])"
    using lcs_diff_minimal [of "[''a'', ''b'']" "[''b'', ''c'']"] by (simp add: lines_flush)
  show "lcs_diff [''a'', ''b''] [''b'', ''c''] = [mk_op Removed ''a'', mk_op Same ''b'', mk_op Added ''c'']"
    by code_simp
qed

lemma patch_unified:
  assumes "eol \<notin> set a_name" and "eol \<notin> set b_name"
  shows "patch a (unified_diff a_name b_name a b) = Some b"
  by (simp only: patch_def read_unified [OF assms] apply_diff option.map concat_split)

text \<open>
  C14: The output of unifiedDiff, read back as a patch, turns the old text into the new one: every hunk's
  line numbers and lengths are right in both texts, its unchanged and removed lines are the old text's, and
  the mark for a missing final line break restores the text byte for byte. The names must be one line.
\<close>

theorem diff_patches:
  assumes "eol \<notin> set a_name" and "eol \<notin> set b_name"
  shows "patch a (unified_diff a_name b_name a b) = Some b"
  by (rule patch_unified [OF assms])

lemma diff_patches_witness:
  "patch (''x'' @ [eol] @ ''y'') (unified_diff ''old'' ''new'' (''x'' @ [eol] @ ''y'') (''x'' @ [eol])) = Some (''x'' @ [eol])"
  by (rule diff_patches) (simp_all add: eol_def)

text \<open>
  Equal texts give no hunk, and with an empty old text the only hunk starts at line 1 of it, where GNU
  diff writes line 0.
\<close>

lemma empty_old_header:
  "unified_diff ''o'' ''n'' [] ''x'' =
     ''--- o'' @ [eol] @ ''+++ n'' @ [eol] @ ''@@ -1,0 +1,1 @@'' @ [eol] @ ''+x'' @ no_eol_mark"
  by code_simp

end
