(* ===== verification/Values.thy ===== *)
theory Values
  imports Prelude "HOL-Library.AList"
begin

text \<open>
  Documents as trees of Go values, shared by the broker store of the admin tool and the bundle builder:
  what \<open>yaml.v3\<close> and \<open>encoding/json\<close> decode into \<open>any\<close> and encode from it.
\<close>

text \<open>
  What the decoders produce: a \<open>json.Number\<close> still carries its text, a float its canonical text, and the
  older YAML shape has maps with keys of any kind. A map is the list of its entries in some order.
\<close>

datatype val = VNull | VBool bool | VInt int | VFloat string | VNum string | VStr string
  | VList "val list" | VMap "(string \<times> val) list" | VAnyMap "(val \<times> val) list"

text \<open>A member of an object as \<open>obj[key].(string)\<close> reads it, with the zero value for anything else.\<close>

type_synonym object = "(string \<times> val) list"

definition str_member :: "object \<Rightarrow> string \<Rightarrow> string" where
  "str_member obj k = (case map_of obj k of Some (VStr s) \<Rightarrow> s | _ \<Rightarrow> [])"

definition bool_member :: "object \<Rightarrow> string \<Rightarrow> bool" where
  "bool_member obj k = (case map_of obj k of Some (VBool b) \<Rightarrow> b | _ \<Rightarrow> False)"

text \<open>\<open>obj[key] = v\<close>.\<close>

definition set_member :: "string \<Rightarrow> val \<Rightarrow> object \<Rightarrow> object" where
  "set_member k v obj = AList.update k v obj"

end
