(* ===== verification/Brokers.thy ===== *)
theory Brokers
  imports Admin Staging Values
begin

text \<open>
  The broker store of the admin tool, \<open>tools/admin-ui/brokers.go\<close>: a directory of YAML files edited over
  HTTP. Documents are trees of Go values; the JSON and YAML codecs, the schema compiler and the listing of
  a directory are outside. The store keeps the compiled schema once it was loaded.
\<close>

section \<open>Normalising\<close>

text \<open>\<open>normalizeYAML\<close>; \<open>sprint\<close> is \<open>fmt.Sprint\<close>. A later entry with the same text replaces an earlier one.\<close>

fun normalize_yaml :: "(val \<Rightarrow> string) \<Rightarrow> val \<Rightarrow> val" where
  "normalize_yaml sp (VMap kvs) = VMap (map (\<lambda>(k, v). (k, normalize_yaml sp v)) kvs)"
| "normalize_yaml sp (VAnyMap kvs) =
     VMap (fold (\<lambda>(k, v) out. AList.update (sp k) v out) (map (\<lambda>(k, v). (k, normalize_yaml sp v)) kvs) [])"
| "normalize_yaml sp (VList vs) = VList (map (normalize_yaml sp) vs)"
| "normalize_yaml sp v = v"

text \<open>\<open>jsonNumbersToFloats\<close>: an integer that fits 64 bits, else a float, else the text itself.\<close>

definition number_val :: "(string \<Rightarrow> string option) \<Rightarrow> string \<Rightarrow> val" where
  "number_val parse_float s =
     (case atoi s of
        Some i \<Rightarrow> VInt i
      | None \<Rightarrow> (case parse_float s of Some f \<Rightarrow> VFloat f | None \<Rightarrow> VStr s))"

fun json_numbers :: "(string \<Rightarrow> string option) \<Rightarrow> val \<Rightarrow> val" where
  "json_numbers pf (VMap kvs) = VMap (map (\<lambda>(k, v). (k, json_numbers pf v)) kvs)"
| "json_numbers pf (VList vs) = VList (map (json_numbers pf) vs)"
| "json_numbers pf (VNum s) = number_val pf s"
| "json_numbers pf v = v"

text \<open>The encoder: maps by sorted key, strings with HTML escapes. A map with other keys cannot be encoded.\<close>

fun val_json :: "val \<Rightarrow> string" where
  "val_json VNull = ''null''"
| "val_json (VBool b) = json_bool b"
| "val_json (VInt i) = json_int i"
| "val_json (VFloat f) = f"
| "val_json (VNum s) = s"
| "val_json (VStr s) = json_string True s"
| "val_json (VList vs) = json_list (map val_json vs)"
| "val_json (VMap kvs) =
     json_object (sort_key fst (map (\<lambda>(k, v). (k, val_json v)) kvs))"
| "val_json (VAnyMap kvs) = []"

section \<open>The store\<close>

text \<open>
  \<open>se_compile\<close> turns the schema document into the validator or an error; \<open>se_encode\<close> gives the part of the
  YAML text written by \<open>Encode\<close> and the rest written by \<open>Close\<close>; \<open>se_decode_json\<close> decodes the first JSON
  value of a body into an object (null is the empty one), numbers kept as text.
\<close>

record store_env =
  se_compile :: "bytes \<Rightarrow> string + (object \<Rightarrow> string option)"
  se_encode :: "object \<Rightarrow> (bytes \<times> bytes) option"
  se_decode_yaml :: "bytes \<Rightarrow> string + val"
  se_decode_json :: "bytes \<Rightarrow> string + object"
  se_parse_float :: "string \<Rightarrow> string option"
  se_sprint :: "val \<Rightarrow> string"
  se_readdir :: "world \<Rightarrow> path \<Rightarrow> os_err + (string \<times> bool) list"
  se_err_text :: "os_err \<Rightarrow> string"

record broker_store =
  cfg_dir :: path
  schema :: "(object \<Rightarrow> string option) option"

definition new_broker_store :: "path \<Rightarrow> broker_store" where
  "new_broker_store d = \<lparr>cfg_dir = d, schema = None\<rparr>"

definition brokers_dir :: "broker_store \<Rightarrow> path" where
  "brokers_dir b = path_join [cfg_dir b, ''brokers'']"

definition schema_path :: "broker_store \<Rightarrow> path" where
  "schema_path b = path_join [cfg_dir b, ''schemas'', ''bundle.schema.json'']"

definition broker_path :: "broker_store \<Rightarrow> string \<Rightarrow> path" where
  "broker_path b name = path_join [brokers_dir b, name @ ''.yaml'']"

text \<open>\<open>brokerNameRe\<close>, \<open>^[a-z][a-z0-9_]{1,31}$\<close>.\<close>

definition broker_name_re :: "string \<Rightarrow> bool" where
  "broker_name_re s = (case s of [] \<Rightarrow> False
     | c # cs \<Rightarrow> is_lower c \<and> list_all (\<lambda>d. is_lower d \<or> is_digit d \<or> d = CHR ''_'') cs
         \<and> 1 \<le> length cs \<and> length cs \<le> 31)"

definition load_schema :: "store_env \<Rightarrow> broker_store \<Rightarrow> world \<Rightarrow> (string + (object \<Rightarrow> string option)) \<times> broker_store \<times> world" where
  "load_schema S b w =
     (case schema b of
        Some sch \<Rightarrow> (Inr sch, b, w)
      | None \<Rightarrow> (case os_read_file (schema_path b) w of
          (Inl e, w1) \<Rightarrow> (Inl (se_err_text S e), b, w1)
        | (Inr doc, w1) \<Rightarrow> (case se_compile S doc of
            Inl e \<Rightarrow> (Inl e, b, w1)
          | Inr sch \<Rightarrow> (Inr sch, b\<lparr>schema := Some sch\<rparr>, w1))))"

definition validate_obj :: "store_env \<Rightarrow> object \<Rightarrow> broker_store \<Rightarrow> world \<Rightarrow> (string + unit) \<times> broker_store \<times> world" where
  "validate_obj S obj b w =
     (case load_schema S b w of
        (Inl e, b1, w1) \<Rightarrow> (Inl (''load schema: '' @ e), b1, w1)
      | (Inr sch, b1, w1) \<Rightarrow> (case sch obj of
          Some e \<Rightarrow> (Inl (''schema validation failed: '' @ e), b1, w1)
        | None \<Rightarrow> (Inr (), b1, w1)))"

text \<open>\<open>persist\<close>.\<close>

datatype persist_err = PersistOs os_err | PersistEncode

definition persist_tmp :: "broker_store \<Rightarrow> string \<Rightarrow> path" where
  "persist_tmp b name = broker_path b name @ ''.tmp''"

definition persist :: "store_env \<Rightarrow> string \<Rightarrow> object \<Rightarrow> broker_store \<Rightarrow> world \<Rightarrow> (persist_err + unit) \<times> world" where
  "persist S name obj b w =
     (let dst = broker_path b name; tmp = persist_tmp b name in
     (case os_create tmp w of
        (Inl e, w1) \<Rightarrow> (Inl (PersistOs e), w1)
      | (Inr _, w1) \<Rightarrow>
     (case se_encode S obj of
        None \<Rightarrow> (Inl PersistEncode, cleanup tmp (snd (file_close w1)))
      | Some (d, rest) \<Rightarrow>
     (case file_write tmp d w1 of
        (Inl e, w2) \<Rightarrow> (Inl (PersistOs e), cleanup tmp (snd (file_close w2)))
      | (Inr _, w2) \<Rightarrow>
     (case file_write tmp rest w2 of
        (Inl e, w3) \<Rightarrow> (Inl (PersistOs e), cleanup tmp (snd (file_close w3)))
      | (Inr _, w3) \<Rightarrow>
     (case file_close w3 of
        (Inl e, w4) \<Rightarrow> (Inl (PersistOs e), cleanup tmp w4)
      | (Inr _, w4) \<Rightarrow>
     (case os_rename tmp dst w4 of
        (Inl e, w5) \<Rightarrow> (Inl (PersistOs e), w5)
      | (Inr _, w5) \<Rightarrow> (Inr (), w5))))))))"


section \<open>Handlers\<close>

text \<open>\<open>writeJSON\<close> and \<open>writeErr\<close> of the tool, which leave HTML escaping on.\<close>

definition ui_json :: "nat \<Rightarrow> string \<Rightarrow> response_writer" where
  "ui_json status v = write_json status (Some v) new_response"

definition ui_err :: "nat \<Rightarrow> string \<Rightarrow> response_writer" where
  "ui_err status msg = ui_json status (json_object [(''error'', json_string True msg)])"

type_synonym store_reply = "response_writer \<times> broker_store \<times> world"

text \<open>\<open>read\<close>: the file, decoded and normalised, has to be a mapping.\<close>

datatype read_err = ReadOs os_err | ReadYaml string | NotMapping string

definition read_broker :: "store_env \<Rightarrow> string \<Rightarrow> broker_store \<Rightarrow> world \<Rightarrow> (read_err + object) \<times> world" where
  "read_broker S name b w =
     (case os_read_file (broker_path b name) w of
        (Inl e, w1) \<Rightarrow> (Inl (ReadOs e), w1)
      | (Inr raw, w1) \<Rightarrow>
          ((case se_decode_yaml S raw of
              Inl e \<Rightarrow> Inl (ReadYaml e)
            | Inr y \<Rightarrow> (case normalize_yaml (se_sprint S) y of
                VMap obj \<Rightarrow> Inr obj
              | _ \<Rightarrow> Inl (NotMapping (name @ '': top-level is not a mapping'')))), w1))"

definition read_err_text :: "store_env \<Rightarrow> read_err \<Rightarrow> string" where
  "read_err_text S e = (case e of ReadOs x \<Rightarrow> se_err_text S x | ReadYaml m \<Rightarrow> m | NotMapping m \<Rightarrow> m)"

definition decode_json :: "store_env \<Rightarrow> bytes \<Rightarrow> string + object" where
  "decode_json S body = wrap_err (\<lambda>e. ''invalid JSON: '' @ e)
     (andthen (se_decode_json S body)
        (\<lambda>obj. Inr (map (\<lambda>(k, v). (k, json_numbers (se_parse_float S) v)) obj)))"

definition obj_json :: "object \<Rightarrow> string" where "obj_json obj = val_json (VMap obj)"

text \<open>\<open>list\<close>: unreadable files are left out; the items are sorted by id.\<close>

definition list_item :: "string \<Rightarrow> object \<Rightarrow> string \<times> string \<times> bool" where
  "list_item name obj =
     (let i = str_member obj ''id'' in
      (if i = [] then name else i, str_member obj ''display_name'', bool_member obj ''enabled''))"

definition yaml_name :: "string \<Rightarrow> string option" where
  "yaml_name n = (if has_suffix n ''.yaml'' then Some (take (length n - 5) n) else None)"

fun list_loop :: "store_env \<Rightarrow> (string \<times> bool) list \<Rightarrow> broker_store \<Rightarrow> world \<Rightarrow> (string \<times> string \<times> bool) list \<times> world" where
  "list_loop S [] b w = ([], w)"
| "list_loop S ((n, is_dir) # es) b w =
     (case (is_dir, yaml_name n) of
        (False, Some name) \<Rightarrow> (case read_broker S name b w of
            (Inl _, w1) \<Rightarrow> list_loop S es b w1
          | (Inr obj, w1) \<Rightarrow> (case list_loop S es b w1 of (items, w2) \<Rightarrow> (list_item name obj # items, w2)))
      | _ \<Rightarrow> list_loop S es b w)"

definition item_json :: "string \<times> string \<times> bool \<Rightarrow> string" where
  "item_json it = (case it of (i, dn, en) \<Rightarrow> json_object
     [(''id'', json_string True i), (''display_name'', json_string True dn), (''enabled'', json_bool en)])"

definition brokers_list :: "store_env \<Rightarrow> broker_store \<Rightarrow> world \<Rightarrow> store_reply" where
  "brokers_list S b w =
     (case se_readdir S w (brokers_dir b) of
        Inl e \<Rightarrow> (ui_err 500 (se_err_text S e), b, w)
      | Inr es \<Rightarrow> (case list_loop S es b w of (items, w1) \<Rightarrow>
          (ui_json 200 (json_list (map item_json (sort_key fst items))), b, w1)))"

definition brokers_get :: "store_env \<Rightarrow> string \<Rightarrow> broker_store \<Rightarrow> world \<Rightarrow> store_reply" where
  "brokers_get S name b w =
     (if \<not> broker_name_re name then (ui_err 400 ''invalid broker name'', b, w)
      else (case read_broker S name b w of
        (Inl (ReadOs NotExist), w1) \<Rightarrow> (ui_err 404 ''broker not found'', b, w1)
      | (Inl e, w1) \<Rightarrow> (ui_err 500 (read_err_text S e), b, w1)
      | (Inr obj, w1) \<Rightarrow> (ui_json 200 (obj_json obj), b, w1)))"

definition persist_err_text :: "store_env \<Rightarrow> persist_err \<Rightarrow> string" where
  "persist_err_text S e = (case e of PersistOs x \<Rightarrow> se_err_text S x | PersistEncode \<Rightarrow> ''yaml'')"

text \<open>Validating and persisting, the common end of \<open>create\<close> and \<open>write\<close>.\<close>

definition store_obj :: "store_env \<Rightarrow> nat \<Rightarrow> string \<Rightarrow> object \<Rightarrow> broker_store \<Rightarrow> world \<Rightarrow> store_reply" where
  "store_obj S okay name obj b w =
     (case validate_obj S obj b w of
        (Inl e, b1, w1) \<Rightarrow> (ui_err 400 e, b1, w1)
      | (Inr _, b1, w1) \<Rightarrow> (case persist S name obj b1 w1 of
          (Inl e, w2) \<Rightarrow> (ui_err 500 (persist_err_text S e), b1, w2)
        | (Inr _, w2) \<Rightarrow> (ui_json okay (obj_json obj), b1, w2)))"

definition brokers_write :: "store_env \<Rightarrow> string \<Rightarrow> bytes \<Rightarrow> broker_store \<Rightarrow> world \<Rightarrow> store_reply" where
  "brokers_write S name body b w =
     (case decode_json S body of
        Inl e \<Rightarrow> (ui_err 400 e, b, w)
      | Inr obj \<Rightarrow>
          if str_member obj ''id'' \<noteq> name
          then (ui_err 400 (''id '' @ go_quote (str_member obj ''id'') @ '' in body does not match URL '' @ go_quote name), b, w)
          else store_obj S 200 name obj b w)"

definition brokers_put :: "store_env \<Rightarrow> string \<Rightarrow> bytes \<Rightarrow> broker_store \<Rightarrow> world \<Rightarrow> store_reply" where
  "brokers_put S name body b w =
     (if \<not> broker_name_re name then (ui_err 400 ''invalid broker name'', b, w)
      else (case os_stat (broker_path b name) w of
        (Inl _, w1) \<Rightarrow> (ui_err 404 ''broker not found'', b, w1)
      | (Inr _, w1) \<Rightarrow> brokers_write S name body b w1))"

definition brokers_create :: "store_env \<Rightarrow> bytes \<Rightarrow> broker_store \<Rightarrow> world \<Rightarrow> store_reply" where
  "brokers_create S body b w =
     (case decode_json S body of
        Inl e \<Rightarrow> (ui_err 400 e, b, w)
      | Inr obj \<Rightarrow> (let i = str_member obj ''id'' in
          if \<not> broker_name_re i then (ui_err 400 ''id must match ^[a-z][a-z0-9_]{1,31}$'', b, w)
          else (case os_stat (broker_path b i) w of
            (Inr _, w1) \<Rightarrow> (ui_err 409 (''broker '' @ go_quote i @ '' already exists''), b, w1)
          | (Inl _, w1) \<Rightarrow> store_obj S 201 i obj b w1)))"

definition brokers_delete :: "store_env \<Rightarrow> string \<Rightarrow> broker_store \<Rightarrow> world \<Rightarrow> store_reply" where
  "brokers_delete S name b w =
     (if \<not> broker_name_re name then (ui_err 400 ''invalid broker name'', b, w)
      else (case os_remove (broker_path b name) w of
        (Inl NotExist, w1) \<Rightarrow> (ui_err 404 ''broker not found'', b, w1)
      | (Inl e, w1) \<Rightarrow> (ui_err 500 (se_err_text S e), b, w1)
      | (Inr _, w1) \<Rightarrow> (snd (write_header 204 new_response), b, w1)))"

text \<open>The five broker routes of \<open>server.routes\<close>, and the requests served one after another.\<close>

datatype store_request = ListBrokers | GetBroker string | PutBroker string bytes | CreateBroker bytes | DeleteBroker string

definition store_serve :: "store_env \<Rightarrow> store_request \<Rightarrow> broker_store \<Rightarrow> world \<Rightarrow> store_reply" where
  "store_serve S q b w =
     (case q of
        ListBrokers \<Rightarrow> brokers_list S b w
      | GetBroker name \<Rightarrow> brokers_get S name b w
      | PutBroker name body \<Rightarrow> brokers_put S name body b w
      | CreateBroker body \<Rightarrow> brokers_create S body b w
      | DeleteBroker name \<Rightarrow> brokers_delete S name b w)"

fun store_run :: "store_env \<Rightarrow> store_request list \<Rightarrow> broker_store \<Rightarrow> world \<Rightarrow> response_writer list \<times> broker_store \<times> world" where
  "store_run S [] b w = ([], b, w)"
| "store_run S (q # qs) b w =
     (case store_serve S q b w of (r, b1, w1) \<Rightarrow>
        (case store_run S qs b1 w1 of (rs, b2, w2) \<Rightarrow> (r # rs, b2, w2)))"

end
