(* ===== verification/BrokersFacts.thy ===== *)
theory BrokersFacts
  imports Brokers
begin

text \<open>
  What the broker store keeps: requests reach no file but those of brokers, every broker file is at every
  instant a complete document that passed the schema, and what was created can be read back.
\<close>

section \<open>Paths of brokers\<close>

lemma name_chars:
  assumes "broker_name_re n"
  shows "n \<noteq> []" and "CHR ''/'' \<notin> set n"
proof -
  show "n \<noteq> []" using assms by (auto simp: broker_name_re_def)
  show "CHR ''/'' \<notin> set n"
    using assms by (auto simp: broker_name_re_def is_lower_def is_digit_def list_all_iff split: list.splits)
qed

lemma plain_file:
  assumes "broker_name_re n"
  shows "plain (n @ ''.yaml'')"
proof -
  have "n @ ''.yaml'' \<noteq> ''..''" "n @ ''.yaml'' \<noteq> ''.''" by (auto dest: arg_cong [of _ _ length])
  with name_chars [OF assms] show ?thesis by (simp add: plain_def)
qed

definition broker_file :: "broker_store \<Rightarrow> string \<Rightarrow> path" where
  "broker_file b n = brokers_dir b @ ''/'' @ n @ ''.yaml''"

lemma broker_path_text:
  assumes "cfg_dir b \<noteq> []" and "broker_name_re n"
  shows "broker_path b n = broker_file b n"
proof -
  have p: "plain ''brokers''" by (simp add: plain_def)
  let ?r = "prefix ''/'' (cfg_dir b)" and ?cs = "clean_parts (prefix ''/'' (cfg_dir b)) (split_on (CHR ''/'') (cfg_dir b))"
  have d: "brokers_dir b = path_text ?r (?cs @ [''brokers''])"
    using path_join_name [OF assms(1) p] by (simp add: brokers_dir_def)
  have "clean ?r (?cs @ [''brokers''])" by (rule clean_snoc [OF clean_parts_clean p])
  from path_join_text [OF this _ plain_file [OF assms(2)]] d
  show ?thesis by (simp add: broker_path_def broker_file_def)
qed

lemma broker_file_inj: "broker_file b n = broker_file b n' \<longleftrightarrow> n = n'"
  by (simp add: broker_file_def)

lemma file_not_tmp: "broker_file b n \<noteq> broker_file b n' @ ''.tmp''"
proof
  assume "broker_file b n = broker_file b n' @ ''.tmp''"
  then have "last (broker_file b n) = last (broker_file b n' @ ''.tmp'')" by simp
  then show False by (simp add: broker_file_def)
qed

definition broker_files :: "broker_store \<Rightarrow> path set" where
  "broker_files b = {p. \<exists>n. broker_name_re n \<and> (p = broker_file b n \<or> p = broker_file b n @ ''.tmp'')}"

lemma in_broker_files:
  "broker_name_re n \<Longrightarrow> broker_file b n \<in> broker_files b"
  "broker_name_re n \<Longrightarrow> broker_file b n @ ''.tmp'' \<in> broker_files b"
  by (auto simp: broker_files_def)

lemma schema_path_apart:
  assumes "cfg_dir b \<noteq> []"
  shows "schema_path b \<notin> broker_files b"
proof -
  have "last (schema_path b) = CHR ''n''"
  proof -
    let ?s = "cfg_dir b @ ''/schemas''"
    have p: "plain ''bundle.schema.json''" by (simp add: plain_def)
    have "path_join [?s, ''bundle.schema.json''] = schema_path b"
      using assms by (simp add: schema_path_def path_join_def)
    moreover have "last (path_join [?s, ''bundle.schema.json'']) = CHR ''n''"
      using last_path_join [of ?s, OF _ p] by simp
    ultimately show ?thesis by simp
  qed
  then show ?thesis by (auto simp: broker_files_def broker_file_def)
qed

section \<open>Persisting\<close>

text \<open>
  A failed \<open>persist\<close> keeps every property that does not look at the temporary file; a successful one does so
  up to the rename of the complete document.
\<close>

definition quiet :: "path \<Rightarrow> world \<Rightarrow> world \<Rightarrow> bool" where
  "quiet t w w' = (\<forall>P. ignores t P \<longrightarrow> P (files w) \<longrightarrow> stays P w w')"

lemma quiet_refl: "quiet t w w"
  by (simp add: quiet_def stays_refl)

lemma quiet_trans: "quiet t w w1 \<Longrightarrow> quiet t w1 w2 \<Longrightarrow> quiet t w w2"
  unfolding quiet_def by (blast intro: stays_trans dest: stays_end)

lemma quiet_steps:
  "os_create t w = (x1, w') \<Longrightarrow> quiet t w w'"
  "file_write t d w = (x1, w') \<Longrightarrow> quiet t w w'"
  "file_close w = (x1, w') \<Longrightarrow> quiet t w w'"
  "quiet t w (snd (file_close w))"
  "quiet t w (cleanup t w)"
  "os_rename s q w = (Inl e, w') \<Longrightarrow> quiet t w w'"
  by (auto simp: quiet_def intro: stays_create stays_write stays_reads stays_close_snd stays_cleanup stays_rename_err)

lemma persist_failed:
  assumes "persist S n obj b w = (Inl e, w')"
  shows "quiet (persist_tmp b n) w w'"
proof -
  let ?t = "persist_tmp b n"
  have 1: "quiet ?t x (cleanup ?t (snd (file_close x)))" for x
    by (rule quiet_trans [OF quiet_steps(4,5)])
  note q = quiet_steps(1,2,3,5,6) [where t = ?t] 1
  show ?thesis
    using assms unfolding persist_def Let_def
    by (auto split: prod.splits sum.splits option.splits) (meson q quiet_trans)+
qed

lemma persist_stored:
  assumes "persist S n obj b w = (Inr u, w')"
  obtains d rest w4 where "se_encode S obj = Some (d, rest)" "quiet (persist_tmp b n) w w4"
    "content_of w4 (persist_tmp b n) = Some (d @ rest)"
    "os_rename (persist_tmp b n) (broker_path b n) w4 = (Inr (), w')"
proof -
  let ?t = "persist_tmp b n"
  from assms obtain d rest w1 w2 w3 w4 where enc: "se_encode S obj = Some (d, rest)"
    and 1: "os_create ?t w = (Inr (), w1)" and 2: "file_write ?t d w1 = (Inr (), w2)"
    and 3: "file_write ?t rest w2 = (Inr (), w3)" and 4: "file_close w3 = (Inr (), w4)"
    and 5: "os_rename ?t (broker_path b n) w4 = (Inr (), w')"
    by (auto simp: persist_def Let_def split: prod.splits sum.splits option.splits)
  have "quiet ?t w w4" using 1 2 3 4 by (blast intro: quiet_steps quiet_trans)
  moreover have "content_of w4 ?t = Some (d @ rest)"
    using os_create_ok [OF 1 [unfolded os_create_def]] file_write_ok [OF 2] file_write_ok [OF 3] reads_frame(3) [OF 4]
    by (simp add: content_of_def)
  ultimately show thesis using that enc 5 by blast
qed

lemma quiet_touches: "quiet t w w' \<Longrightarrow> only_touches {t} w w'"
proof -
  assume q: "quiet t w w'"
  let ?P = "\<lambda>m. \<forall>p. p \<noteq> t \<longrightarrow> m p = files w p"
  have "ignores t ?P" by (simp add: ignores_def)
  with q have "stays ?P w w'" by (simp add: quiet_def)
  from stays_end [OF this] show ?thesis by (simp add: only_touches_def)
qed

lemma persist_touches:
  assumes "persist S n obj b w = (r, w')"
  shows "only_touches {broker_path b n, persist_tmp b n} w w'"
proof (cases r)
  case (Inl e)
  with assms have "quiet (persist_tmp b n) w w'" using persist_failed by blast
  from quiet_touches [OF this] show ?thesis by (rule only_touches_mono) auto
next
  case (Inr u)
  with assms have "persist S n obj b w = (Inr u, w')" by simp
  then show ?thesis
  proof (rule persist_stored)
    fix d rest w4
    assume q: "quiet (persist_tmp b n) w w4"
      and rn: "os_rename (persist_tmp b n) (broker_path b n) w4 = (Inr (), w')"
    from quiet_touches [OF q] os_rename_ok [OF rn] show ?thesis by (auto simp: only_touches_def)
  qed
qed

section \<open>Broker files stay sound\<close>

text \<open>
  The schema the store uses or would load; a sound file is the whole encoding of an object of that name
  that passes it.
\<close>

definition schema_of :: "store_env \<Rightarrow> broker_store \<Rightarrow> world \<Rightarrow> (object \<Rightarrow> string option) option" where
  "schema_of S b w =
     (case schema b of
        Some sch \<Rightarrow> Some sch
      | None \<Rightarrow> (case content_of w (schema_path b) of
          None \<Rightarrow> None
        | Some doc \<Rightarrow> (case se_compile S doc of Inl e \<Rightarrow> None | Inr sch \<Rightarrow> Some sch)))"

definition sound_file :: "store_env \<Rightarrow> (object \<Rightarrow> string option) \<Rightarrow> string \<Rightarrow> fentry \<Rightarrow> bool" where
  "sound_file S sch n fl =
     (\<exists>obj d rest. se_encode S obj = Some (d, rest) \<and> content fl = d @ rest
        \<and> str_member obj ''id'' = n \<and> sch obj = None)"

definition all_sound :: "store_env \<Rightarrow> (object \<Rightarrow> string option) \<Rightarrow> broker_store \<Rightarrow> files \<Rightarrow> bool" where
  "all_sound S sch b m = (\<forall>n fl. broker_name_re n \<longrightarrow> m (broker_file b n) = Some fl \<longrightarrow> sound_file S sch n fl)"

lemma all_sound_ignores: "ignores (broker_file b n @ ''.tmp'') (all_sound S sch b)"
  by (simp add: ignores_def all_sound_def file_not_tmp)

lemma all_sound_store:
  assumes "all_sound S sch b m" and "m t = Some fl" and "sound_file S sch n fl" and "t = broker_file b n @ ''.tmp''"
  shows "all_sound S sch b (m(t := None, broker_file b n \<mapsto> fl))"
  using assms by (simp add: all_sound_def file_not_tmp broker_file_inj)

lemma all_sound_delete: "all_sound S sch b m \<Longrightarrow> all_sound S sch b (m(broker_file b n := None))"
  by (simp add: all_sound_def broker_file_inj)

lemma same_dir:
  assumes "cfg_dir b' = cfg_dir b"
  shows "broker_file b' = broker_file b" "broker_files b' = broker_files b" "schema_path b' = schema_path b"
    "all_sound S sch b' = all_sound S sch b" "broker_path b' = broker_path b"
  using assms by (simp_all add: broker_file_def brokers_dir_def broker_files_def schema_path_def all_sound_def
      broker_path_def fun_eq_iff)

text \<open>What a step keeps, and that steps compose.\<close>

definition keeps_store :: "store_env \<Rightarrow> broker_store \<Rightarrow> world \<Rightarrow> broker_store \<Rightarrow> world \<Rightarrow> bool" where
  "keeps_store S b w b' w' =
     (cfg_dir b' = cfg_dir b \<and> only_touches (broker_files b) w w' \<and> schema_of S b' w' = schema_of S b w
      \<and> (\<forall>sch. schema_of S b w = Some sch \<longrightarrow> all_sound S sch b (files w) \<longrightarrow> stays (all_sound S sch b) w w'))"

lemma keeps_store_trans:
  assumes "keeps_store S b w b1 w1" and "keeps_store S b1 w1 b2 w2"
  shows "keeps_store S b w b2 w2"
proof -
  have d: "cfg_dir b1 = cfg_dir b" using assms(1) by (simp add: keeps_store_def)
  note same = same_dir [OF d]
  from assms same show ?thesis
    by (auto simp: keeps_store_def only_touches_def dest: stays_end intro: stays_trans)
qed

lemma schema_kept:
  assumes "cfg_dir b \<noteq> []" and "only_touches (broker_files b) w w'"
  shows "schema_of S b w' = schema_of S b w"
  using assms schema_path_apart [OF assms(1)]
  by (cases "schema b") (simp_all add: schema_of_def only_touches_def content_of_def)

lemma keeps_reads:
  assumes "cfg_dir b \<noteq> []" and "\<And>P. stays P w w'" and "files w' = files w"
  shows "keeps_store S b w b w'"
  using assms schema_kept [OF assms(1), of w w'] by (simp add: keeps_store_def only_touches_files)

lemma keeps_refl: "keeps_store S b w b w"
  by (simp add: keeps_store_def stays_refl)

lemma keeps_stat: "cfg_dir b \<noteq> [] \<Longrightarrow> os_stat p w = (r, w') \<Longrightarrow> keeps_store S b w b w'"
  by (rule keeps_reads) (auto intro: stays_reads simp: reads_frame)

lemma read_broker_frame: "read_broker S n b w = (r, w') \<Longrightarrow> stays P w w' \<and> files w' = files w"
  by (auto simp: read_broker_def intro: stays_reads dest: reads_frame split: prod.splits sum.splits)

lemma list_loop_frame: "list_loop S es b w = (items, w') \<Longrightarrow> stays P w w' \<and> files w' = files w"
proof (induction es arbitrary: w items)
  case (Cons e es)
  obtain n is_dir where e: "e = (n, is_dir)" by (cases e)
  show ?case
  proof (cases "\<not> is_dir \<and> yaml_name n \<noteq> None")
    case True
    then obtain name where n: "\<not> is_dir" "yaml_name n = Some name" by auto
    obtain x w1 where r: "read_broker S name b w = (x, w1)" by fastforce
    from Cons.prems e n r obtain items' where "list_loop S es b w1 = (items', w')"
      by (auto split: sum.splits prod.splits)
    from Cons.IH [OF this] read_broker_frame [OF r, of P] show ?thesis by (auto intro: stays_trans)
  next
    case False
    with Cons.prems e have "list_loop S es b w = (items, w')"
      by (cases is_dir; cases "yaml_name n") auto
    then show ?thesis by (rule Cons.IH)
  qed
qed (simp add: stays_refl)

lemma load_schema_keeps:
  assumes "cfg_dir b \<noteq> []" and "load_schema S b w = (r, b', w')"
  shows "keeps_store S b w b' w'" and "r = Inr sch \<Longrightarrow> schema_of S b w = Some sch"
proof -
  have "keeps_store S b w b' w' \<and> (r = Inr sch \<longrightarrow> schema_of S b w = Some sch)"
  proof (cases "schema b")
    case (Some s)
    with assms keeps_refl show ?thesis by (auto simp: load_schema_def schema_of_def)
  next
    case None
    obtain x w1 where rd: "os_read_file (schema_path b) w = (x, w1)" by fastforce
    have k: "keeps_store S b w b w1"
      by (rule keeps_reads [OF assms(1)]) (use rd in \<open>auto intro: stays_reads dest: reads_frame\<close>)
    show ?thesis
    proof (cases x)
      case (Inl e)
      with assms None rd k show ?thesis by (auto simp: load_schema_def)
    next
      case (Inr doc)
      with rd have c: "content_of w (schema_path b) = Some doc" by (auto dest: os_read_file_ok)
      with k assms None rd Inr show ?thesis
        by (auto simp: load_schema_def schema_of_def keeps_store_def split: sum.splits)
    qed
  qed
  then show "keeps_store S b w b' w'" "r = Inr sch \<Longrightarrow> schema_of S b w = Some sch" by simp_all
qed

lemma validate_keeps:
  assumes "cfg_dir b \<noteq> []" and "validate_obj S obj b w = (r, b', w')"
  shows "keeps_store S b w b' w'" and "r = Inr u \<Longrightarrow> schema_of S b w = Some sch \<Longrightarrow> sch obj = None"
proof -
  obtain x b1 w1 where l: "load_schema S b w = (x, b1, w1)" by (cases "load_schema S b w") auto
  from assms(2) l have e: "b' = b1" "w' = w1" by (auto simp: validate_obj_def split: sum.splits option.splits)
  with load_schema_keeps(1) [OF assms(1) l] show "keeps_store S b w b' w'" by simp
  assume "r = Inr u" and "schema_of S b w = Some sch"
  with assms(2) l load_schema_keeps(2) [OF assms(1) l] show "sch obj = None"
    by (auto simp: validate_obj_def split: sum.splits option.splits)
qed

lemma persist_tmp_text:
  "cfg_dir b \<noteq> [] \<Longrightarrow> broker_name_re n \<Longrightarrow> persist_tmp b n = broker_file b n @ ''.tmp''"
  by (simp add: persist_tmp_def broker_path_text)

lemma persist_sound:
  assumes d: "cfg_dir b \<noteq> []" and n: "broker_name_re n" "str_member obj ''id'' = n"
    and v: "sch obj = None" and m: "all_sound S sch b (files w)" and run: "persist S n obj b w = (r, w')"
  shows "stays (all_sound S sch b) w w'"
proof (cases r)
  case (Inl e)
  with run have "quiet (persist_tmp b n) w w'" using persist_failed by blast
  with m all_sound_ignores show ?thesis by (simp add: quiet_def persist_tmp_text [OF d n(1)])
next
  case (Inr u)
  with run have "persist S n obj b w = (Inr u, w')" by simp
  then show ?thesis
  proof (rule persist_stored)
    let ?t = "broker_file b n @ ''.tmp''"
    fix enc rest w4
    assume e: "se_encode S obj = Some (enc, rest)" and q: "quiet (persist_tmp b n) w w4"
      and c: "content_of w4 (persist_tmp b n) = Some (enc @ rest)"
      and rn: "os_rename (persist_tmp b n) (broker_path b n) w4 = (Inr (), w')"
    note t = persist_tmp_text [OF d n(1)] broker_path_text [OF d n(1)]
    from q m all_sound_ignores have s: "stays (all_sound S sch b) w w4" by (simp add: quiet_def t)
    from os_rename_ok [OF rn] obtain fl where fl: "files w4 ?t = Some fl"
      and f': "files w' = (files w4)(?t := None, broker_file b n \<mapsto> fl)" by (auto simp: t)
    have "sound_file S sch n fl" using e c fl n(2) v by (auto simp: sound_file_def content_of_def t)
    from all_sound_store [OF stays_end [OF s m] fl this refl] have "all_sound S sch b (files w')" by (simp add: f')
    with rn have "stays (all_sound S sch b) w4 w'" by (rule stays_rename)
    with s show ?thesis by (rule stays_trans)
  qed
qed

lemma store_obj_keeps:
  assumes d: "cfg_dir b \<noteq> []" and n: "broker_name_re n" "str_member obj ''id'' = n"
    and run: "store_obj S k n obj b w = (r, b', w')"
  shows "keeps_store S b w b' w'"
proof -
  obtain x b1 w1 where v: "validate_obj S obj b w = (x, b1, w1)" by (cases "validate_obj S obj b w") auto
  note k1 = validate_keeps(1) [OF d v]
  show ?thesis
  proof (cases x)
    case (Inl e)
    with run v k1 show ?thesis by (simp add: store_obj_def)
  next
    case (Inr u)
    with run v obtain y where p: "persist S n obj b1 w1 = (y, w')" and b': "b' = b1"
      by (auto simp: store_obj_def split: prod.splits sum.splits)
    have d1: "cfg_dir b1 = cfg_dir b" using k1 by (simp add: keeps_store_def)
    with d have d': "cfg_dir b1 \<noteq> []" by simp
    have t: "only_touches (broker_files b1) w1 w'"
      by (rule only_touches_mono [OF persist_touches [OF p]])
        (simp add: persist_tmp_text [OF d' n(1)] broker_path_text [OF d' n(1)] in_broker_files [OF n(1)])
    have "keeps_store S b1 w1 b1 w'"
      unfolding keeps_store_def
    proof (intro conjI allI impI)
      fix sch
      assume sch: "schema_of S b1 w1 = Some sch" and m: "all_sound S sch b1 (files w1)"
      from sch k1 have "schema_of S b w = Some sch" by (simp add: keeps_store_def)
      then have "sch obj = None" by (rule validate_keeps(2) [OF d v Inr])
      from persist_sound [OF d' n this m p] show "stays (all_sound S sch b1) w1 w'" .
    qed (use t schema_kept [OF d' t] in simp_all)
    with k1 show ?thesis unfolding b' by (rule keeps_store_trans)
  qed
qed

lemma write_keeps:
  assumes "cfg_dir b \<noteq> []" and "broker_name_re n" and "brokers_write S n body b w = (r, b', w')"
  shows "keeps_store S b w b' w'"
  using assms store_obj_keeps [OF assms(1,2)]
  by (auto simp: brokers_write_def keeps_refl split: sum.splits if_splits)

lemma put_keeps:
  assumes "cfg_dir b \<noteq> []" and "brokers_put S n body b w = (r, b', w')"
  shows "keeps_store S b w b' w'"
proof (cases "broker_name_re n")
  case True
  obtain x w1 where s: "os_stat (broker_path b n) w = (x, w1)" by fastforce
  note k = keeps_stat [OF assms(1) s, of S]
  show ?thesis
  proof (cases x)
    case (Inl e)
    with assms(2) s True k show ?thesis by (simp add: brokers_put_def)
  next
    case (Inr u)
    with assms(2) s True have "brokers_write S n body b w1 = (r, b', w')" by (simp add: brokers_put_def)
    with k write_keeps [OF assms(1) True] show ?thesis by (blast intro: keeps_store_trans)
  qed
qed (use assms(2) in \<open>simp add: brokers_put_def keeps_refl\<close>)

lemma create_keeps:
  assumes "cfg_dir b \<noteq> []" and "brokers_create S body b w = (r, b', w')"
  shows "keeps_store S b w b' w'"
proof (cases "decode_json S body")
  case (Inr obj)
  let ?i = "str_member obj ''id''"
  show ?thesis
  proof (cases "broker_name_re ?i")
    case True
    obtain x w1 where s: "os_stat (broker_path b ?i) w = (x, w1)" by fastforce
    note k = keeps_stat [OF assms(1) s, of S]
    show ?thesis
    proof (cases x)
      case (Inl e)
      with assms(2) s True Inr have "store_obj S 201 ?i obj b w1 = (r, b', w')" by (simp add: brokers_create_def Let_def)
      with k store_obj_keeps [OF assms(1) True refl] show ?thesis by (blast intro: keeps_store_trans)
    qed (use assms(2) s True Inr k in \<open>simp add: brokers_create_def Let_def\<close>)
  qed (use assms(2) Inr in \<open>simp add: brokers_create_def Let_def keeps_refl\<close>)
qed (use assms(2) in \<open>simp add: brokers_create_def keeps_refl\<close>)

lemma delete_keeps:
  assumes "cfg_dir b \<noteq> []" and "brokers_delete S n b w = (r, b', w')"
  shows "keeps_store S b w b' w'"
proof (cases "broker_name_re n")
  case True
  note p = broker_path_text [OF assms(1) True]
  obtain x where rm: "os_remove (broker_file b n) w = (x, w')" and b': "b' = b"
    using assms(2) True p by (auto simp: brokers_delete_def split: prod.splits sum.splits os_err.splits)
  have t: "only_touches (broker_files b) w w'"
    using os_remove_frame [OF rm] in_broker_files(1) [OF True, of b] by (metis only_touches_def)
  with schema_kept [OF assms(1) t] stays_remove [OF rm] all_sound_delete show ?thesis
    by (simp add: keeps_store_def b')
qed (use assms(2) in \<open>simp add: brokers_delete_def keeps_refl\<close>)

lemma serve_keeps:
  assumes d: "cfg_dir b \<noteq> []" and run: "store_serve S q b w = (r, b', w')"
  shows "keeps_store S b w b' w'"
proof (cases q)
  case ListBrokers
  have "b' = b" and "\<And>P. stays P w w' \<and> files w' = files w"
    using run ListBrokers list_loop_frame [of S _ b w]
    by (auto simp: store_serve_def brokers_list_def stays_refl split: sum.splits prod.splits)
  with keeps_reads [OF d, of w w'] show ?thesis by simp
next
  case (GetBroker n)
  have "b' = b" and "\<And>P. stays P w w' \<and> files w' = files w"
    using run GetBroker read_broker_frame [of S n b w]
    by (auto simp: store_serve_def brokers_get_def stays_refl
        split: sum.splits prod.splits if_splits read_err.splits os_err.splits)
  with keeps_reads [OF d, of w w'] show ?thesis by simp
qed (use run put_keeps [OF d] create_keeps [OF d] delete_keeps [OF d] in \<open>simp_all add: store_serve_def\<close>)

lemma run_keeps: "cfg_dir b \<noteq> [] \<Longrightarrow> store_run S qs b w = (rs, b', w') \<Longrightarrow> keeps_store S b w b' w'"
proof (induction qs arbitrary: b w rs)
  case (Cons q qs)
  obtain r b1 w1 where 1: "store_serve S q b w = (r, b1, w1)" by (cases "store_serve S q b w") auto
  with Cons.prems obtain rs' where 2: "store_run S qs b1 w1 = (rs', b', w')" by (auto split: prod.splits)
  from serve_keeps [OF Cons.prems(1) 1] have k: "keeps_store S b w b1 w1" .
  with Cons.prems(1) have "cfg_dir b1 \<noteq> []" by (simp add: keeps_store_def)
  from keeps_store_trans [OF k Cons.IH [OF this 2]] show ?case .
qed (simp add: keeps_refl)

text \<open>
  C21: Whatever requests the broker store serves, and whichever system calls fail, no file changes but
  \<open><dir>/brokers/<name>.yaml\<close> and its \<open>.tmp\<close> for names of the broker pattern: no name or id in a request
  reaches a file outside the directory, and the schema the store validates against stays the same.
\<close>

theorem store_confined:
  assumes "cfg_dir b \<noteq> []" and "store_run S qs b w = (rs, b', w')"
  shows "(files w' p \<noteq> files w p \<longrightarrow> (\<exists>n. broker_name_re n
            \<and> (p = brokers_dir b @ ''/'' @ n @ ''.yaml'' \<or> p = brokers_dir b @ ''/'' @ n @ ''.yaml.tmp'')))
       \<and> schema_of S b' w' = schema_of S b w"
  using run_keeps [OF assms] by (auto simp: keeps_store_def only_touches_def broker_files_def broker_file_def)

text \<open>
  C12: Every broker file is, at every instant of any run of requests and whichever system calls fail, the
  complete encoding of an object that passes the schema and carries the name of the file as its id: no
  request leaves a partial or an invalid document, and a failed one keeps the old file.
\<close>

theorem store_files_sound:
  assumes "cfg_dir b \<noteq> []" and "schema_of S b w = Some sch" and "all_sound S sch b (files w)"
    and "store_run S qs b w = (rs, b', w')"
  shows "stays (all_sound S sch b) w w' \<and> all_sound S sch b (files w')"
proof -
  from run_keeps [OF assms(1,4)] assms(2,3) have "stays (all_sound S sch b) w w'" by (simp add: keeps_store_def)
  with assms(3) show ?thesis by (blast dest: stays_end)
qed

section \<open>Reading back\<close>

lemma persist_healthy:
  assumes h: "healthy w" and enc: "se_encode S obj = Some (d, rest)" and ne: "persist_tmp b n \<noteq> broker_path b n"
  shows "\<exists>fl w'. persist S n obj b w = (Inr (), w') \<and> healthy w' \<and> content fl = d @ rest
     \<and> files w' = (files w)(persist_tmp b n := None, broker_path b n \<mapsto> fl)"
proof -
  let ?t = "persist_tmp b n"
  obtain fl w1 where 1: "os_create ?t w = (Inr (), w1)" "healthy w1" "content fl = []" "files w1 = (files w)(?t \<mapsto> fl)"
    using os_create_healthy [OF h] by blast
  obtain w2 where 2: "file_write ?t d w1 = (Inr (), w2)" "healthy w2"
      "files w2 = (files w)(?t \<mapsto> fl\<lparr>content := d\<rparr>)"
    using file_write_healthy [OF 1(2), of ?t fl d] 1 by auto
  obtain w3 where 3: "file_write ?t rest w2 = (Inr (), w3)" "healthy w3"
      "files w3 = (files w)(?t \<mapsto> fl\<lparr>content := d @ rest\<rparr>)"
    using file_write_healthy [OF 2(2), of ?t "fl\<lparr>content := d\<rparr>" rest] 2 by auto
  obtain w4 where 4: "file_close w3 = (Inr (), w4)" "healthy w4" "files w4 = files w3"
    using file_close_healthy [OF 3(2)] by blast
  obtain w5 where 5: "os_rename ?t (broker_path b n) w4 = (Inr (), w5)" "healthy w5"
      "files w5 = (files w)(?t := None, broker_path b n \<mapsto> fl\<lparr>content := d @ rest\<rparr>)"
    using os_rename_healthy [OF 4(2), of ?t "fl\<lparr>content := d @ rest\<rparr>" "broker_path b n"] 3 4 by auto
  from 1(1) 2(1) 3(1) 4(1) 5 enc show ?thesis
    by (intro exI [of _ "fl\<lparr>content := d @ rest\<rparr>"] exI [of _ w5]) (simp add: persist_def Let_def)
qed

lemma load_schema_healthy:
  assumes "healthy w" and "schema_of S b w = Some sch"
  shows "\<exists>b' w'. load_schema S b w = (Inr sch, b', w') \<and> cfg_dir b' = cfg_dir b \<and> healthy w' \<and> files w' = files w"
proof (cases "schema b")
  case None
  with assms(2) obtain doc where doc: "content_of w (schema_path b) = Some doc" "se_compile S doc = Inr sch"
    by (auto simp: schema_of_def split: option.splits sum.splits)
  from os_read_file_healthy [OF assms(1) doc(1)] obtain w' where
    "os_read_file (schema_path b) w = (Inr doc, w')" "healthy w'" "files w' = files w" by blast
  with None doc(2) show ?thesis by (simp add: load_schema_def)
qed (use assms in \<open>simp add: load_schema_def schema_of_def\<close>)

lemma store_obj_healthy:
  assumes "cfg_dir b \<noteq> []" and "healthy w" and "schema_of S b w = Some sch" and "sch obj = None"
    and "se_encode S obj = Some (d, rest)" and "broker_name_re n"
  shows "\<exists>fl b' w'. store_obj S k n obj b w = (ui_json k (obj_json obj), b', w') \<and> cfg_dir b' = cfg_dir b
     \<and> healthy w' \<and> content fl = d @ rest
     \<and> files w' = (files w)(broker_file b n @ ''.tmp'' := None, broker_file b n \<mapsto> fl)"
proof -
  obtain b1 w1 where 1: "load_schema S b w = (Inr sch, b1, w1)" "cfg_dir b1 = cfg_dir b" "healthy w1" "files w1 = files w"
    using load_schema_healthy [OF assms(2,3)] by blast
  with assms(1) have d1: "cfg_dir b1 \<noteq> []" by simp
  note t = persist_tmp_text [OF d1 assms(6)] broker_path_text [OF d1 assms(6)] same_dir(1) [OF 1(2)]
  have ne: "persist_tmp b1 n \<noteq> broker_path b1 n" by (simp add: t file_not_tmp [symmetric])
  obtain fl w2 where "persist S n obj b1 w1 = (Inr (), w2)" "healthy w2" "content fl = d @ rest"
      "files w2 = (files w)(broker_file b n @ ''.tmp'' := None, broker_file b n \<mapsto> fl)"
    using persist_healthy [OF 1(3) assms(5) ne] by (auto simp: t 1(4))
  with 1(1,2) assms(4) show ?thesis by (auto simp: store_obj_def validate_obj_def)
qed

lemma get_stored:
  assumes "cfg_dir b \<noteq> []" and "healthy w" and "broker_name_re n" and "content_of w (broker_file b n) = Some c"
    and "se_decode_yaml S c = Inr y" and "normalize_yaml (se_sprint S) y = VMap obj"
  shows "\<exists>w'. brokers_get S n b w = (ui_json 200 (obj_json obj), b, w') \<and> healthy w' \<and> files w' = files w"
  using os_read_file_healthy [OF assms(2,4)] assms(3,5,6)
  by (auto simp: brokers_get_def read_broker_def broker_path_text [OF assms(1,3)])

lemma get_missing:
  assumes "cfg_dir b \<noteq> []" and "healthy w" and "broker_name_re n" and "files w (broker_file b n) = None"
  shows "\<exists>w'. brokers_get S n b w = (ui_err 404 ''broker not found'', b, w')"
  using os_read_file_missing [OF assms(2,4)] assms(3)
  by (auto simp: brokers_get_def read_broker_def broker_path_text [OF assms(1,3)])

text \<open>
  C24: Creating a broker whose id is free and that passes the schema, with no failing call, answers 201 with
  the object; reading it back answers the same JSON, as far as the YAML codec gives back what was encoded;
  creating it again is refused with 409 and changes nothing; it can be deleted, and is then not found.
\<close>

theorem created_is_served:
  assumes dir: "cfg_dir b \<noteq> []" and h: "healthy w"
    and dec: "decode_json S body = Inr obj" and id_obj: "str_member obj ''id'' = n" and n: "broker_name_re n"
    and free: "files w (broker_file b n) = None"
    and sch: "schema_of S b w = Some sch" "sch obj = None"
    and enc: "se_encode S obj = Some (d, rest)" and yaml: "se_decode_yaml S (d @ rest) = Inr y"
    and again: "normalize_yaml (se_sprint S) y = VMap obj'" "obj_json obj' = obj_json obj"
  shows "fst (store_run S [CreateBroker body, GetBroker n, CreateBroker body, DeleteBroker n, GetBroker n] b w)
     = [ui_json 201 (obj_json obj), ui_json 200 (obj_json obj),
        ui_err 409 (''broker '' @ go_quote n @ '' already exists''),
        snd (write_header 204 new_response), ui_err 404 ''broker not found'']"
proof -
  note p = broker_path_text [OF _ n]
  obtain w0 where 0: "os_stat (broker_file b n) w = (Inl NotExist, w0)" "healthy w0" "files w0 = files w"
    using os_stat_healthy [OF h, of "broker_file b n"] free by auto
  have sch0: "schema_of S b w0 = Some sch"
    using sch(1) 0(3) schema_kept [OF dir only_touches_files [OF 0(3)]] by simp
  obtain fl b1 w1 where 1: "store_obj S 201 n obj b w0 = (ui_json 201 (obj_json obj), b1, w1)" "cfg_dir b1 = cfg_dir b"
      "healthy w1" "content fl = d @ rest" and f1: "files w1 (broker_file b n) = Some fl"
    using store_obj_healthy [OF dir 0(2) sch0 sch(2) enc n, of 201] by auto
  have c1: "brokers_create S body b w = (ui_json 201 (obj_json obj), b1, w1)"
    using dec id_obj n 0(1) 1(1) by (simp add: brokers_create_def Let_def p [OF dir])
  from 1(2) dir have d1: "cfg_dir b1 \<noteq> []" by simp
  note same = same_dir(1) [OF 1(2)]
  have "content_of w1 (broker_file b1 n) = Some (d @ rest)" using f1 1(4) by (simp add: same content_of_def)
  from get_stored [OF d1 1(3) n this yaml again(1)] again(2) obtain w2 where
    2: "brokers_get S n b1 w1 = (ui_json 200 (obj_json obj), b1, w2)" "healthy w2" "files w2 = files w1" by auto
  obtain w3 where "os_stat (broker_file b1 n) w2 = (Inr (), w3)" and 3: "healthy w3" "files w3 = files w1"
    using os_stat_healthy [OF 2(2), of "broker_file b1 n"] 2(3) f1 by (auto simp: same)
  then have c3: "brokers_create S body b1 w2 = (ui_err 409 (''broker '' @ go_quote n @ '' already exists''), b1, w3)"
    using dec id_obj n by (simp add: brokers_create_def Let_def p [OF d1])
  obtain w4 where "os_remove (broker_file b1 n) w3 = (Inr (), w4)" and 4: "healthy w4" "files w4 (broker_file b1 n) = None"
    using os_remove_healthy [OF 3(1), of "broker_file b1 n" fl] 3(2) f1 by (auto simp: same)
  then have c4: "brokers_delete S n b1 w3 = (snd (write_header 204 new_response), b1, w4)"
    using n by (simp add: brokers_delete_def p [OF d1])
  obtain w5 where "brokers_get S n b1 w4 = (ui_err 404 ''broker not found'', b1, w5)"
    using get_missing [OF d1 4(1) n 4(2)] by blast
  with c1 2(1) c3 c4 show ?thesis by (simp add: store_serve_def)
qed

section \<open>Examples\<close>

text \<open>A codec that knows two documents, a schema that wants a display name, and a store with one broker.\<close>

definition ex_obj :: "string \<Rightarrow> object" where
  "ex_obj n = [(''id'', VStr n), (''display_name'', VStr ''Broker''), (''enabled'', VBool True)]"

definition ex_store_env :: "(string \<times> bytes) list \<Rightarrow> store_env" where
  "ex_store_env texts = \<lparr>
     se_compile = (\<lambda>doc. Inr (\<lambda>obj. if str_member obj ''display_name'' = [] then Some ''display_name missing'' else None)),
     se_encode = (\<lambda>obj. map_option (\<lambda>t. (t, ''...'')) (map_of texts (str_member obj ''id''))),
     se_decode_yaml = (\<lambda>c. case find (\<lambda>(n, t). t @ ''...'' = c) texts of
        None \<Rightarrow> Inl ''yaml'' | Some (n, t) \<Rightarrow> Inr (VMap (rev (ex_obj n)))),
     se_decode_json = (\<lambda>body. Inr (ex_obj body)),
     se_parse_float = (\<lambda>s. None), se_sprint = (\<lambda>v. []), se_readdir = (\<lambda>w d. Inr [(''ab.yaml'', False)]),
     se_err_text = (\<lambda>e. case e of NotExist \<Rightarrow> ''not found'' | Failure \<Rightarrow> ''failure'')\<rparr>"

definition ex_texts :: "(string \<times> bytes) list" where
  "ex_texts = [(''ab'', ''id: ab''), (''cd'', ''id: cd'')]"

definition ex_store :: broker_store where "ex_store = new_broker_store ''/c''"

definition ex_store_world :: "bool list \<Rightarrow> world" where
  "ex_store_world fs = \<lparr>files = [''/c/schemas/bundle.schema.json'' \<mapsto> \<lparr>content = ''{}'', mode = 420\<rparr>,
     ''/c/brokers/ab.yaml'' \<mapsto> \<lparr>content = ''id: ab...'', mode = 420\<rparr>], faults = fs, tmp_seq = 0, history = []\<rparr>"

definition ex_store_schema :: "object \<Rightarrow> string option" where
  "ex_store_schema obj = (if str_member obj ''display_name'' = [] then Some ''display_name missing'' else None)"

lemma ex_schema_path: "schema_path ex_store = ''/c/schemas/bundle.schema.json''" by code_simp

lemma ex_schema_of: "schema_of (ex_store_env ts) ex_store (ex_store_world fs) = Some ex_store_schema"
proof -
  have "schema ex_store = None" by (simp add: ex_store_def new_broker_store_def)
  then show ?thesis
    by (simp add: schema_of_def content_of_def ex_schema_path ex_store_world_def ex_store_env_def ex_store_schema_def fun_eq_iff)
qed

lemma ex_file: "broker_file ex_store ''ab'' = ''/c/brokers/ab.yaml''" by code_simp

lemma ex_all_sound: "all_sound (ex_store_env ex_texts) ex_store_schema ex_store (files (ex_store_world fs))"
  unfolding all_sound_def
proof (intro allI impI)
  fix n fl
  assume "broker_name_re n" and fl: "files (ex_store_world fs) (broker_file ex_store n) = Some fl"
  have "broker_file ex_store n \<noteq> ''/c/schemas/bundle.schema.json''"
    using schema_path_apart [of ex_store] in_broker_files(1) [OF \<open>broker_name_re n\<close>, of ex_store]
    by (auto simp: ex_schema_path) (simp add: ex_store_def new_broker_store_def)
  with fl have "broker_file ex_store n = ''/c/brokers/ab.yaml''" and c: "content fl = ''id: ab...''"
    by (auto simp: ex_store_world_def split: if_splits)
  then have "n = ''ab''" using ex_file broker_file_inj [of ex_store n "''ab''"] by simp
  with c show "sound_file (ex_store_env ex_texts) ex_store_schema n fl"
    unfolding sound_file_def
    by (intro exI [of _ "ex_obj ''ab''"] exI [of _ "''id: ab''"] exI [of _ "''...''"])
      (simp add: ex_store_env_def ex_texts_def ex_obj_def str_member_def ex_store_schema_def)
qed

lemma ex_dir: "cfg_dir ex_store \<noteq> []" by (simp add: ex_store_def new_broker_store_def)

text \<open>The create request of the first run fails at the second write, after the existence check and the loading.\<close>

definition ex_requests :: "store_request list" where
  "ex_requests = [CreateBroker ''cd'', ListBrokers, PutBroker ''../x'' ''ab'', PutBroker ''ab'' ''ab'', DeleteBroker ''ab'']"

lemma store_confined_witness:
  "cfg_dir ex_store \<noteq> [] \<and> (\<exists>rs b' w'.
     store_run (ex_store_env ex_texts) ex_requests ex_store (ex_store_world [False, False, False, False, True]) = (rs, b', w')
     \<and> schema_of (ex_store_env ex_texts) b' w' = Some ex_store_schema)"
proof -
  obtain rs b' w' where r: "store_run (ex_store_env ex_texts) ex_requests ex_store
      (ex_store_world [False, False, False, False, True]) = (rs, b', w')"
    by (cases "store_run (ex_store_env ex_texts) ex_requests ex_store (ex_store_world [False, False, False, False, True])") auto
  from store_confined [OF ex_dir r] r ex_dir ex_schema_of show ?thesis by auto
qed

lemma store_files_sound_witness:
  "\<exists>rs b' w'. store_run (ex_store_env ex_texts) ex_requests ex_store (ex_store_world [False, False, False, False, True]) = (rs, b', w')
     \<and> map (\<lambda>r. map_option fst (rw_sent r)) rs = map Some [500, 200, 400, 200, 204]
     \<and> all_sound (ex_store_env ex_texts) ex_store_schema ex_store (files w')"
proof -
  obtain rs b' w' where r: "store_run (ex_store_env ex_texts) ex_requests ex_store
      (ex_store_world [False, False, False, False, True]) = (rs, b', w')"
    by (cases "store_run (ex_store_env ex_texts) ex_requests ex_store (ex_store_world [False, False, False, False, True])") auto
  have "map (\<lambda>r. map_option fst (rw_sent r)) (fst (store_run (ex_store_env ex_texts) ex_requests ex_store
      (ex_store_world [False, False, False, False, True]))) = map Some [500, 200, 400, 200, 204]" by code_simp
  with store_files_sound [OF ex_dir ex_schema_of ex_all_sound r] r show ?thesis by auto
qed

lemma created_is_served_witness:
  "fst (store_run (ex_store_env ex_texts)
      [CreateBroker ''cd'', GetBroker ''cd'', CreateBroker ''cd'', DeleteBroker ''cd'', GetBroker ''cd''] ex_store (ex_store_world []))
     = [ui_json 201 (obj_json (ex_obj ''cd'')), ui_json 200 (obj_json (ex_obj ''cd'')),
        ui_err 409 (''broker '' @ go_quote ''cd'' @ '' already exists''),
        snd (write_header 204 new_response), ui_err 404 ''broker not found'']"
proof (rule created_is_served [OF ex_dir])
  show "decode_json (ex_store_env ex_texts) ''cd'' = Inr (ex_obj ''cd'')" by code_simp
  show "schema_of (ex_store_env ex_texts) ex_store (ex_store_world []) = Some ex_store_schema" by (rule ex_schema_of)
  show "files (ex_store_world []) (broker_file ex_store ''cd'') = None" by code_simp
  show "se_encode (ex_store_env ex_texts) (ex_obj ''cd'') = Some (''id: cd'', ''...'')" by code_simp
  show "se_decode_yaml (ex_store_env ex_texts) (''id: cd'' @ ''...'') = Inr (VMap (rev (ex_obj ''cd'')))" by code_simp
  show "normalize_yaml (se_sprint (ex_store_env ex_texts)) (VMap (rev (ex_obj ''cd''))) = VMap (rev (ex_obj ''cd''))"
    by code_simp
  show "obj_json (rev (ex_obj ''cd'')) = obj_json (ex_obj ''cd'')" by code_simp
qed (code_simp | simp add: healthy_def ex_store_world_def)+

end
