(* ===== verification/BuildTools.thy ===== *)
theory BuildTools
  imports Load Values
begin

text \<open>
  The operators' command line tools: \<open>cmd/build-bundle\<close>, which merges the header and the broker files into
  one bundle and signs it, and \<open>cmd/verify-bundle\<close>, which runs the loader of the proxy on it. The YAML
  codec for untyped maps, the walk over a directory, the clock, the key parsers and the signature routine
  are parameters.
\<close>

section \<open>build-bundle\<close>

text \<open>
  The calls \<open>WalkDir\<close> makes to its function, in order: an entry, with whether it is a directory, or an error.
  A private key is an ECDSA key with its curve, or of another kind.
\<close>

datatype walk_event = WalkError string | Visit path bool

datatype priv_key = EcdsaPriv string bytes | OtherPriv string

record build_env =
  be_unmarshal :: "bytes \<Rightarrow> string + object option"
  be_marshal :: "object \<Rightarrow> string + bytes"
  be_walk :: "world \<Rightarrow> path \<Rightarrow> walk_event list"
  be_date :: string
  be_rfc3339 :: string
  be_pem :: "bytes \<Rightarrow> (string \<times> bytes) option"
  be_pkcs8 :: "bytes \<Rightarrow> string + priv_key"
  be_sec1 :: "bytes \<Rightarrow> string + priv_key"
  be_sha256 :: "bytes \<Rightarrow> bytes"
  be_sign :: "bytes \<Rightarrow> bytes \<Rightarrow> string + bytes"

record build_flags =
  bf_meta :: path
  bf_brokers :: path
  bf_out :: path
  bf_sig :: path
  bf_signer_key :: path
  bf_version :: string

definition default_build_flags :: build_flags where
  "default_build_flags = \<lparr>bf_meta = ''meta.yaml'', bf_brokers = ''brokers'', bf_out = ''bundle.yaml'',
     bf_sig = [], bf_signer_key = [], bf_version = []\<rparr>"

datatype key_err = KeyRead os_err | KeyNoPem path | KeyBlockType string | KeyParse string
  | KeyNotEcdsa string | KeyNotP256 string

datatype yaml_map_err = MapRead os_err | MapParse string

datatype brokers_err = WalkFailed string | BrokerRead os_err | BrokerParse path string

text \<open>\<open>NilMapPanic\<close> is no error value: the assignment to an entry of a nil map ends the program.\<close>

datatype build_cmd_err = MetaErr yaml_map_err | BrokersErr brokers_err | NilMapPanic | MarshalErr string
  | WriteOut os_err | NoSignerKey | SignerKey key_err | SignErr string | WriteSig os_err

definition read_yaml_map :: "build_env \<Rightarrow> path \<Rightarrow> world \<Rightarrow> (yaml_map_err + object option) \<times> world" where
  "read_yaml_map E p w =
     (case os_read_file p w of
        (Inl e, w1) \<Rightarrow> (Inl (MapRead e), w1)
      | (Inr raw, w1) \<Rightarrow> (wrap_err MapParse (be_unmarshal E raw), w1))"

definition is_yaml_path :: "path \<Rightarrow> bool" where
  "is_yaml_path p = (has_suffix p ''.yaml'' \<or> has_suffix p ''.yml'')"

text \<open>The function given to \<open>WalkDir\<close> over the events.\<close>

fun collect_paths :: "walk_event list \<Rightarrow> string + path list" where
  "collect_paths [] = Inr []"
| "collect_paths (WalkError e # es) = Inl e"
| "collect_paths (Visit p is_dir # es) =
     (if \<not> is_dir \<and> is_yaml_path p
      then (case collect_paths es of Inl e \<Rightarrow> Inl e | Inr ps \<Rightarrow> Inr (p # ps))
      else collect_paths es)"

text \<open>A document that is empty or null leaves the nil map, which stands in the list like an empty one.\<close>

definition node_val :: "object option \<Rightarrow> val" where
  "node_val n = VMap (case n of None \<Rightarrow> [] | Some obj \<Rightarrow> obj)"

fun read_nodes :: "build_env \<Rightarrow> path list \<Rightarrow> world \<Rightarrow> (brokers_err + val list) \<times> world" where
  "read_nodes E [] w = (Inr [], w)"
| "read_nodes E (p # ps) w =
     (case os_read_file p w of
        (Inl e, w1) \<Rightarrow> (Inl (BrokerRead e), w1)
      | (Inr raw, w1) \<Rightarrow> (case be_unmarshal E raw of
          Inl e \<Rightarrow> (Inl (BrokerParse p e), w1)
        | Inr node \<Rightarrow> (case read_nodes E ps w1 of
            (Inl e, w2) \<Rightarrow> (Inl e, w2)
          | (Inr ns, w2) \<Rightarrow> (Inr (node_val node # ns), w2))))"

definition load_brokers :: "build_env \<Rightarrow> path \<Rightarrow> world \<Rightarrow> (brokers_err + val list) \<times> world" where
  "load_brokers E dir w =
     (case collect_paths (be_walk E w dir) of
        Inl e \<Rightarrow> (Inl (WalkFailed e), w)
      | Inr ps \<Rightarrow> read_nodes E (sort ps) w)"

text \<open>\<open>readECDSAPriv\<close>.\<close>

definition decode_priv :: "build_env \<Rightarrow> path \<Rightarrow> bytes \<Rightarrow> key_err + bytes" where
  "decode_priv E p raw =
     (case be_pem E raw of
        None \<Rightarrow> Inl (KeyNoPem p)
      | Some (ty, der) \<Rightarrow>
          andthen
            (if ty = ''PRIVATE KEY'' then wrap_err KeyParse (be_pkcs8 E der)
             else if ty = ''EC PRIVATE KEY'' then wrap_err KeyParse (be_sec1 E der)
             else Inl (KeyBlockType ty))
            (\<lambda>k. case k of
               OtherPriv ty' \<Rightarrow> Inl (KeyNotEcdsa ty')
             | EcdsaPriv curve d \<Rightarrow> check (curve \<noteq> ''P-256'') (KeyNotP256 curve) (Inr d)))"

definition read_ecdsa_priv :: "build_env \<Rightarrow> path \<Rightarrow> world \<Rightarrow> (key_err + bytes) \<times> world" where
  "read_ecdsa_priv E p w =
     (case os_read_file p w of
        (Inl e, w1) \<Rightarrow> (Inl (KeyRead e), w1)
      | (Inr raw, w1) \<Rightarrow> (decode_priv E p raw, w1))"

definition bundle_object :: "build_env \<Rightarrow> string \<Rightarrow> object \<Rightarrow> val list \<Rightarrow> object" where
  "bundle_object E version meta nodes =
     set_member ''brokers'' (VList nodes)
       (set_member ''issued_at'' (VStr (be_rfc3339 E))
         (set_member ''bundle_version''
           (VStr (if version = [] then be_date E @ ''-dev'' else version)) meta))"

text \<open>The signing half of \<open>run\<close>, after the bundle was written.\<close>

definition sign_bundle :: "build_env \<Rightarrow> build_flags \<Rightarrow> bytes \<Rightarrow> world \<Rightarrow> (build_cmd_err + unit) \<times> world" where
  "sign_bundle E fl rendered w =
     (if bf_sig fl = [] then (Inr (), w)
      else if bf_signer_key fl = [] then (Inl NoSignerKey, w)
      else (case read_ecdsa_priv E (bf_signer_key fl) w of
        (Inl e, w1) \<Rightarrow> (Inl (SignerKey e), w1)
      | (Inr priv, w1) \<Rightarrow>
     (case be_sign E priv (be_sha256 E rendered) of
        Inl e \<Rightarrow> (Inl (SignErr e), w1)
      | Inr s \<Rightarrow>
     (case os_write_file (bf_sig fl) s 416 w1 of
        (Inl e, w2) \<Rightarrow> (Inl (WriteSig e), w2)
      | (Inr _, w2) \<Rightarrow> (Inr (), w2)))))"

definition build_run :: "build_env \<Rightarrow> build_flags \<Rightarrow> world \<Rightarrow> (build_cmd_err + unit) \<times> world" where
  "build_run E fl w =
     (case read_yaml_map E (bf_meta fl) w of
        (Inl e, w1) \<Rightarrow> (Inl (MetaErr e), w1)
      | (Inr meta, w1) \<Rightarrow>
     (case load_brokers E (bf_brokers fl) w1 of
        (Inl e, w2) \<Rightarrow> (Inl (BrokersErr e), w2)
      | (Inr nodes, w2) \<Rightarrow>
     (case meta of
        None \<Rightarrow> (Inl NilMapPanic, w2)
      | Some obj \<Rightarrow>
     (case be_marshal E (bundle_object E (bf_version fl) obj nodes) of
        Inl e \<Rightarrow> (Inl (MarshalErr e), w2)
      | Inr rendered \<Rightarrow>
     (case os_write_file (bf_out fl) rendered 416 w2 of
        (Inl e, w3) \<Rightarrow> (Inl (WriteOut e), w3)
      | (Inr _, w3) \<Rightarrow> sign_bundle E fl rendered w3)))))"

section \<open>verify-bundle\<close>

record verify_flags =
  vf_bundle :: path
  vf_sig :: path
  vf_pubkey :: path

text \<open>The exit status and the line on standard output; the error text of a failure goes to standard error.\<close>

definition verify_options :: "verify_flags \<Rightarrow> load_options" where
  "verify_options fl = \<lparr>lo_bundle_path = vf_bundle fl, lo_sig_path = vf_sig fl, lo_pubkey_path = vf_pubkey fl,
     lo_binary_version = [], lo_previous_version = []\<rparr>"

definition verify_bundle :: "crypto \<Rightarrow> yaml_codec \<Rightarrow> verify_flags \<Rightarrow> world \<Rightarrow> (nat \<times> string) \<times> world" where
  "verify_bundle C Y fl w =
     (case load_and_verify C Y (verify_options fl) w of
        (Inl e, w1) \<Rightarrow> ((1, []), w1)
      | (Inr res, w1) \<Rightarrow>
          ((0, ''OK: bundle_version='' @ bundle_version (lr_bundle res) @ '' brokers=''
               @ nat_str (length (brokers (lr_bundle res))) @ [CHR 0x0A]), w1))"

end
