(* ===== verification/BuildToolsFacts.thy ===== *)
theory BuildToolsFacts
  imports BuildTools Fixtures "HOL-Library.Multiset"
begin

text \<open>
  The bundle builder and the loader fit together: what the builder signs, the loader of the proxy takes,
  and the bundle does not depend on the order in which the directory is listed.
\<close>

section \<open>Order of the brokers\<close>

fun yaml_file :: "walk_event \<Rightarrow> path option" where
  "yaml_file (WalkError e) = None"
| "yaml_file (Visit p is_dir) = (if \<not> is_dir \<and> is_yaml_path p then Some p else None)"

definition no_walk_error :: "walk_event list \<Rightarrow> bool" where
  "no_walk_error es = list_all (\<lambda>e. case e of WalkError m \<Rightarrow> False | Visit p d \<Rightarrow> True) es"

lemma collect_paths_ok: "no_walk_error es \<Longrightarrow> collect_paths es = Inr (List.map_filter yaml_file es)"
  by (induction es rule: collect_paths.induct) (auto simp: no_walk_error_def List.map_filter_simps)

lemma mset_map_filter:
  "mset (List.map_filter f xs) = image_mset the (filter_mset (\<lambda>x. x \<noteq> None) (image_mset f (mset xs)))"
  by (induction xs) (auto simp: List.map_filter_simps split: option.splits)

lemma sorted_paths_same:
  assumes "mset es' = mset es"
  shows "sort (List.map_filter yaml_file es') = sort (List.map_filter yaml_file es)"
  by (intro properties_for_sort) (simp_all add: mset_map_filter assms)

lemma load_brokers_same:
  assumes "mset (walk w dir) = mset (be_walk E w dir)" and "no_walk_error (be_walk E w dir)"
  shows "load_brokers (E\<lparr>be_walk := walk\<rparr>) dir w = load_brokers E dir w"
proof -
  have "no_walk_error (walk w dir)"
    using assms unfolding no_walk_error_def list_all_iff by (metis mset_eq_setD)
  moreover have "read_nodes (E\<lparr>be_walk := walk\<rparr>) ps w' = read_nodes E ps w'" for ps w'
    by (induction ps arbitrary: w') (auto split: prod.splits sum.splits)
  ultimately show ?thesis
    using assms(2) sorted_paths_same [OF assms(1)] by (simp add: load_brokers_def collect_paths_ok)
qed

text \<open>
  The built bundle and its signature do not depend on the order in which the broker directory is
  walked: any walk that reports the same entries and no error makes \<open>build-bundle\<close> do the same.
\<close>

theorem build_ignores_walk_order:
  assumes "\<And>w dir. mset (walk w dir) = mset (be_walk E w dir)" and "\<And>w dir. no_walk_error (be_walk E w dir)"
  shows "build_run (E\<lparr>be_walk := walk\<rparr>) fl w = build_run E fl w"
proof -
  let ?E = "E\<lparr>be_walk := walk\<rparr>"
  have 0: "be_pem ?E = be_pem E" "be_pkcs8 ?E = be_pkcs8 E" "be_sec1 ?E = be_sec1 E" by simp_all
  have 1: "decode_priv ?E p raw = decode_priv E p raw" for p raw unfolding decode_priv_def 0 ..
  have 2: "read_ecdsa_priv ?E p w' = read_ecdsa_priv E p w'" for p w' unfolding read_ecdsa_priv_def 1 ..
  have 3: "be_sign ?E = be_sign E" "be_sha256 ?E = be_sha256 E" "be_marshal ?E = be_marshal E" by simp_all
  have 4: "sign_bundle ?E fl r w' = sign_bundle E fl r w'" for r w' unfolding sign_bundle_def 2 3 ..
  have 5: "read_yaml_map ?E p w' = read_yaml_map E p w'" for p w' unfolding read_yaml_map_def by (simp cong: prod.case_cong sum.case_cong)
  have 6: "bundle_object ?E v obj ns = bundle_object E v obj ns" for v obj ns by (simp add: bundle_object_def)
  have 7: "load_brokers ?E dir w' = load_brokers E dir w'" for dir w' by (rule load_brokers_same) (rule assms)+
  show ?thesis unfolding build_run_def 3 4 5 6 7 ..
qed

section \<open>Building, then verifying\<close>

text \<open>
  The crypto libraries of the two tools belong together for a key pair: the digests agree, and what is
  signed with the private key verifies under the public one and is not empty.
\<close>

definition key_pair :: "build_env \<Rightarrow> crypto \<Rightarrow> bytes \<Rightarrow> bytes \<Rightarrow> bool" where
  "key_pair E C priv pub =
     (be_sha256 E = sha256 C \<and> (\<forall>h s. be_sign E priv h = Inr s \<longrightarrow> s \<noteq> [] \<and> verify_asn1 C pub h s))"

definition signs_with :: "build_env \<Rightarrow> world \<Rightarrow> path \<Rightarrow> bytes \<Rightarrow> bool" where
  "signs_with E w p priv = (\<exists>raw. content_of w p = Some raw \<and> decode_priv E p raw = Inr priv)"

lemma read_yaml_map_frame: "read_yaml_map E p w = (r, w') \<Longrightarrow> files w' = files w"
  by (auto simp: read_yaml_map_def split: prod.splits sum.splits dest: reads_frame)

lemma read_nodes_frame: "read_nodes E ps w = (r, w') \<Longrightarrow> files w' = files w"
proof (induction ps arbitrary: w r w')
  case (Cons p ps)
  obtain x w1 where 1: "os_read_file p w = (x, w1)" by fastforce
  obtain y w2 where 2: "read_nodes E ps w1 = (y, w2)" by fastforce
  from Cons.prems 1 2 have "w' = w1 \<or> w' = w2" by (auto split: sum.splits)
  with Cons.IH [OF 2] reads_frame(1) [OF 1] show ?case by auto
qed simp

lemma load_brokers_frame: "load_brokers E dir w = (r, w') \<Longrightarrow> files w' = files w"
  by (auto simp: load_brokers_def split: sum.splits dest: read_nodes_frame)

lemma sign_bundle_ok:
  assumes "sign_bundle E fl data w = (Inr u, w')" and "bf_sig fl \<noteq> []"
  obtains priv s where "signs_with E w (bf_signer_key fl) priv" "be_sign E priv (be_sha256 E data) = Inr s"
    "content_of w' (bf_sig fl) = Some s" "\<And>q. q \<noteq> bf_sig fl \<Longrightarrow> files w' q = files w q"
proof -
  from assms obtain raw w1 priv s where 1: "os_read_file (bf_signer_key fl) w = (Inr raw, w1)"
    and 2: "decode_priv E (bf_signer_key fl) raw = Inr priv" and 3: "be_sign E priv (be_sha256 E data) = Inr s"
    and 4: "os_write_file (bf_sig fl) s 416 w1 = (Inr (), w')"
    by (auto simp: sign_bundle_def read_ecdsa_priv_def split: if_splits prod.splits sum.splits)
  from os_write_file_frame [OF 4] reads_frame(1) [OF 1] have "files w' q = files w q" if "q \<noteq> bf_sig fl" for q
    using that by simp
  with os_read_file_ok [OF 1] 2 3 os_write_file_ok [OF 4] that show thesis by (auto simp: signs_with_def)
qed

definition matching_keys :: "build_env \<Rightarrow> crypto \<Rightarrow> world \<Rightarrow> path \<Rightarrow> bytes \<Rightarrow> bool" where
  "matching_keys E C w p pub = (\<forall>priv. signs_with E w p priv \<longrightarrow> key_pair E C priv pub)"

lemma build_run_ok:
  assumes "build_run E fl w = (Inr u, w')" and "bf_sig fl \<noteq> []" and "bf_sig fl \<noteq> bf_out fl"
    and "bf_signer_key fl \<noteq> bf_out fl" and "matching_keys E C w (bf_signer_key fl) pub"
  obtains obj nodes data s where "be_marshal E (bundle_object E (bf_version fl) obj nodes) = Inr data"
    "content_of w' (bf_out fl) = Some data" "content_of w' (bf_sig fl) = Some s"
    "s \<noteq> []" "verify_asn1 C pub (sha256 C data) s"
proof -
  from assms(1) obtain obj nodes data w1 w2 w3 where 1: "read_yaml_map E (bf_meta fl) w = (Inr (Some obj), w1)"
    and 2: "load_brokers E (bf_brokers fl) w1 = (Inr nodes, w2)"
    and m: "be_marshal E (bundle_object E (bf_version fl) obj nodes) = Inr data"
    and 3: "os_write_file (bf_out fl) data 416 w2 = (Inr (), w3)" and 4: "sign_bundle E fl data w3 = (Inr (), w')"
    by (auto simp: build_run_def split: prod.splits sum.splits option.splits)
  from sign_bundle_ok [OF 4 assms(2)] obtain priv s where k: "signs_with E w3 (bf_signer_key fl) priv"
    and s: "be_sign E priv (be_sha256 E data) = Inr s" "content_of w' (bf_sig fl) = Some s"
    and fr: "\<And>q. q \<noteq> bf_sig fl \<Longrightarrow> files w' q = files w3 q" by blast
  have "files w3 (bf_signer_key fl) = files w (bf_signer_key fl)"
    using os_write_file_frame [OF 3 assms(4)] read_yaml_map_frame [OF 1] load_brokers_frame [OF 2] by simp
  with k assms(5) have "key_pair E C priv pub" by (simp add: matching_keys_def signs_with_def content_of_def)
  with s(1) have "s \<noteq> []" "verify_asn1 C pub (sha256 C data) s" by (auto simp: key_pair_def)
  moreover have "content_of w' (bf_out fl) = Some data"
    using os_write_file_ok [OF 3] fr [of "bf_out fl"] assms(3) by (simp add: content_of_def)
  ultimately show thesis using that m s(2) by blast
qed

text \<open>
  C15: The tools and the loader fit together: when a signed build succeeds and the pinned public key belongs
  to the signer's private key, the files it wrote are the marshalled bundle and a signature of exactly these
  bytes, and \<open>verify-bundle\<close> accepts them, naming the version and the number of brokers, whenever
  the strict decoder reads the marshalled bytes as one valid bundle.
\<close>

theorem built_bundle_verifies:
  assumes run: "build_run E fl w = (Inr u, w')" and sig: "bf_sig fl \<noteq> []"
    and apart: "bf_sig fl \<noteq> bf_out fl" "bf_signer_key fl \<noteq> bf_out fl"
    and keys: "matching_keys E C w (bf_signer_key fl) pub" and pin: "pinned C w' pk pub" and h: "healthy w'"
  shows "\<exists>obj nodes data. be_marshal E (bundle_object E (bf_version fl) obj nodes) = Inr data
     \<and> content_of w' (bf_out fl) = Some data
     \<and> (\<forall>b. yaml_first Y data = Some b \<and> yaml_rest Y data = EndOfInput \<and> bundle_ok b \<longrightarrow>
          fst (verify_bundle C Y \<lparr>vf_bundle = bf_out fl, vf_sig = bf_sig fl, vf_pubkey = pk\<rparr> w')
          = (0, ''OK: bundle_version='' @ bundle_version b @ '' brokers='' @ nat_str (length (brokers b)) @ [CHR 0x0A]))"
  using run sig apart keys
proof (rule build_run_ok)
  fix obj nodes data s
  assume m: "be_marshal E (bundle_object E (bf_version fl) obj nodes) = Inr data"
    and c: "content_of w' (bf_out fl) = Some data" "content_of w' (bf_sig fl) = Some s"
    and s: "s \<noteq> []" "verify_asn1 C pub (sha256 C data) s"
  let ?fl = "\<lparr>vf_bundle = bf_out fl, vf_sig = bf_sig fl, vf_pubkey = pk\<rparr>"
  have "fst (verify_bundle C Y ?fl w')
      = (0, ''OK: bundle_version='' @ bundle_version b @ '' brokers='' @ nat_str (length (brokers b)) @ [CHR 0x0A])"
    if b: "yaml_first Y data = Some b" "yaml_rest Y data = EndOfInput" "bundle_ok b" for b
  proof -
    have ok: "bytes_ok C Y (verify_options ?fl) pub data s b"
      using s b by (simp add: bytes_ok_def version_gates_ok_def verify_options_def)
    then obtain r where r: "build_router b = Inr r" using verify_bytes_total by blast
    with ok c pin have "loadable C Y (verify_options ?fl) w' \<lparr>lr_bundle = b, lr_router = r\<rparr>"
      by (auto simp: loadable_def verify_options_def)
    from load_complete [OF h this] show ?thesis
      by (cases "load_and_verify C Y (verify_options ?fl) w'") (simp add: verify_bundle_def)
  qed
  with m c(1) show ?thesis by blast
qed

section \<open>Examples\<close>

text \<open>A codec that marshals every object as bundle B, a directory with a file, a subdirectory and a note, and a key.\<close>

definition ex_entries :: "walk_event list" where
  "ex_entries = [Visit ''d'' True, Visit ''d/zerodha.yaml'' False, Visit ''d/notes.txt'' False, Visit ''d/b.yml'' False]"

definition ex_build_env :: build_env where
  "ex_build_env = \<lparr>be_unmarshal = (\<lambda>d. Inr (Some [(''id'', VStr d)])), be_marshal = (\<lambda>obj. Inr ''B''),
     be_walk = (\<lambda>w dir. ex_entries), be_date = ''2026-02-01'', be_rfc3339 = ''2026-02-01T00:00:00Z'',
     be_pem = (\<lambda>d. Some (''PRIVATE KEY'', d)), be_pkcs8 = (\<lambda>d. Inr (EcdsaPriv ''P-256'' d)),
     be_sec1 = (\<lambda>d. Inl ''sec1''), be_sha256 = (\<lambda>m. m),
     be_sign = (\<lambda>k h. if k = ''key'' then Inr ''sig'' else Inl ''key'')\<rparr>"

definition ex_build_world :: world where
  "ex_build_world = \<lparr>files = [''m'' \<mapsto> ex_entry ''meta'', ''d/zerodha.yaml'' \<mapsto> ex_entry ''z'',
     ''d/b.yml'' \<mapsto> ex_entry ''b'', ''k'' \<mapsto> ex_entry ''key''], faults = [], tmp_seq = 0, history = []\<rparr>"

definition ex_build_flags :: build_flags where
  "ex_build_flags = \<lparr>bf_meta = ''m'', bf_brokers = ''d'', bf_out = ''o'', bf_sig = ''os'', bf_signer_key = ''k'', bf_version = []\<rparr>"

lemma build_ignores_walk_order_witness:
  "build_run (ex_build_env\<lparr>be_walk := (\<lambda>w dir. rev ex_entries)\<rparr>) ex_build_flags ex_build_world
     = build_run ex_build_env ex_build_flags ex_build_world
   \<and> fst (load_brokers ex_build_env ''d'' ex_build_world) = Inr [VMap [(''id'', VStr ''b'')], VMap [(''id'', VStr ''z'')]]"
proof
  show "build_run (ex_build_env\<lparr>be_walk := (\<lambda>w dir. rev ex_entries)\<rparr>) ex_build_flags ex_build_world
     = build_run ex_build_env ex_build_flags ex_build_world"
    by (rule build_ignores_walk_order) (simp_all add: ex_build_env_def ex_entries_def no_walk_error_def)
  show "fst (load_brokers ex_build_env ''d'' ex_build_world) = Inr [VMap [(''id'', VStr ''b'')], VMap [(''id'', VStr ''z'')]]"
    by code_simp
qed

lemma built_bundle_verifies_witness:
  "\<exists>w'. build_run ex_build_env ex_build_flags ex_build_world = (Inr (), w')
     \<and> fst (verify_bundle ex_crypto ex_yaml \<lparr>vf_bundle = ''o'', vf_sig = ''os'', vf_pubkey = ''k''\<rparr> w')
       = (0, ''OK: bundle_version=2026-02-01 brokers=1'' @ [CHR 0x0A])"
proof -
  let ?r = "build_run ex_build_env ex_build_flags ex_build_world"
  have ok: "is_ok (fst ?r)" by code_simp
  then obtain w' where r: "?r = (Inr (), w')" by (cases ?r) (auto simp: is_ok_def split: sum.splits)
  have w: "w' = snd ?r" by (simp add: r)
  have h: "healthy w'" unfolding w by code_simp
  have "content_of w' ''k'' = Some ''key''" unfolding w by code_simp
  then have pin: "pinned ex_crypto w' ''k'' ''key''"
    by (simp add: pinned_def decode_pubkey_def ex_crypto_def check_def)
  have keys: "matching_keys ex_build_env ex_crypto ex_build_world (bf_signer_key ex_build_flags) ''key''"
    by (auto simp: matching_keys_def signs_with_def key_pair_def decode_priv_def ex_build_env_def ex_crypto_def
        ex_build_world_def ex_build_flags_def content_of_def ex_entry_def check_def andthen_def wrap_err_def)
  have sig: "bf_sig ex_build_flags \<noteq> []" and apart: "bf_sig ex_build_flags \<noteq> bf_out ex_build_flags"
      "bf_signer_key ex_build_flags \<noteq> bf_out ex_build_flags" and fl: "bf_out ex_build_flags = ''o''" "bf_sig ex_build_flags = ''os''"
    by (simp_all add: ex_build_flags_def)
  have "be_marshal ex_build_env obj = Inr data \<longleftrightarrow> data = ''B''" for obj data by (auto simp: ex_build_env_def)
  moreover have "yaml_first ex_yaml ''B'' = Some (ex_bundle ''2026-02-01'')" "yaml_rest ex_yaml ''B'' = EndOfInput"
    by (simp_all add: ex_yaml_def)
  moreover have "bundle_ok (ex_bundle ''2026-02-01'')" using ex_bundle_ok(2) by (simp add: validate_bundle_iff)
  moreover have "bundle_version (ex_bundle ''2026-02-01'') = ''2026-02-01''"
      "nat_str (length (brokers (ex_bundle ''2026-02-01''))) = ''1''" by code_simp+
  ultimately show ?thesis
    using built_bundle_verifies [OF r sig apart keys pin h, of ex_yaml] r by (simp add: fl)
qed

end
