(* ===== verification/AdminUi.thy ===== *)
theory AdminUi
  imports Brokers GoNet
begin

text \<open>
  The admin tool's settings and its access to the proxy: \<open>tools/admin-ui/deploy.go\<close>, \<open>proxyclient.go\<close> and
  \<open>audit.go\<close>. The YAML decoder, the key and certificate parsers and the HTTP client are parameters. The
  tool re-reads its key material at every call, so a client exists for one request only.
\<close>

section \<open>Deploy configuration\<close>

record deploy_config =
  lightsail_ip :: string
  ssh_key :: path
  signer_key :: path
  pub_key :: path
  bundle_out :: path
  sig_out :: path
  proxy_repo :: path
  reload_script :: path
  dep_cert :: path
  dep_key :: path
  dep_ca :: path
  proxy_port :: int

definition empty_deploy :: deploy_config where
  "empty_deploy = \<lparr>lightsail_ip = [], ssh_key = [], signer_key = [], pub_key = [], bundle_out = [],
     sig_out = [], proxy_repo = [], reload_script = [], dep_cert = [], dep_key = [], dep_ca = [], proxy_port = 0\<rparr>"

datatype deploy_err = DeployRead path os_err | DeployParse path string

definition def_str :: "string \<Rightarrow> string \<Rightarrow> string" where
  "def_str target v = (if target = [] then v else target)"

definition deploy_path :: "path \<Rightarrow> path" where
  "deploy_path cfgdir = path_join [cfgdir, ''deploy.local.yaml'']"

text \<open>The defaults, from the parent of the configuration directory and the parent of that.\<close>

definition fill_defaults :: "path \<Rightarrow> deploy_config \<Rightarrow> deploy_config" where
  "fill_defaults cfgdir c =
     (let src = path_dir cfgdir; workspace = path_dir src in
      c\<lparr>proxy_repo := def_str (proxy_repo c) (path_join [src, ''tesseract-proxy'']),
        reload_script := def_str (reload_script c) (path_join [src, ''release'', ''scripts'', ''reload-bundle.sh'']),
        pub_key := def_str (pub_key c) (path_join [workspace, ''releases'', ''keys'', ''signing.pub'']),
        bundle_out := def_str (bundle_out c) (path_join [workspace, ''releases'', ''staging'', ''bundle.yaml'']),
        sig_out := def_str (sig_out c) (path_join [workspace, ''releases'', ''staging'', ''bundle.yaml.sig'']),
        dep_cert := def_str (dep_cert c) (path_join [workspace, ''releases'', ''mtls'', ''tesseract'', ''client.pem'']),
        dep_key := def_str (dep_key c) (path_join [workspace, ''releases'', ''mtls'', ''tesseract'', ''client.key'']),
        dep_ca := def_str (dep_ca c) (path_join [workspace, ''releases'', ''mtls'', ''root-ca'', ''ca.pem'']),
        proxy_port := (if proxy_port c = 0 then 443 else proxy_port c)\<rparr>)"

definition load_deploy_config ::
    "(bytes \<Rightarrow> string + deploy_config) \<Rightarrow> path \<Rightarrow> world \<Rightarrow> (deploy_err + deploy_config) \<times> world" where
  "load_deploy_config unmarshal cfgdir w =
     (let p = deploy_path cfgdir in
     (case os_read_file p w of
        (Inr raw, w1) \<Rightarrow> (case unmarshal raw of
            Inl e \<Rightarrow> (Inl (DeployParse p e), w1)
          | Inr c \<Rightarrow> (Inr (fill_defaults cfgdir c), w1))
      | (Inl NotExist, w1) \<Rightarrow> (Inr (fill_defaults cfgdir empty_deploy), w1)
      | (Inl e, w1) \<Rightarrow> (Inl (DeployRead p e), w1)))"

definition missing :: "deploy_config \<Rightarrow> string list" where
  "missing c =
     (if lightsail_ip c = [] then [''lightsail_ip''] else [])
     @ (if ssh_key c = [] then [''ssh_key''] else [])
     @ (if signer_key c = [] then [''signer_key''] else [])"

fun unreadable :: "(string \<times> path) list \<Rightarrow> world \<Rightarrow> string list \<times> world" where
  "unreadable [] w = ([], w)"
| "unreadable ((n, p) # fs) w =
     (if p = [] then (case unreadable fs w of (m, w1) \<Rightarrow> (n # m, w1))
      else (case os_stat p w of
        (Inl _, w1) \<Rightarrow> (case unreadable fs w1 of (m, w2) \<Rightarrow> ((n @ '' (unreadable: '' @ p @ '')'') # m, w2))
      | (Inr _, w1) \<Rightarrow> unreadable fs w1))"

definition mtls_missing :: "deploy_config \<Rightarrow> world \<Rightarrow> string list \<times> world" where
  "mtls_missing c w =
     (case unreadable [(''client_cert'', dep_cert c), (''client_key'', dep_key c), (''client_ca'', dep_ca c)] w of
        (m, w1) \<Rightarrow> ((if lightsail_ip c = [] then [''lightsail_ip''] else []) @ m, w1))"

section \<open>The client of the proxy\<close>

text \<open>
  \<open>ui_keypair\<close> makes the certificate chain of a certificate and a key file; \<open>ui_leaf\<close> parses a leaf into its
  subject, issuer, expiry (as encoded) and serial number; \<open>ui_do\<close> performs a request (method, URL, headers)
  with the client's certificate; \<open>ui_bad_url\<close> is the error \<open>NewRequest\<close> makes of a URL it cannot parse.
\<close>

record leaf_info =
  leaf_subject :: string
  leaf_issuer :: string
  leaf_not_after :: string
  leaf_serial_hex :: string

record upstream =
  up_status :: nat
  up_header :: headers
  up_body :: body_copy

text \<open>What \<open>pumpFlushing\<close> meets: the context is done, or a read gives some bytes and how it ended.\<close>

datatype read_end = ReadMore | ReadEof | ReadBroken

datatype pump_event = PumpCancelled | PumpRead bytes read_end bool

record ui_env =
  ui_os_text :: "os_err \<Rightarrow> string"
  ui_keypair :: "bytes \<Rightarrow> bytes \<Rightarrow> string + bytes list"
  ui_ca_ok :: "bytes \<Rightarrow> bool"
  ui_leaf :: "bytes \<Rightarrow> string + leaf_info"
  ui_bad_url :: "string \<Rightarrow> string option"
  ui_do :: "bytes list \<Rightarrow> string \<Rightarrow> string \<Rightarrow> (string \<times> string) list \<Rightarrow> string + upstream"
  ui_flusher :: bool
  ui_stream :: "pump_event list"

record proxy_client =
  pc_cfg :: deploy_config
  pc_base :: string
  pc_chain :: "bytes list"

text \<open>\<open>net.JoinHostPort\<close>, and the host as \<open>url.URL.String\<close> writes it, escaping all but the bytes it allows in a host.\<close>

definition join_host_port :: "string \<Rightarrow> string \<Rightarrow> string" where
  "join_host_port host port =
     (if CHR '':'' \<in> set host then ''['' @ host @ '']:'' @ port else host @ '':'' @ port)"

definition host_byte :: "char \<Rightarrow> bool" where
  "host_byte c = (is_letter c \<or> is_digit c \<or> c \<in> set (''-_.~!$&()*+,;=:[]<>'' @ [char_of (34 :: nat), char_of (39 :: nat)]))"

definition upper_hex :: "nat \<Rightarrow> char" where
  "upper_hex n = (if n < 10 then char_of (48 + n) else char_of (55 + n))"

definition escape_host :: "string \<Rightarrow> string" where
  "escape_host h = concat (map (\<lambda>c. if host_byte c then [c]
     else [CHR ''%'', upper_hex (byte c div 16), upper_hex (byte c mod 16)]) h)"

definition base_url_of :: "deploy_config \<Rightarrow> string" where
  "base_url_of c = ''https://'' @ escape_host
     (join_host_port (lightsail_ip c) (int_str (if proxy_port c = 0 then 443 else proxy_port c)))"

definition new_proxy_client :: "ui_env \<Rightarrow> deploy_config \<Rightarrow> world \<Rightarrow> (string + proxy_client) \<times> world" where
  "new_proxy_client E c w =
     (case mtls_missing c w of (m, w1) \<Rightarrow>
      if m \<noteq> [] then (Inl (''mTLS not configured: '' @ join '', '' m), w1)
      else (case os_read_file (dep_cert c) w1 of
        (Inl e, w2) \<Rightarrow> (Inl (''load client cert/key: '' @ ui_os_text E e), w2)
      | (Inr cert, w2) \<Rightarrow>
     (case os_read_file (dep_key c) w2 of
        (Inl e, w3) \<Rightarrow> (Inl (''load client cert/key: '' @ ui_os_text E e), w3)
      | (Inr key, w3) \<Rightarrow>
     (case ui_keypair E cert key of
        Inl e \<Rightarrow> (Inl (''load client cert/key: '' @ e), w3)
      | Inr chain \<Rightarrow>
     (case os_read_file (dep_ca c) w3 of
        (Inl e, w4) \<Rightarrow> (Inl (''read CA: '' @ ui_os_text E e), w4)
      | (Inr ca, w4) \<Rightarrow>
          if \<not> ui_ca_ok E ca then (Inl ''CA bundle: no PEM certificates parsed'', w4)
          else (Inr \<lparr>pc_cfg = c, pc_base = base_url_of c, pc_chain = chain\<rparr>, w4))))))"

definition client_url :: "proxy_client \<Rightarrow> string \<Rightarrow> string" where
  "client_url pc path = pc_base pc @ path"

definition cert_info :: "ui_env \<Rightarrow> proxy_client \<Rightarrow> string + string" where
  "cert_info E pc =
     (case pc_chain pc of
        [] \<Rightarrow> Inl ''client cert has no leaf''
      | der # _ \<Rightarrow> andthen (wrap_err (\<lambda>e. ''parse leaf: '' @ e) (ui_leaf E der))
          (\<lambda>l. Inr (json_object
            [(''subject'', json_string True (leaf_subject l)), (''issuer'', json_string True (leaf_issuer l)),
             (''not_after'', leaf_not_after l), (''serial_hex'', json_string True (leaf_serial_hex l)),
             (''base_url'', json_string True (pc_base pc)), (''ca_file'', json_string True (dep_ca (pc_cfg pc))),
             (''cert_file'', json_string True (dep_cert (pc_cfg pc)))])))"

section \<open>Handlers that ask the proxy\<close>

text \<open>The flag tells a panic of \<open>WriteHeader\<close>, which the HTTP server answers by dropping the connection.\<close>

type_synonym ui_reply = "bool \<times> response_writer \<times> world"

definition ui_answer :: "response_writer \<Rightarrow> world \<Rightarrow> ui_reply" where
  "ui_answer r w = (False, r, w)"

definition proxy_check :: "ui_env \<Rightarrow> deploy_config \<Rightarrow> world \<Rightarrow> ui_reply" where
  "proxy_check E c w =
     (case new_proxy_client E c w of
        (Inl e, w1) \<Rightarrow> ui_answer (ui_err 424 e) w1
      | (Inr pc, w1) \<Rightarrow> (case cert_info E pc of
          Inl e \<Rightarrow> ui_answer (ui_err 500 e) w1
        | Inr info \<Rightarrow> ui_answer (ui_json 200 info) w1))"

text \<open>The upstream answer copied to the browser: content type, status, body.\<close>

definition mirror :: "upstream \<Rightarrow> bool \<times> response_writer" where
  "mirror resp =
     (let ct = header_get (up_header resp) ''Content-Type'';
          w1 = (if ct \<noteq> [] then set_header ''Content-Type'' ct new_response else new_response) in
      case write_header (up_status resp) w1 of
        (True, w2) \<Rightarrow> (True, w2)
      | (False, w2) \<Rightarrow> (False, write_body (case up_body resp of Whole b \<Rightarrow> b | Interrupted b \<Rightarrow> b) w2))"

definition forward :: "ui_env \<Rightarrow> proxy_client \<Rightarrow> string \<Rightarrow> string \<Rightarrow> world \<Rightarrow> ui_reply" where
  "forward E pc method url w =
     (case ui_bad_url E url of
        Some e \<Rightarrow> ui_answer (ui_err 500 e) w
      | None \<Rightarrow> (case ui_do E (pc_chain pc) method url [] of
          Inl e \<Rightarrow> ui_answer (ui_err 502 (''upstream: '' @ e)) w
        | Inr resp \<Rightarrow> (case mirror resp of (p, r) \<Rightarrow> (p, r, w))))"

definition passthrough :: "ui_env \<Rightarrow> string \<Rightarrow> string \<Rightarrow> deploy_config \<Rightarrow> world \<Rightarrow> ui_reply" where
  "passthrough E method path c w =
     (case new_proxy_client E c w of
        (Inl e, w1) \<Rightarrow> ui_answer (ui_err 424 e) w1
      | (Inr pc, w1) \<Rightarrow> forward E pc method (client_url pc path) w1)"

definition ui_log_stat :: "ui_env \<Rightarrow> deploy_config \<Rightarrow> world \<Rightarrow> ui_reply" where
  "ui_log_stat E c w = passthrough E ''GET'' ''/admin/log/stat'' c w"

definition ui_log_rotate :: "ui_env \<Rightarrow> deploy_config \<Rightarrow> world \<Rightarrow> ui_reply" where
  "ui_log_rotate E c w = passthrough E ''POST'' ''/admin/log/rotate'' c w"

definition ui_health :: "ui_env \<Rightarrow> deploy_config \<Rightarrow> world \<Rightarrow> ui_reply" where
  "ui_health E c w = passthrough E ''GET'' ''/admin/healthz'' c w"

definition range_hist :: "ui_env \<Rightarrow> string \<Rightarrow> deploy_config \<Rightarrow> world \<Rightarrow> ui_reply" where
  "range_hist E raw_query c w =
     (case new_proxy_client E c w of
        (Inl e, w1) \<Rightarrow> ui_answer (ui_err 424 e) w1
      | (Inr pc, w1) \<Rightarrow> forward E pc ''GET''
          (client_url pc ''/admin/audit/range'' @ (if raw_query \<noteq> [] then ''?'' @ raw_query else [])) w1)"

fun pump :: "pump_event list \<Rightarrow> response_writer \<Rightarrow> response_writer" where
  "pump [] r = r"
| "pump (PumpCancelled # es) r = r"
| "pump (PumpRead b e okay # es) r =
     (if b \<noteq> [] \<and> \<not> okay then r
      else let r' = (if b \<noteq> [] then write_body b r else r) in
        case e of ReadMore \<Rightarrow> pump es r' | ReadEof \<Rightarrow> r' | ReadBroken \<Rightarrow> r')"

definition tail_headers :: "string \<Rightarrow> (string \<times> string) list" where
  "tail_headers last_id =
     (if last_id \<noteq> [] then [(''Last-Event-ID'', last_id)] else []) @ [(''Accept'', ''text/event-stream'')]"

definition ui_tail :: "ui_env \<Rightarrow> string \<Rightarrow> deploy_config \<Rightarrow> world \<Rightarrow> ui_reply" where
  "ui_tail E last_id c w =
     (case new_proxy_client E c w of
        (Inl e, w1) \<Rightarrow> ui_answer (ui_err 424 e) w1
      | (Inr pc, w1) \<Rightarrow>
          if \<not> ui_flusher E then ui_answer (ui_err 500 ''streaming not supported'') w1
          else (let url = client_url pc ''/admin/audit/tail'' in
     (case ui_bad_url E url of
        Some e \<Rightarrow> ui_answer (ui_err 500 e) w1
      | None \<Rightarrow>
     (case ui_do E (pc_chain pc) ''GET'' url (tail_headers last_id) of
        Inl e \<Rightarrow> ui_answer (ui_err 502 (''upstream: '' @ e)) w1
      | Inr resp \<Rightarrow>
          if up_status resp \<noteq> 200
          then ui_answer (write_body (json_object [(''error'', [quote] @ ''upstream status '' @ nat_str (up_status resp) @ [quote])])
                 (start_response ''application/json'' 502 new_response)) w1
          else ui_answer (pump (ui_stream E) (snd (write_header 200
                 (set_header ''X-Accel-Buffering'' ''no'' (set_header ''Connection'' ''keep-alive''
                   (set_header ''Cache-Control'' ''no-cache'' (set_header ''Content-Type'' ''text/event-stream'' new_response))))))) w1))))"

end
