(* ===== verification/Publish.thy ===== *)
theory Publish
  imports AdminUi Diff
begin

text \<open>
  Publishing and comparing bundles, \<open>tools/admin-ui/publish.go\<close> and the handler of \<open>diff.go\<close>. The commands the
  tool runs are outside: running one is a function of the world that gives the lines it printed, its raw
  standard error, how it ended, and the world after it. The publish handler is split at its long-running
  steps, so that other requests can come between them.
\<close>

section \<open>Commands\<close>

record command =
  cmd_args :: "string list"
  cmd_dir :: path

text \<open>A printed line is marked if it came from standard error; no error is a zero exit.\<close>

record cmd_result =
  cr_lines :: "(bool \<times> string) list"
  cr_stderr :: bytes
  cr_err :: "string option"

record pub_env =
  pu_run :: "command \<Rightarrow> world \<Rightarrow> cmd_result \<times> world"
  pu_decode :: "bytes \<Rightarrow> string + string"
  pu_started :: string
  pu_finished :: string
  pu_flusher :: bool
  pu_os_text :: "os_err \<Rightarrow> string"
  pu_mkdtemp :: "world \<Rightarrow> string + path"

definition build_args :: "path \<Rightarrow> path \<Rightarrow> path \<Rightarrow> path \<Rightarrow> string list" where
  "build_args cfgdir out sig signer =
     [''go'', ''run'', ''./cmd/build-bundle'', ''-meta'', path_join [cfgdir, ''meta.yaml''],
      ''-brokers'', path_join [cfgdir, ''brokers''], ''-out'', out, ''-sig'', sig, ''-signer-key'', signer]"

definition build_command :: "path \<Rightarrow> deploy_config \<Rightarrow> command" where
  "build_command cfgdir c =
     \<lparr>cmd_args = build_args cfgdir (bundle_out c) (sig_out c) (signer_key c), cmd_dir = proxy_repo c\<rparr>"

definition reload_command :: "deploy_config \<Rightarrow> command" where
  "reload_command c =
     \<lparr>cmd_args = [''bash'', reload_script c, ''--bundle'', bundle_out c, ''--sig'', sig_out c,
        ''--lightsail-ip'', lightsail_ip c, ''--pubkey'', pub_key c, ''--ssh-key'', ssh_key c], cmd_dir = []\<rparr>"

section \<open>The snapshot\<close>

definition snapshot_path :: "deploy_config \<Rightarrow> path" where
  "snapshot_path c = path_join [path_dir (bundle_out c), ''last-published.bundle.yaml'']"

definition snapshot_tmp :: "deploy_config \<Rightarrow> path" where
  "snapshot_tmp c = snapshot_path c @ ''.tmp''"

definition write_snapshot :: "deploy_config \<Rightarrow> world \<Rightarrow> (os_err + unit) \<times> world" where
  "write_snapshot c w =
     (case os_read_file (bundle_out c) w of
        (Inl e, w1) \<Rightarrow> (Inl e, w1)
      | (Inr src, w1) \<Rightarrow>
     (case os_write_file (snapshot_tmp c) src 420 w1 of
        (Inl e, w2) \<Rightarrow> (Inl e, w2)
      | (Inr _, w2) \<Rightarrow> os_rename (snapshot_tmp c) (snapshot_path c) w2))"

section \<open>The publish handler\<close>

definition confirm_phrase :: string where "confirm_phrase = ''DEPLOY''"

definition put_text :: "string \<Rightarrow> response_writer \<Rightarrow> response_writer" where
  "put_text s r = write_body s r"

definition line :: "string \<Rightarrow> string" where "line s = s @ [eol]"

text \<open>\<open>streamCmd\<close>: the two pumps' lines, in the order they were written, then how the command ended.\<close>

definition stream_cmd :: "pub_env \<Rightarrow> command \<Rightarrow> response_writer \<Rightarrow> world \<Rightarrow> string option \<times> response_writer \<times> world" where
  "stream_cmd E k r w =
     (case pu_run E k w of (res, w1) \<Rightarrow>
       (cr_err res,
        fold (\<lambda>(err, t). put_text (line ((if err then ''[stderr] '' else []) @ t))) (cr_lines res) r, w1))"

datatype pub_phase = PubMkdir | PubBuild | PubReload | PubSnapshot | PubDone

record pub_session =
  ps_phase :: pub_phase
  ps_out :: response_writer

definition pub_header :: "pub_env \<Rightarrow> deploy_config \<Rightarrow> response_writer" where
  "pub_header E c =
     put_text (line (line (''    target:     ec2-user@'' @ lightsail_ip c)))
      (put_text (line (''    sig out:    '' @ sig_out c))
       (put_text (line (''    bundle out: '' @ bundle_out c))
        (put_text (line (''==> publish started '' @ pu_started E))
          (snd (write_header 200 (set_header ''Cache-Control'' ''no-store''
            (set_header ''X-Content-Type-Options'' ''nosniff''
              (set_header ''Content-Type'' ''text/plain; charset=utf-8'' new_response))))))))"

text \<open>
  Up to the first step: a refusal, or the session that now holds the lock. The answer that streaming is not
  supported comes after the lock was taken, and gives it back.
\<close>

definition pub_gate :: "pub_env \<Rightarrow> deploy_config \<Rightarrow> bytes \<Rightarrow> bool \<Rightarrow> response_writer + pub_session" where
  "pub_gate E c req locked =
     (case pu_decode E req of
        Inl e \<Rightarrow> Inl (ui_err 400 (''invalid JSON: '' @ e))
      | Inr confirm \<Rightarrow>
          if confirm \<noteq> confirm_phrase
          then Inl (ui_err 412 (''confirm phrase must be exactly '' @ go_quote confirm_phrase))
          else if missing c \<noteq> []
          then Inl (ui_err 424 (''deploy.local.yaml is missing required fields: '' @ join '', '' (missing c)))
          else if locked then Inl (ui_err 409 ''another publish is already in progress'')
          else if \<not> pu_flusher E then Inl (ui_err 500 ''streaming not supported'')
          else Inr \<lparr>ps_phase = PubMkdir, ps_out = pub_header E c\<rparr>)"

definition go_on :: "pub_phase \<Rightarrow> string \<Rightarrow> response_writer \<Rightarrow> pub_session" where
  "go_on p t r = \<lparr>ps_phase = p, ps_out = put_text t r\<rparr>"

text \<open>One step of the handler after the gates, up to the next external command.\<close>

definition pub_advance :: "pub_env \<Rightarrow> path \<Rightarrow> deploy_config \<Rightarrow> pub_session \<Rightarrow> world \<Rightarrow> pub_session \<times> world" where
  "pub_advance E cfgdir c s w =
     (let r = ps_out s in
      case ps_phase s of
        PubMkdir \<Rightarrow> (case os_mkdir_all (path_dir (bundle_out c)) w of
            (Inl e, w1) \<Rightarrow> (go_on PubDone (line (''FAILED: mkdir bundle dir: '' @ pu_os_text E e)) r, w1)
          | (Inr _, w1) \<Rightarrow> (go_on PubBuild (line ''==> step 1/2: build-bundle'') r, w1))
      | PubBuild \<Rightarrow> (case stream_cmd E (build_command cfgdir c) r w of
            (Some e, r1, w1) \<Rightarrow> (go_on PubDone (eol # line (''FAILED at build-bundle: '' @ e)) r1, w1)
          | (None, r1, w1) \<Rightarrow> (go_on PubReload (eol # line ''==> step 2/2: reload-bundle.sh'') r1, w1))
      | PubReload \<Rightarrow> (case stream_cmd E (reload_command c) r w of
            (Some e, r1, w1) \<Rightarrow> (go_on PubDone (eol # line (''FAILED at reload-bundle: '' @ e)) r1, w1)
          | (None, r1, w1) \<Rightarrow> (\<lparr>ps_phase = PubSnapshot, ps_out = r1\<rparr>, w1))
      | PubSnapshot \<Rightarrow> (case write_snapshot c w of (res, w1) \<Rightarrow>
            (go_on PubDone (eol # line (''==> publish complete '' @ pu_finished E))
              (put_text (case res of
                  Inl e \<Rightarrow> eol # line (''[warn] failed to snapshot bundle for future diffs: '' @ pu_os_text E e)
                | Inr _ \<Rightarrow> eol # line (''==> snapshot saved to '' @ snapshot_path c)) r), w1))
      | PubDone \<Rightarrow> (s, w))"

text \<open>The handler run without interruption: the gates, then at most four steps.\<close>

definition pub_drive :: "pub_env \<Rightarrow> path \<Rightarrow> deploy_config \<Rightarrow> pub_session \<times> world \<Rightarrow> pub_session \<times> world" where
  "pub_drive E cfgdir c = ((\<lambda>(s, w). pub_advance E cfgdir c s w) ^^ 4)"

definition publish_handle :: "pub_env \<Rightarrow> path \<Rightarrow> deploy_config \<Rightarrow> bytes \<Rightarrow> bool \<Rightarrow> world \<Rightarrow> response_writer \<times> world" where
  "publish_handle E cfgdir c req locked w =
     (case pub_gate E c req locked of
        Inl r \<Rightarrow> (r, w)
      | Inr s \<Rightarrow> (case pub_drive E cfgdir c (s, w) of (s', w') \<Rightarrow> (ps_out s', w')))"

section \<open>Concurrent publishes\<close>

text \<open>
  The handlers in progress, by request number, with the mutex and the phases executed so far. Between the
  steps of a publish anything else may change the world: edits of brokers, comparisons, other programs.
\<close>

record pub_server =
  pv_locked :: bool
  pv_sessions :: "nat \<rightharpoonup> pub_session"
  pv_world :: world
  pv_trace :: "(nat \<times> pub_phase) list"

definition pub_idle :: "world \<Rightarrow> pub_server" where
  "pub_idle w = \<lparr>pv_locked = False, pv_sessions = Map.empty, pv_world = w, pv_trace = []\<rparr>"

definition pub_arrive :: "pub_env \<Rightarrow> deploy_config \<Rightarrow> nat \<Rightarrow> bytes \<Rightarrow> pub_server \<Rightarrow> pub_server" where
  "pub_arrive E c i req v =
     (case pub_gate E c req (pv_locked v) of
        Inl r \<Rightarrow> v
      | Inr s \<Rightarrow> v\<lparr>pv_locked := True, pv_sessions := (pv_sessions v)(i \<mapsto> s)\<rparr>)"

definition pub_continue :: "pub_env \<Rightarrow> path \<Rightarrow> deploy_config \<Rightarrow> nat \<Rightarrow> pub_session \<Rightarrow> pub_server \<Rightarrow> pub_server" where
  "pub_continue E cfgdir c i s v =
     (case pub_advance E cfgdir c s (pv_world v) of (s', w') \<Rightarrow>
        v\<lparr>pv_locked := (ps_phase s' \<noteq> PubDone), pv_sessions := (pv_sessions v)(i \<mapsto> s'), pv_world := w',
          pv_trace := pv_trace v @ [(i, ps_phase s)]\<rparr>)"

inductive pub_reachable :: "pub_env \<Rightarrow> path \<Rightarrow> deploy_config \<Rightarrow> pub_server \<Rightarrow> bool" for E cfgdir c where
  pub_start: "pub_reachable E cfgdir c (pub_idle w)"
| pub_request: "pub_reachable E cfgdir c v \<Longrightarrow> pv_sessions v i = None \<Longrightarrow>
    pub_reachable E cfgdir c (pub_arrive E c i req v)"
| pub_step: "pub_reachable E cfgdir c v \<Longrightarrow> pv_sessions v i = Some s \<Longrightarrow> ps_phase s \<noteq> PubDone \<Longrightarrow>
    pub_reachable E cfgdir c (pub_continue E cfgdir c i s v)"
| pub_outside: "pub_reachable E cfgdir c v \<Longrightarrow> pub_reachable E cfgdir c (v\<lparr>pv_world := w\<rparr>)"

section \<open>The comparison\<close>

text \<open>\<open>os.RemoveAll\<close>, whose error is ignored.\<close>

definition os_remove_all :: "path \<Rightarrow> world \<Rightarrow> world" where
  "os_remove_all d w = (case draw w of (f, w') \<Rightarrow>
     if f then w' else publish (\<lambda>q. if q = d \<or> prefix (d @ ''/'') q then None else files w' q) w')"

definition file_exists :: "path \<Rightarrow> world \<Rightarrow> bool \<times> world" where
  "file_exists p w = (case os_stat p w of (Inl _, w1) \<Rightarrow> (False, w1) | (Inr _, w1) \<Rightarrow> (True, w1))"

definition write_throwaway_signer :: "pub_env \<Rightarrow> path \<Rightarrow> world \<Rightarrow> (string + path) \<times> world" where
  "write_throwaway_signer E dir w =
     (let p = path_join [dir, ''throwaway.key''] in
      case pu_run E \<lparr>cmd_args = [''openssl'', ''genpkey'', ''-algorithm'', ''EC'', ''-pkeyopt'',
                        ''ec_paramgen_curve:P-256'', ''-out'', p], cmd_dir = []\<rparr> w of
        (res, w1) \<Rightarrow> ((case cr_err res of Some e \<Rightarrow> Inl (e @ '': '' @ cr_stderr res) | None \<Rightarrow> Inr p), w1))"

record diff_resp =
  dr_current :: string
  dr_previous :: string
  dr_unified :: string
  dr_previous_path :: path
  dr_no_previous :: bool

definition diff_resp_json :: "diff_resp \<Rightarrow> string" where
  "diff_resp_json d = json_object
     [(''current'', json_string True (dr_current d)), (''previous'', json_string True (dr_previous d)),
      (''unified'', json_string True (dr_unified d)), (''previous_path'', json_string True (dr_previous_path d)),
      (''no_previous'', json_bool (dr_no_previous d))]"

definition pick_signer :: "pub_env \<Rightarrow> deploy_config \<Rightarrow> path \<Rightarrow> world \<Rightarrow> (string + path) \<times> world" where
  "pick_signer E c dir w =
     (if signer_key c = [] then write_throwaway_signer E dir w
      else (case file_exists (signer_key c) w of
        (True, w1) \<Rightarrow> (Inr (signer_key c), w1)
      | (False, w1) \<Rightarrow> write_throwaway_signer E dir w1))"

text \<open>The two texts compared, once the bundle of the working tree was built into the temporary directory.\<close>

definition diff_texts :: "pub_env \<Rightarrow> deploy_config \<Rightarrow> path \<Rightarrow> world \<Rightarrow> (string + diff_resp) \<times> world" where
  "diff_texts E c tmp_bundle w =
     (case os_read_file tmp_bundle w of
        (Inl e, w1) \<Rightarrow> (Inl (''read current bundle: '' @ pu_os_text E e), w1)
      | (Inr current, w1) \<Rightarrow>
     (case os_read_file (snapshot_path c) w1 of
        (Inl NotExist, w2) \<Rightarrow> (Inr \<lparr>dr_current = current, dr_previous = [],
            dr_unified = unified_diff ''(no previous)'' ''current bundle'' [] current,
            dr_previous_path = snapshot_path c, dr_no_previous = True\<rparr>, w2)
      | (Inl e, w2) \<Rightarrow> (Inl (''read previous bundle: '' @ pu_os_text E e), w2)
      | (Inr prev, w2) \<Rightarrow> (Inr \<lparr>dr_current = current, dr_previous = prev,
            dr_unified = unified_diff ''last-published bundle.yaml'' ''current bundle.yaml'' prev current,
            dr_previous_path = snapshot_path c, dr_no_previous = False\<rparr>, w2)))"

definition diff_in :: "pub_env \<Rightarrow> path \<Rightarrow> deploy_config \<Rightarrow> path \<Rightarrow> world \<Rightarrow> (string + diff_resp) \<times> world" where
  "diff_in E cfgdir c dir w =
     (let tmp_bundle = path_join [dir, ''bundle.yaml'']; tmp_sig = path_join [dir, ''bundle.yaml.sig''] in
     (case pick_signer E c dir w of
        (Inl e, w1) \<Rightarrow> (Inl (''signer fallback: '' @ e), w1)
      | (Inr signer, w1) \<Rightarrow>
     (case pu_run E \<lparr>cmd_args = build_args cfgdir tmp_bundle tmp_sig signer, cmd_dir = proxy_repo c\<rparr> w1 of
        (res, w2) \<Rightarrow> (case cr_err res of
            Some e \<Rightarrow> (Inl (''build-bundle failed: '' @ e @ eol # cr_stderr res), w2)
          | None \<Rightarrow> diff_texts E c tmp_bundle w2))))"

definition diff_handle :: "pub_env \<Rightarrow> path \<Rightarrow> deploy_config \<Rightarrow> world \<Rightarrow> response_writer \<times> world" where
  "diff_handle E cfgdir c w =
     (case pu_mkdtemp E w of
        Inl e \<Rightarrow> (ui_err 500 (''mkdtemp: '' @ e), w)
      | Inr dir \<Rightarrow> (case diff_in E cfgdir c dir w of
          (Inl e, w1) \<Rightarrow> (ui_err 500 e, os_remove_all dir w1)
        | (Inr d, w1) \<Rightarrow> (ui_json 200 (diff_resp_json d), os_remove_all dir w1)))"

end
