(* ===== verification/AdminServer.thy ===== *)
theory AdminServer
  imports Publish
begin

text \<open>
  The admin tool as a whole: \<open>tools/admin-ui/main.go\<close> and \<open>server.go\<close>. The directory it works in is found by
  walking up from the current one, the listener has to be a loopback address, and the routes bring together
  the broker store, publishing, comparing and the handlers that ask the proxy. Whether a path is a directory,
  the listener and the file server of the built-in pages are parameters.
\<close>

section \<open>Finding the configuration\<close>

text \<open>
  \<open>st\<close> is \<open>os.Stat\<close>: an error, or whether the path is a directory. \<open>None\<close> would be a loop that does not end.
\<close>

definition candidate :: "path \<Rightarrow> path" where
  "candidate dir = path_join [dir, ''tesseract-proxy-config'']"

definition has_brokers :: "(path \<Rightarrow> string + bool) \<Rightarrow> path \<Rightarrow> bool" where
  "has_brokers st cand = (st (path_join [cand, ''brokers'']) = Inr True)"

partial_function (option) walk_up :: "(path \<Rightarrow> string + bool) \<Rightarrow> path \<Rightarrow> path \<Rightarrow> (string + path) option" where
  "walk_up st wd dir =
     (if has_brokers st (candidate dir) then Some (Inr (candidate dir))
      else if path_dir dir = dir
      then Some (Inl (''could not auto-detect tesseract-proxy-config from '' @ wd @ ''; pass --config-dir''))
      else walk_up st wd (path_dir dir))"

definition resolve_config_dir ::
    "(path \<Rightarrow> string + bool) \<Rightarrow> string + path \<Rightarrow> path \<Rightarrow> (string + path) option" where
  "resolve_config_dir st getwd explicit =
     (if explicit \<noteq> []
      then Some (case st (path_join [explicit, ''brokers'']) of
          Inl e \<Rightarrow> Inl (''brokers/ not found under '' @ explicit @ '': '' @ e)
        | Inr _ \<Rightarrow> Inr explicit)
      else (case getwd of Inl e \<Rightarrow> Some (Inl e) | Inr wd \<Rightarrow> walk_up st wd wd))"

section \<open>Routes\<close>

text \<open>
  A pattern is a method and segments, \<open>None\<close> the wildcard \<open>{name}\<close>, which takes one segment that is not empty.
  A GET pattern takes HEAD too. What no pattern takes, in whatever method, goes to the file server.
\<close>

datatype ui_endpoint = UiStore "string \<Rightarrow> bytes \<Rightarrow> store_request" | UiPublish | UiDiff | UiCheck | UiTail
  | UiRange | UiLogStat | UiLogRotate | UiHealth

type_synonym ui_pattern = "string \<times> string option list"

definition ui_routes :: "(ui_pattern \<times> ui_endpoint) list" where
  "ui_routes =
     [((''GET'', [Some ''api'', Some ''brokers'']), UiStore (\<lambda>n b. ListBrokers)),
      ((''GET'', [Some ''api'', Some ''brokers'', None]), UiStore (\<lambda>n b. GetBroker n)),
      ((''PUT'', [Some ''api'', Some ''brokers'', None]), UiStore PutBroker),
      ((''POST'', [Some ''api'', Some ''brokers'']), UiStore (\<lambda>n b. CreateBroker b)),
      ((''DELETE'', [Some ''api'', Some ''brokers'', None]), UiStore (\<lambda>n b. DeleteBroker n)),
      ((''POST'', [Some ''api'', Some ''publish'']), UiPublish),
      ((''GET'', [Some ''api'', Some ''diff'']), UiDiff),
      ((''GET'', [Some ''api'', Some ''proxy'', Some ''check'']), UiCheck),
      ((''GET'', [Some ''api'', Some ''audit'', Some ''tail'']), UiTail),
      ((''GET'', [Some ''api'', Some ''audit'', Some ''range'']), UiRange),
      ((''GET'', [Some ''api'', Some ''log'', Some ''stat'']), UiLogStat),
      ((''POST'', [Some ''api'', Some ''log'', Some ''rotate'']), UiLogRotate),
      ((''GET'', [Some ''api'', Some ''proxy'', Some ''health'']), UiHealth)]"

fun segments_match :: "string option list \<Rightarrow> string list \<Rightarrow> string option" where
  "segments_match [] [] = Some []"
| "segments_match (Some p # ps) (s # ss) = (if p = s then segments_match ps ss else None)"
| "segments_match (None # ps) (s # ss) =
     (if s = [] then None else map_option (\<lambda>_. s) (segments_match ps ss))"
| "segments_match _ _ = None"

fun ui_find :: "(ui_pattern \<times> ui_endpoint) list \<Rightarrow> string \<Rightarrow> string list \<Rightarrow> (ui_endpoint \<times> string) option" where
  "ui_find [] m segs = None"
| "ui_find (((pm, ps), e) # rs) m segs =
     (case segments_match ps segs of
        Some n \<Rightarrow> if method_matches pm m then Some (e, n) else ui_find rs m segs
      | None \<Rightarrow> ui_find rs m segs)"

datatype ui_target = UiTo ui_endpoint string | UiFiles | UiRedirect string

definition ui_route :: "string \<Rightarrow> string \<Rightarrow> ui_target" where
  "ui_route m escaped =
     (let p = mux_clean escaped in
      if p \<noteq> escaped then UiRedirect p
      else (case ui_find ui_routes m (tl (path_segments p)) of Some (e, n) \<Rightarrow> UiTo e n | None \<Rightarrow> UiFiles))"

section \<open>The server\<close>

record ui_server =
  us_cfg_dir :: path
  us_dep :: deploy_config
  us_bro :: broker_store
  us_locked :: bool

definition new_server :: "path \<Rightarrow> deploy_config \<Rightarrow> ui_server" where
  "new_server cfgdir dep = \<lparr>us_cfg_dir = cfgdir, us_dep = dep, us_bro = new_broker_store cfgdir, us_locked = False\<rparr>"

record ui_request =
  uq_method :: string
  uq_escaped :: string
  uq_raw_query :: string
  uq_last_id :: string
  uq_body :: bytes

record server_env =
  sn_store :: store_env
  sn_ui :: ui_env
  sn_pub :: pub_env
  sn_files :: "ui_request \<Rightarrow> response_writer"
  sn_redirect :: "string \<Rightarrow> ui_request \<Rightarrow> response_writer"

definition ui_serve :: "server_env \<Rightarrow> ui_request \<Rightarrow> ui_server \<Rightarrow> world \<Rightarrow> ui_reply \<times> ui_server" where
  "ui_serve V q s w =
     (let c = us_dep s; E = sn_ui V in
      case ui_route (uq_method q) (uq_escaped q) of
        UiRedirect p \<Rightarrow> (ui_answer (sn_redirect V p q) w, s)
      | UiFiles \<Rightarrow> (ui_answer (sn_files V q) w, s)
      | UiTo e n \<Rightarrow> (case e of
          UiStore rq \<Rightarrow> (case store_serve (sn_store V) (rq n (uq_body q)) (us_bro s) w of
              (r, b', w') \<Rightarrow> (ui_answer r w', s\<lparr>us_bro := b'\<rparr>))
        | UiPublish \<Rightarrow> (case publish_handle (sn_pub V) (us_cfg_dir s) c (uq_body q) (us_locked s) w of
              (r, w') \<Rightarrow> (ui_answer r w', s))
        | UiDiff \<Rightarrow> (case diff_handle (sn_pub V) (us_cfg_dir s) c w of (r, w') \<Rightarrow> (ui_answer r w', s))
        | UiCheck \<Rightarrow> (proxy_check E c w, s)
        | UiTail \<Rightarrow> (ui_tail E (uq_last_id q) c w, s)
        | UiRange \<Rightarrow> (range_hist E (uq_raw_query q) c w, s)
        | UiLogStat \<Rightarrow> (ui_log_stat E c w, s)
        | UiLogRotate \<Rightarrow> (ui_log_rotate E c w, s)
        | UiHealth \<Rightarrow> (ui_health E c w, s)))"

section \<open>Start-up\<close>

datatype net_addr = TcpAddr ip | OtherAddr

definition ip_loopback :: "ip \<Rightarrow> bool" where
  "ip_loopback i = (case to4 i of Some v \<Rightarrow> hd v = 127 | None \<Rightarrow> i = replicate 15 0 @ [1])"

definition is_loopback :: "net_addr \<Rightarrow> bool" where
  "is_loopback a = (case a of TcpAddr i \<Rightarrow> ip_loopback i | OtherAddr \<Rightarrow> False)"

record ui_flags =
  uf_port :: int
  uf_config_dir :: path
  uf_no_browser :: bool

definition default_ui_flags :: ui_flags where
  "default_ui_flags = \<lparr>uf_port = 47821, uf_config_dir = [], uf_no_browser = False\<rparr>"

text \<open>How \<open>main\<close> goes on: it exits with a fatal message, or serves; the warnings it logs come with the server.\<close>

datatype ui_exit = FatalConfigDir string | FatalBind string | FatalNotLoopback | FatalDeploy deploy_err
  | UiServing net_addr ui_server "string list" "string list"

definition listen_addr :: "ui_flags \<Rightarrow> string" where
  "listen_addr f = ''127.0.0.1:'' @ int_str (uf_port f)"

definition ui_main ::
    "(path \<Rightarrow> string + bool) \<Rightarrow> string + path \<Rightarrow> (string \<Rightarrow> string + net_addr) \<Rightarrow> (bytes \<Rightarrow> string + deploy_config)
     \<Rightarrow> ui_flags \<Rightarrow> world \<Rightarrow> (ui_exit \<times> world) option" where
  "ui_main st getwd listen unmarshal f w =
     (case resolve_config_dir st getwd (uf_config_dir f) of
        None \<Rightarrow> None
      | Some (Inl e) \<Rightarrow> Some (FatalConfigDir e, w)
      | Some (Inr cfgdir) \<Rightarrow>
     (case listen (listen_addr f) of
        Inl e \<Rightarrow> Some (FatalBind e, w)
      | Inr a \<Rightarrow>
          if \<not> is_loopback a then Some (FatalNotLoopback, w)
          else (case load_deploy_config unmarshal cfgdir w of
            (Inl e, w1) \<Rightarrow> Some (FatalDeploy e, w1)
          | (Inr dep, w1) \<Rightarrow> (case mtls_missing dep w1 of (m, w2) \<Rightarrow>
              Some (UiServing a (new_server cfgdir dep) (missing dep) m, w2)))))"

end
