(* ===== verification/AdminServerFacts.thy ===== *)
theory AdminServerFacts
  imports AdminServer AdminFacts
begin

text \<open>
  What holds of the admin tool around the broker store: its search for the configuration ends, it serves on
  loopback only, publishes exclude each other and always give the lock back, and the proxy's answers
  reach the browser as they are.
\<close>

section \<open>Finding the configuration\<close>

text \<open>The directory \<open>k\<close> steps up.\<close>

definition ancestor :: "path \<Rightarrow> nat \<Rightarrow> path" where "ancestor wd k = (path_dir ^^ k) wd"

text \<open>What a search from the \<open>k\<close>-th ancestor on answers.\<close>

definition found_from :: "(path \<Rightarrow> string + bool) \<Rightarrow> path \<Rightarrow> nat \<Rightarrow> string + path \<Rightarrow> bool" where
  "found_from st wd k r =
     (case r of
        Inr d \<Rightarrow> (\<exists>j\<ge>k. d = candidate (ancestor wd j) \<and> has_brokers st d
                   \<and> (\<forall>i. k \<le> i \<longrightarrow> i < j \<longrightarrow> \<not> has_brokers st (candidate (ancestor wd i))))
      | Inl e \<Rightarrow> (\<forall>i\<ge>k. \<not> has_brokers st (candidate (ancestor wd i))))"

lemma ancestor_Suc: "ancestor wd (Suc k) = path_dir (ancestor wd k)"
  by (simp add: ancestor_def)

lemma ancestor_fixed: "path_dir (ancestor wd k) = ancestor wd k \<Longrightarrow> k \<le> i \<Longrightarrow> ancestor wd i = ancestor wd k"
  by (induction i) (auto simp: le_Suc_eq ancestor_Suc)

lemma found_here: "has_brokers st (candidate (ancestor wd k)) \<Longrightarrow> found_from st wd k (Inr (candidate (ancestor wd k)))"
  by (auto simp: found_from_def intro: exI [of _ k])

lemma found_later:
  assumes "\<not> has_brokers st (candidate (ancestor wd k))" and "found_from st wd (Suc k) r"
  shows "found_from st wd k r"
proof -
  have k: "k \<le> i \<longleftrightarrow> i = k \<or> Suc k \<le> i" for i by auto
  show ?thesis
  proof (cases r)
    case (Inl e)
    with assms show ?thesis by (auto simp: found_from_def k)
  next
    case (Inr d)
    with assms(2) obtain j where "Suc k \<le> j" "d = candidate (ancestor wd j)" "has_brokers st d"
        "\<forall>i. Suc k \<le> i \<longrightarrow> i < j \<longrightarrow> \<not> has_brokers st (candidate (ancestor wd i))"
      by (auto simp: found_from_def)
    with assms(1) Inr show ?thesis by (auto simp: found_from_def k intro!: exI [of _ j])
  qed
qed

lemma walk_up_here:
  "has_brokers st (candidate d) \<Longrightarrow> walk_up st wd d = Some (Inr (candidate d))"
  by (subst walk_up.simps) simp

lemma walk_up_top:
  "\<not> has_brokers st (candidate d) \<Longrightarrow> path_dir d = d \<Longrightarrow> \<exists>e. walk_up st wd d = Some (Inl e)"
  by (subst walk_up.simps) simp

lemma walk_up_parent:
  "\<not> has_brokers st (candidate d) \<Longrightarrow> path_dir d \<noteq> d \<Longrightarrow> walk_up st wd d = walk_up st wd (path_dir d)"
  by (subst walk_up.simps) simp

lemma walk_up_fixed:
  assumes "path_dir (ancestor wd k) = ancestor wd k"
  shows "\<exists>r. walk_up st wd (ancestor wd k) = Some r \<and> found_from st wd k r"
proof (cases "has_brokers st (candidate (ancestor wd k))")
  case True
  then show ?thesis using walk_up_here found_here by blast
next
  case False
  obtain e where "walk_up st wd (ancestor wd k) = Some (Inl e)" using walk_up_top [OF False assms] by blast
  moreover have "found_from st wd k (Inl e)"
    unfolding found_from_def sum.case using False ancestor_fixed [OF assms] by metis
  ultimately show ?thesis by blast
qed

lemma walk_up_next:
  assumes "\<exists>r. walk_up st wd (ancestor wd (Suc k)) = Some r \<and> found_from st wd (Suc k) r"
  shows "\<exists>r. walk_up st wd (ancestor wd k) = Some r \<and> found_from st wd k r"
proof (cases "path_dir (ancestor wd k) = ancestor wd k")
  case True
  then show ?thesis by (rule walk_up_fixed)
next
  case up: False
  show ?thesis
  proof (cases "has_brokers st (candidate (ancestor wd k))")
    case True
    then show ?thesis using walk_up_here found_here by blast
  next
    case False
    with assms walk_up_parent [OF False up, of wd] found_later [OF False] show ?thesis
      by (auto simp: ancestor_Suc)
  qed
qed

lemma walk_up_returns: "\<exists>r. walk_up st wd (ancestor wd k) = Some r \<and> found_from st wd k r"
proof (induction "length (ancestor wd k)" arbitrary: k rule: less_induct)
  case less
  show ?case
  proof (rule walk_up_next)
    consider "length (ancestor wd (Suc k)) < length (ancestor wd k)"
      | "path_dir (ancestor wd (Suc k)) = ancestor wd (Suc k)"
      using path_dir_cases [of "ancestor wd k"] path_dir_roots unfolding ancestor_Suc by metis
    then show "\<exists>r. walk_up st wd (ancestor wd (Suc k)) = Some r \<and> found_from st wd (Suc k) r"
      using less.hyps walk_up_fixed by cases blast+
  qed
qed

text \<open>
  C18: The search for the configuration directory ends, from any working directory, absolute or relative,
  and whatever the file system holds: it answers the nearest ancestor's \<open>tesseract-proxy-config\<close> that has a
  directory \<open>brokers\<close>, or the error if no ancestor has one.
\<close>

theorem config_dir_found:
  "\<exists>r. resolve_config_dir st (Inr wd) [] = Some r \<and>
     (case r of
        Inr d \<Rightarrow> (\<exists>k. d = candidate ((path_dir ^^ k) wd) \<and> has_brokers st d
                   \<and> (\<forall>j. j < k \<longrightarrow> \<not> has_brokers st (candidate ((path_dir ^^ j) wd))))
      | Inl e \<Rightarrow> \<forall>k. \<not> has_brokers st (candidate ((path_dir ^^ k) wd)))"
proof -
  obtain r where "walk_up st wd wd = Some r" "found_from st wd 0 r"
    using walk_up_returns [of st wd 0] by (auto simp: ancestor_def)
  then show ?thesis
    by (auto simp: resolve_config_dir_def found_from_def ancestor_def split: sum.splits)
qed

section \<open>Publishes exclude each other\<close>

definition running :: "pub_server \<Rightarrow> nat \<Rightarrow> bool" where
  "running v i = (\<exists>s. pv_sessions v i = Some s \<and> ps_phase s \<noteq> PubDone)"

text \<open>The phase before one, and traces in which every phase directly follows the one before it of the same publish.\<close>

fun before :: "pub_phase \<Rightarrow> pub_phase option" where
  "before PubMkdir = None"
| "before PubBuild = Some PubMkdir"
| "before PubReload = Some PubBuild"
| "before PubSnapshot = Some PubReload"
| "before PubDone = None"

definition follows :: "(nat \<times> pub_phase) list \<Rightarrow> nat \<Rightarrow> pub_phase \<Rightarrow> bool" where
  "follows tr i p = (case before p of None \<Rightarrow> True | Some q \<Rightarrow> tr \<noteq> [] \<and> last tr = (i, q))"

definition orderly :: "(nat \<times> pub_phase) list \<Rightarrow> bool" where
  "orderly tr = (\<forall>k < length tr. follows (take k tr) (fst (tr ! k)) (snd (tr ! k)))"

lemma orderly_snoc: "orderly tr \<Longrightarrow> follows tr i p \<Longrightarrow> orderly (tr @ [(i, p)])"
  by (auto simp: orderly_def nth_append less_Suc_eq)

definition pub_inv :: "pub_server \<Rightarrow> bool" where
  "pub_inv v = ((pv_locked v \<longleftrightarrow> (\<exists>i. running v i))
     \<and> (\<forall>i j. running v i \<longrightarrow> running v j \<longrightarrow> i = j)
     \<and> (\<forall>i s. pv_sessions v i = Some s \<longrightarrow> ps_phase s \<noteq> PubDone \<longrightarrow> follows (pv_trace v) i (ps_phase s))
     \<and> orderly (pv_trace v))"

lemma gate_phase: "pub_gate E c b locked = Inr s \<Longrightarrow> \<not> locked \<and> ps_phase s = PubMkdir"
  by (auto simp: pub_gate_def split: sum.splits if_splits)

text \<open>A step goes to the next phase or to the end.\<close>

lemma advance_phase:
  assumes "pub_advance E d c s w = (s', w')" and "ps_phase s \<noteq> PubDone"
  shows "ps_phase s' = PubDone \<or> before (ps_phase s') = Some (ps_phase s)"
  using assms
  by (cases "ps_phase s") (auto simp: pub_advance_def go_on_def Let_def split: prod.splits sum.splits option.splits)

lemma request_inv:
  assumes "pub_inv v" and "pv_sessions v i = None"
  shows "pub_inv (pub_arrive E c i b v)"
proof (cases "pub_gate E c b (pv_locked v)")
  case (Inr s)
  from gate_phase [OF Inr] assms have n: "\<not> running v j" for j by (auto simp: pub_inv_def)
  let ?v = "pub_arrive E c i b v"
  have "running ?v j \<longleftrightarrow> j = i" for j
    using n [of j] gate_phase [OF Inr] Inr by (auto simp: running_def pub_arrive_def)
  then show ?thesis using assms(1) n gate_phase [OF Inr] Inr
    by (auto simp: pub_inv_def pub_arrive_def follows_def running_def)
qed (use assms in \<open>simp add: pub_arrive_def\<close>)

lemma continue_inv:
  assumes "pub_inv v" and "pv_sessions v i = Some s" and "ps_phase s \<noteq> PubDone"
  shows "pub_inv (pub_continue E d c i s v)"
proof -
  obtain s' w' where a: "pub_advance E d c s (pv_world v) = (s', w')" by fastforce
  let ?v = "pub_continue E d c i s v"
  have v: "pv_sessions ?v = (pv_sessions v)(i \<mapsto> s')" "pv_locked ?v \<longleftrightarrow> ps_phase s' \<noteq> PubDone"
      "pv_trace ?v = pv_trace v @ [(i, ps_phase s)]"
    by (simp_all add: pub_continue_def a)
  have i: "running v i" using assms by (simp add: running_def)
  with assms(1) have "\<not> running v j" if "j \<noteq> i" for j using that by (auto simp: pub_inv_def)
  then have r: "running ?v j \<longleftrightarrow> j = i \<and> ps_phase s' \<noteq> PubDone" for j
    by (auto simp: running_def v)
  have "follows (pv_trace ?v) j (ps_phase x)" if "pv_sessions ?v j = Some x" "ps_phase x \<noteq> PubDone" for j x
  proof -
    from that r [of j] have "j = i" "x = s'" by (auto simp: running_def v)
    with that advance_phase [OF a assms(3)] show ?thesis by (auto simp: follows_def v)
  qed
  moreover have "orderly (pv_trace ?v)"
    using assms orderly_snoc by (auto simp: pub_inv_def v)
  ultimately show ?thesis using r by (auto simp: pub_inv_def v)
qed

lemma reachable_inv: "pub_reachable E d c v \<Longrightarrow> pub_inv v"
proof (induction rule: pub_reachable.induct)
  case (pub_start w)
  show ?case by (simp add: pub_inv_def pub_idle_def running_def orderly_def)
next
  case (pub_outside v w)
  then show ?case by (simp add: pub_inv_def running_def)
qed (simp_all add: request_inv continue_inv)

text \<open>
  C16: However requests to publish and everything else that changes the world interleave, at most one
  publish is in progress and the lock is held exactly then; the steps that were executed follow
  each other publish by publish: every build directly follows the preparation of the same request, every
  reload a build of the same request, every snapshot a reload of the same request.
\<close>

theorem publish_exclusive:
  assumes "pub_reachable E cfgdir c v"
  shows "(\<forall>i j. running v i \<longrightarrow> running v j \<longrightarrow> i = j) \<and> (pv_locked v \<longleftrightarrow> (\<exists>i. running v i)) \<and> orderly (pv_trace v)"
  using reachable_inv [OF assms] by (simp add: pub_inv_def)

section \<open>The lock is given back\<close>

fun steps_left :: "pub_phase \<Rightarrow> nat" where
  "steps_left PubMkdir = 4" | "steps_left PubBuild = 3" | "steps_left PubReload = 2"
| "steps_left PubSnapshot = 1" | "steps_left PubDone = 0"

text \<open>Letting the publish \<open>i\<close> run \<open>n\<close> steps.\<close>

definition let_run :: "pub_env \<Rightarrow> path \<Rightarrow> deploy_config \<Rightarrow> nat \<Rightarrow> pub_server \<Rightarrow> pub_server" where
  "let_run E d c i v =
     (case pv_sessions v i of Some s \<Rightarrow> if ps_phase s = PubDone then v else pub_continue E d c i s v | None \<Rightarrow> v)"

lemma let_run_reachable: "pub_reachable E d c v \<Longrightarrow> pub_reachable E d c (let_run E d c i v)"
  by (auto simp: let_run_def split: option.splits intro: pub_step)

lemma let_run_finishes:
  assumes "pv_sessions v i = Some s" and "steps_left (ps_phase s) \<le> n"
  shows "\<exists>s'. pv_sessions ((let_run E d c i ^^ n) v) i = Some s' \<and> ps_phase s' = PubDone"
  using assms
proof (induction n arbitrary: v s)
  case 0
  then show ?case by (cases "ps_phase s") auto
next
  case (Suc n)
  obtain s' w' where a: "pub_advance E d c s (pv_world v) = (s', w')" by fastforce
  have "\<exists>x. pv_sessions (let_run E d c i v) i = Some x \<and> steps_left (ps_phase x) \<le> n"
  proof (cases "ps_phase s = PubDone")
    case False
    then have "pv_sessions (let_run E d c i v) i = Some s'"
      using Suc.prems(1) by (simp add: let_run_def pub_continue_def a)
    moreover have "steps_left (ps_phase s') \<le> n"
      using advance_phase [OF a False] Suc.prems(2) by (cases "ps_phase s"; cases "ps_phase s'") auto
    ultimately show ?thesis by blast
  qed (use Suc.prems in \<open>simp add: let_run_def\<close>)
  with Suc.IH show ?case unfolding funpow_Suc_right comp_apply by blast
qed

lemma only_running:
  "(\<And>j. running v j \<Longrightarrow> j = i) \<Longrightarrow> running ((let_run E d c i ^^ n) v) j \<Longrightarrow> j = i"
proof (induction n arbitrary: j)
  case (Suc n)
  then show ?case
    by (auto simp: let_run_def pub_continue_def running_def split: option.splits prod.splits if_splits)
qed simp

lemma publish_alone: "pub_reachable E d c v \<Longrightarrow> running v i \<Longrightarrow> running v j \<Longrightarrow> j = i"
  using reachable_inv by (auto simp: pub_inv_def)

text \<open>
  C17: From every state the publish requests can reach, whatever the commands did and whichever calls fail,
  the publish in progress ends after at most four of its own steps, and then the lock is free: the next
  confirmed request to a complete configuration starts.
\<close>

theorem publish_lock_released:
  assumes "pub_reachable E cfgdir c v" and "running v i"
  defines "v' \<equiv> (let_run E cfgdir c i ^^ 4) v"
  shows "pub_reachable E cfgdir c v' \<and> \<not> pv_locked v'
     \<and> (\<forall>k b. pu_decode E b = Inr confirm_phrase \<and> missing c = [] \<and> pu_flusher E \<and> pv_sessions v' k = None
          \<longrightarrow> running (pub_arrive E c k b v') k)"
proof -
  have r: "pub_reachable E cfgdir c ((let_run E cfgdir c i ^^ n) v)" for n
    by (induction n) (simp_all add: assms(1) let_run_reachable)
  obtain s where s: "pv_sessions v i = Some s" using assms(2) by (auto simp: running_def)
  have "steps_left (ps_phase s) \<le> 4" by (cases "ps_phase s") simp_all
  from let_run_finishes [OF s this, of E cfgdir c] have "\<not> running v' i" by (auto simp: running_def v'_def)
  moreover have "running v' j \<Longrightarrow> j = i" for j
    using only_running [of v i 4 E cfgdir c] publish_alone [OF assms(1,2)] by (auto simp: v'_def)
  ultimately have free: "\<not> pv_locked v'"
    using reachable_inv [OF r [of 4]] by (auto simp: pub_inv_def v'_def)
  then have "running (pub_arrive E c k b v') k"
    if "pu_decode E b = Inr confirm_phrase" "missing c = []" "pu_flusher E" for k b
    using that by (simp add: pub_arrive_def pub_gate_def running_def)
  with free r show ?thesis by (simp add: v'_def)
qed

section \<open>The snapshot is what was published\<close>

lemma gate_refusal: "pub_gate E c b locked = Inl r \<Longrightarrow> status_of r \<in> {Some 400, Some 412, Some 424, Some 409, Some 500}"
  by (auto simp: pub_gate_def ui_err_def ui_json_def split: sum.splits if_splits)

lemma snapshot_not_tmp: "snapshot_tmp c \<noteq> snapshot_path c"
  by (simp add: snapshot_tmp_def)

lemma write_snapshot_effect:
  assumes "write_snapshot c w = (r, w')"
  shows "content_of w' (snapshot_path c) = content_of w (snapshot_path c)
     \<or> content_of w' (snapshot_path c) = content_of w (bundle_out c)"
proof -
  obtain x w1 where rd: "os_read_file (bundle_out c) w = (x, w1)" by fastforce
  note f1 = reads_frame(1) [OF rd]
  show ?thesis
  proof (cases x)
    case (Inl e)
    with assms rd f1 show ?thesis by (simp add: write_snapshot_def content_of_def)
  next
    case (Inr src)
    with rd have src: "content_of w (bundle_out c) = Some src" by (auto dest: os_read_file_ok)
    obtain y w2 where wr: "os_write_file (snapshot_tmp c) src 420 w1 = (y, w2)" by fastforce
    note f2 = os_write_file_frame [OF wr snapshot_not_tmp [symmetric]]
    show ?thesis
    proof (cases y)
      case (Inl e)
      with assms rd Inr wr f1 f2 show ?thesis by (simp add: write_snapshot_def content_of_def)
    next
      case y: (Inr u)
      with assms rd Inr wr have rn: "os_rename (snapshot_tmp c) (snapshot_path c) w2 = (r, w')"
        by (simp add: write_snapshot_def)
      show ?thesis
      proof (cases r)
        case (Inl e)
        with rn have "files w' = files w2" by (auto dest: os_rename_err)
        with f1 f2 show ?thesis by (simp add: content_of_def)
      next
        case (Inr v)
        with rn obtain fl where "files w2 (snapshot_tmp c) = Some fl" "files w' (snapshot_path c) = Some fl"
          by (auto dest: os_rename_ok)
        with wr y os_write_file_ok [of "snapshot_tmp c" src 420 w1 u w2]
        have "content_of w' (snapshot_path c) = Some src" by (simp add: content_of_def)
        with src show ?thesis by simp
      qed
    qed
  qed
qed

text \<open>Commands that leave the snapshot alone, and a publish whose two commands succeeded.\<close>

definition spares :: "pub_env \<Rightarrow> path \<Rightarrow> bool" where
  "spares E p = (\<forall>k w. files (snd (pu_run E k w)) p = files w p)"

definition both_succeed :: "pub_env \<Rightarrow> path \<Rightarrow> deploy_config \<Rightarrow> world \<Rightarrow> world \<Rightarrow> bool" where
  "both_succeed E cfgdir c w w3 =
     (\<exists>w1 b w2 l. files w1 = files w \<and> pu_run E (build_command cfgdir c) w1 = (b, w2) \<and> cr_err b = None
        \<and> pu_run E (reload_command c) w2 = (l, w3) \<and> cr_err l = None)"

lemma stream_world: "stream_cmd E k r w = (e, r', w') \<Longrightarrow> \<exists>res. pu_run E k w = (res, w') \<and> e = cr_err res"
  by (auto simp: stream_cmd_def split: prod.splits)

lemma advance_done: "ps_phase s = PubDone \<Longrightarrow> ((\<lambda>(s, w). pub_advance E d c s w) ^^ n) (s, w) = (s, w)"
  by (induction n) (simp_all add: pub_advance_def Let_def)

lemma drive_from_snapshot:
  assumes "((\<lambda>(s, w). pub_advance E d c s w) ^^ Suc n) (s, w) = (s', w')" and "ps_phase s = PubSnapshot"
  shows "\<exists>r. write_snapshot c w = (r, w')"
proof -
  obtain r w1 where ws: "write_snapshot c w = (r, w1)" by fastforce
  obtain s1 where "pub_advance E d c s w = (s1, w1)" "ps_phase s1 = PubDone"
    using assms(2) ws by (simp add: pub_advance_def go_on_def Let_def)
  with assms(1) advance_done [of s1 n E d c w1] ws show ?thesis by (simp add: funpow_Suc_right del: funpow.simps)
qed

lemma drive_from_reload:
  assumes run: "((\<lambda>(s, w). pub_advance E d c s w) ^^ Suc (Suc n)) (s, w) = (s', w')" and p: "ps_phase s = PubReload"
  shows "\<exists>l w3. pu_run E (reload_command c) w = (l, w3)
     \<and> (w' = w3 \<or> cr_err l = None \<and> (\<exists>r. write_snapshot c w3 = (r, w')))"
proof -
  obtain e r1 w3 where st: "stream_cmd E (reload_command c) (ps_out s) w = (e, r1, w3)" by (metis prod_cases3)
  from stream_world [OF st] obtain l where l: "pu_run E (reload_command c) w = (l, w3)" "e = cr_err l" by blast
  show ?thesis
  proof (cases e)
    case (Some m)
    then obtain s1 where "pub_advance E d c s w = (s1, w3)" "ps_phase s1 = PubDone"
      using p st by (simp add: pub_advance_def go_on_def Let_def)
    with run advance_done [of s1 "Suc n" E d c w3] l show ?thesis by (simp add: funpow_Suc_right del: funpow.simps)
  next
    case None
    then obtain s1 where a: "pub_advance E d c s w = (s1, w3)" "ps_phase s1 = PubSnapshot"
      using p st by (simp add: pub_advance_def go_on_def Let_def)
    with run have "((\<lambda>(s, w). pub_advance E d c s w) ^^ Suc n) (s1, w3) = (s', w')"
      by (simp add: funpow_Suc_right del: funpow.simps)
    from drive_from_snapshot [OF this a(2)] l None show ?thesis by simp
  qed
qed

lemma drive_from_build:
  assumes run: "((\<lambda>(s, w). pub_advance E d c s w) ^^ Suc (Suc (Suc n))) (s, w) = (s', w')" and p: "ps_phase s = PubBuild"
  shows "\<exists>b w2. pu_run E (build_command d c) w = (b, w2)
     \<and> (w' = w2 \<or> cr_err b = None \<and> (\<exists>l w3. pu_run E (reload_command c) w2 = (l, w3)
          \<and> (w' = w3 \<or> cr_err l = None \<and> (\<exists>r. write_snapshot c w3 = (r, w')))))"
proof -
  obtain e r1 w2 where st: "stream_cmd E (build_command d c) (ps_out s) w = (e, r1, w2)" by (metis prod_cases3)
  from stream_world [OF st] obtain b where b: "pu_run E (build_command d c) w = (b, w2)" "e = cr_err b" by blast
  show ?thesis
  proof (cases e)
    case (Some m)
    then obtain s1 where "pub_advance E d c s w = (s1, w2)" "ps_phase s1 = PubDone"
      using p st by (simp add: pub_advance_def go_on_def Let_def)
    with run advance_done [of s1 "Suc (Suc n)" E d c w2] b show ?thesis by (simp add: funpow_Suc_right del: funpow.simps)
  next
    case None
    then obtain s1 where a: "pub_advance E d c s w = (s1, w2)" "ps_phase s1 = PubReload"
      using p st by (simp add: pub_advance_def go_on_def Let_def)
    with run have "((\<lambda>(s, w). pub_advance E d c s w) ^^ Suc (Suc n)) (s1, w2) = (s', w')"
      by (simp add: funpow_Suc_right del: funpow.simps)
    from drive_from_reload [OF this a(2)] b None show ?thesis by auto
  qed
qed

lemma mkdir_frame: "os_mkdir_all p w = (r, w') \<Longrightarrow> files w' = files w"
  by (cases w rule: draw_cases) (auto simp: os_mkdir_all_def)

lemma drive_all:
  assumes run: "pub_drive E d c (s, w) = (s', w')" and p: "ps_phase s = PubMkdir"
  shows "files w' = files w \<or> (\<exists>w1 b w2. files w1 = files w \<and> pu_run E (build_command d c) w1 = (b, w2)
     \<and> (w' = w2 \<or> cr_err b = None \<and> (\<exists>l w3. pu_run E (reload_command c) w2 = (l, w3)
          \<and> (w' = w3 \<or> cr_err l = None \<and> (\<exists>r. write_snapshot c w3 = (r, w'))))))"
proof -
  have four: "pub_drive E d c = (\<lambda>(s, w). pub_advance E d c s w) ^^ Suc (Suc (Suc (Suc 0)))"
    unfolding pub_drive_def by (rule arg_cong [of 4 "Suc (Suc (Suc (Suc 0)))"]) simp
  obtain x w1 where mk: "os_mkdir_all (path_dir (bundle_out c)) w = (x, w1)" by fastforce
  note f1 = mkdir_frame [OF mk]
  show ?thesis
  proof (cases x)
    case (Inl e)
    then obtain s1 where "pub_advance E d c s w = (s1, w1)" "ps_phase s1 = PubDone"
      using p mk by (simp add: pub_advance_def go_on_def Let_def)
    with run advance_done [of s1 "Suc (Suc (Suc 0))" E d c w1] f1 show ?thesis
      unfolding four by (simp add: funpow_Suc_right del: funpow.simps)
  next
    case (Inr u)
    then obtain s1 where a: "pub_advance E d c s w = (s1, w1)" "ps_phase s1 = PubBuild"
      using p mk by (simp add: pub_advance_def go_on_def Let_def)
    with run have "((\<lambda>(s, w). pub_advance E d c s w) ^^ Suc (Suc (Suc 0))) (s1, w1) = (s', w')"
      unfolding four by (simp add: funpow_Suc_right del: funpow.simps)
    from drive_from_build [OF this a(2)] f1 show ?thesis by blast
  qed
qed

text \<open>
  C19: A publish request that is refused (no JSON, wrong phrase, incomplete configuration, another publish in
  progress, no streaming) runs nothing and changes nothing. Otherwise the snapshot that later comparisons
  start from stays as it was unless both the build and the reload succeeded, and then it is exactly the
  bundle the reload has sent; so a failed publish never moves it.
\<close>

theorem snapshot_is_published:
  assumes "publish_handle E cfgdir c req locked w = (r, w')" and "spares E (snapshot_path c)"
  shows "(w' = w \<and> status_of r \<in> {Some 400, Some 412, Some 424, Some 409, Some 500})
     \<or> (pu_decode E req = Inr ''DEPLOY'' \<and> missing c = [] \<and> \<not> locked
        \<and> (content_of w' (snapshot_path c) = content_of w (snapshot_path c)
            \<or> (\<exists>w3. both_succeed E cfgdir c w w3 \<and> content_of w' (snapshot_path c) = content_of w3 (bundle_out c))))"
proof (cases "pub_gate E c req locked")
  case (Inl r')
  with assms(1) gate_refusal [OF Inl] show ?thesis by (simp add: publish_handle_def)
next
  case (Inr s)
  obtain s' where "pub_drive E cfgdir c (s, w) = (s', w')"
    using assms(1) Inr by (auto simp: publish_handle_def split: prod.splits)
  note drive = drive_all [OF this]
  have open_gate: "pu_decode E req = Inr ''DEPLOY''" "missing c = []" "\<not> locked"
    using Inr by (auto simp: pub_gate_def confirm_phrase_def split: sum.splits if_splits)
  have keep: "content_of w2 (snapshot_path c) = content_of w1 (snapshot_path c)" if "pu_run E k w1 = (x, w2)" for k w1 x w2
    using assms(2) that unfolding spares_def content_of_def by (metis snd_conv)
  from drive gate_phase [OF Inr] consider "files w' = files w"
    | w1 b where "files w1 = files w" "pu_run E (build_command cfgdir c) w1 = (b, w')"
    | w1 b w2 l where "files w1 = files w" "pu_run E (build_command cfgdir c) w1 = (b, w2)" "pu_run E (reload_command c) w2 = (l, w')"
    | w3 x where "both_succeed E cfgdir c w w3" "content_of w3 (snapshot_path c) = content_of w (snapshot_path c)"
        "write_snapshot c w3 = (x, w')"
    unfolding both_succeed_def using keep by (metis content_of_def)
  then have "content_of w' (snapshot_path c) = content_of w (snapshot_path c)
      \<or> (\<exists>w3. both_succeed E cfgdir c w w3 \<and> content_of w' (snapshot_path c) = content_of w3 (bundle_out c))"
  proof cases
    case 4
    with write_snapshot_effect [OF 4(3)] show ?thesis by auto
  qed (use keep in \<open>auto simp: content_of_def\<close>)
  with open_gate show ?thesis by simp
qed

section \<open>Start-up\<close>

lemma path_join_name_nonempty: "n \<noteq> [] \<Longrightarrow> path_join (d # n # ns) \<noteq> []"
  by (simp add: path_join_def path_clean_nonempty Let_def)

lemma def_str_join: "n \<noteq> [] \<Longrightarrow> [] \<noteq> def_str t (path_join (d # n # ns))"
  using path_join_name_nonempty [of n d ns] by (simp add: def_str_def)

text \<open>A configuration in which everything is set that has a default.\<close>

definition filled_in :: "deploy_config \<Rightarrow> bool" where
  "filled_in c = ([] \<notin> set [proxy_repo c, reload_script c, pub_key c, bundle_out c, sig_out c, dep_cert c, dep_key c, dep_ca c]
     \<and> proxy_port c \<noteq> 0)"

lemma defaults_filled: "filled_in (fill_defaults cfgdir c)"
  by (simp add: filled_in_def fill_defaults_def def_str_join Let_def)

lemma load_deploy_filled:
  "load_deploy_config unmarshal cfgdir w = (Inr c, w') \<Longrightarrow> filled_in c \<and> files w' = files w"
  by (auto simp: load_deploy_config_def Let_def defaults_filled split: prod.splits sum.splits os_err.splits
      dest: reads_frame(1))

lemma unreadable_frame: "unreadable fs w = (m, w') \<Longrightarrow> files w' = files w"
proof (induction fs w arbitrary: m w' rule: unreadable.induct)
  case (2 n p fs w)
  obtain x w1 where st: "os_stat p w = (x, w1)" by fastforce
  obtain m0 w0 where 0: "unreadable fs w = (m0, w0)" by fastforce
  obtain m1 w2 where 1: "unreadable fs w1 = (m1, w2)" by fastforce
  show ?case
  proof (cases "p = []")
    case True
    with "2.prems" "2.IH"(1) [OF True 0] 0 show ?thesis by simp
  next
    case False
    with "2.prems" st 1 have w': "w' = w2" by (auto split: sum.splits)
    have "files w2 = files w1"
    proof (cases x)
      case (Inl e)
      show ?thesis by (rule "2.IH"(2) [OF False st [symmetric] Inl 1])
    next
      case (Inr u)
      show ?thesis by (rule "2.IH"(3) [OF False st [symmetric] Inr 1])
    qed
    with reads_frame(2) [OF st] w' show ?thesis by simp
  qed
qed simp

lemma mtls_missing_frame: "mtls_missing c w = (m, w') \<Longrightarrow> files w' = files w"
  by (auto simp: mtls_missing_def simp del: unreadable.simps split: prod.splits dest: unreadable_frame)


section \<open>Answers of the proxy\<close>

text \<open>A response of the proxy as the client of the tool gets it.\<close>

definition upstream_of :: "response_writer \<Rightarrow> upstream" where
  "upstream_of rw = (case rw_sent rw of
     Some (code, h) \<Rightarrow> \<lparr>up_status = code, up_header = h, up_body = Whole (rw_body rw)\<rparr>
   | None \<Rightarrow> \<lparr>up_status = 200, up_header = rw_header rw, up_body = Whole (rw_body rw)\<rparr>)"

text \<open>The tool reaches the admin plane: what it sends to the proxy's URL is served there.\<close>

definition reaches :: "ui_env \<Rightarrow> proxy_client \<Rightarrow> string \<Rightarrow> string \<Rightarrow> response_writer \<Rightarrow> bool" where
  "reaches E pc method path rw =
     (ui_bad_url E (pc_base pc @ path) = None
      \<and> ui_do E (pc_chain pc) method (pc_base pc @ path) [] = Inr (upstream_of rw))"

lemma mirror_open:
  assumes "200 \<le> up_status u" and "up_status u \<le> 999" and "body_allowed (up_status u)" and "up_body u = Whole b"
  shows "\<exists>r h. mirror u = (False, r) \<and> rw_sent r = Some (up_status u, h) \<and> rw_body r = b
     \<and> header_get h ''Content-Type'' = header_get (up_header u) ''Content-Type''"
proof -
  have ck: "canonical_key ''Content-Type'' = ''Content-Type''" by code_simp
  show ?thesis
    using assms
    by (auto simp: mirror_def write_header_def write_body_def set_header_def new_response_def header_set_def
        header_get_def Let_def ck split: option.splits list.splits)
qed

text \<open>
  The handlers of the tool that ask the proxy are transparent: when the client can be built and the proxy
  answers the request with a response of its own (any status from 200 with a body), the browser gets the same
  status, content type and body, refusals of the admin plane included, and no file changes.
\<close>

theorem ui_shows_admin_answer:
  assumes "new_proxy_client E c w = (Inr pc, w1)" and "reaches E pc method path rw"
    and "rw_sent rw = Some (code, h)" and "200 \<le> code" and "code \<le> 999" and "body_allowed code"
  shows "\<exists>r h'. passthrough E method path c w = (False, r, w1) \<and> rw_sent r = Some (code, h')
     \<and> rw_body r = rw_body rw \<and> header_get h' ''Content-Type'' = header_get h ''Content-Type'' \<and> files w1 = files w"
proof -
  have "files w1 = files w"
    using assms(1) by (auto simp: new_proxy_client_def split: prod.splits sum.splits if_splits
        dest!: mtls_missing_frame reads_frame(1))
  moreover have "upstream_of rw = \<lparr>up_status = code, up_header = h, up_body = Whole (rw_body rw)\<rparr>"
    using assms(3) by (simp add: upstream_of_def)
  moreover obtain r h' where "mirror (upstream_of rw) = (False, r)" "rw_sent r = Some (code, h')"
      "rw_body r = rw_body rw" "header_get h' ''Content-Type'' = header_get h ''Content-Type''"
    using mirror_open [of "upstream_of rw" "rw_body rw"] assms(4-6) calculation(2) by auto
  ultimately show ?thesis
    using assms(1,2) by (auto simp: passthrough_def forward_def reaches_def client_url_def)
qed

section \<open>Examples\<close>

definition ex_stat :: "path \<Rightarrow> string + bool" where
  "ex_stat p = (if p = ''/a/tesseract-proxy-config/brokers'' then Inr True else Inl ''no such file'')"

lemma config_dir_found_witness:
  "\<exists>d. resolve_config_dir ex_stat (Inr ''/a/b/c'') [] = Some (Inr d) \<and> has_brokers ex_stat d"
proof -
  have "has_brokers ex_stat (candidate ((path_dir ^^ 2) ''/a/b/c''))" by code_simp
  moreover obtain r where r: "resolve_config_dir ex_stat (Inr ''/a/b/c'') [] = Some r"
      "case r of Inr d \<Rightarrow> (\<exists>k. d = candidate ((path_dir ^^ k) ''/a/b/c'') \<and> has_brokers ex_stat d
                   \<and> (\<forall>j. j < k \<longrightarrow> \<not> has_brokers ex_stat (candidate ((path_dir ^^ j) ''/a/b/c''))))
        | Inl e \<Rightarrow> \<forall>k. \<not> has_brokers ex_stat (candidate ((path_dir ^^ k) ''/a/b/c''))"
    using config_dir_found [of ex_stat "''/a/b/c''"] by blast
  ultimately show ?thesis by (cases r) auto
qed

definition ex_deploy :: deploy_config where
  "ex_deploy = fill_defaults ''/w/src/cfg'' (empty_deploy\<lparr>lightsail_ip := ''192.0.2.1'', ssh_key := ''/k'', signer_key := ''/s'',
     bundle_out := ''/r/bundle.yaml''\<rparr>)"

text \<open>A build that writes the bundle, and a reload that ends as given.\<close>

definition ex_pub_env :: "string option \<Rightarrow> pub_env" where
  "ex_pub_env reload_err = \<lparr>
     pu_run = (\<lambda>k w. if hd (cmd_args k) = ''go''
        then (\<lparr>cr_lines = [(True, ''wrote'')], cr_stderr = [], cr_err = None\<rparr>,
              publish ((files w)(''/r/bundle.yaml'' \<mapsto> \<lparr>content = ''new'', mode = 416\<rparr>)) w)
        else (\<lparr>cr_lines = [(False, ''sent'')], cr_stderr = [], cr_err = reload_err\<rparr>, w)),
     pu_decode = (\<lambda>b. Inr b), pu_started = ''t0'', pu_finished = ''t1'', pu_flusher = True,
     pu_os_text = (\<lambda>e. ''failure''), pu_mkdtemp = (\<lambda>w. Inr ''/tmp/d'')\<rparr>"

definition ex_pub_world :: world where
  "ex_pub_world = \<lparr>files = [''/r/last-published.bundle.yaml'' \<mapsto> \<lparr>content = ''old'', mode = 420\<rparr>],
     faults = [], tmp_seq = 0, history = []\<rparr>"

definition ex_started :: pub_server where
  "ex_started = pub_arrive (ex_pub_env None) ex_deploy 0 ''DEPLOY'' (pub_idle ex_pub_world)"

lemma ex_started_reachable: "pub_reachable (ex_pub_env None) ''/w/src/cfg'' ex_deploy ex_started"
  unfolding ex_started_def by (rule pub_request [OF pub_start]) (simp add: pub_idle_def)

lemma ex_complete: "missing ex_deploy = []" by code_simp

lemma ex_session:
  "pv_sessions ex_started 0 = Some \<lparr>ps_phase = PubMkdir, ps_out = pub_header (ex_pub_env None) ex_deploy\<rparr>"
  by (simp add: ex_started_def pub_arrive_def pub_gate_def pub_idle_def ex_pub_env_def confirm_phrase_def ex_complete)

lemma publish_exclusive_witness:
  "\<exists>v. v = pub_arrive (ex_pub_env None) ex_deploy 1 ''DEPLOY'' (let_run (ex_pub_env None) ''/w/src/cfg'' ex_deploy 0 ex_started)
     \<and> pub_reachable (ex_pub_env None) ''/w/src/cfg'' ex_deploy v \<and> (pv_locked v \<longleftrightarrow> (\<exists>i. running v i)) \<and> orderly (pv_trace v)
     \<and> pv_trace v = [(0, PubMkdir)]"
proof -
  let ?w = "let_run (ex_pub_env None) ''/w/src/cfg'' ex_deploy 0 ex_started"
  let ?v = "pub_arrive (ex_pub_env None) ex_deploy 1 ''DEPLOY'' ?w"
  have w: "pub_reachable (ex_pub_env None) ''/w/src/cfg'' ex_deploy ?w"
    by (rule let_run_reachable [OF ex_started_reachable])
  have "pv_sessions ?w 1 = None"
    by (simp add: let_run_def ex_session pub_continue_def split: prod.splits)
      (simp add: ex_started_def pub_arrive_def pub_idle_def split: sum.splits)
  then have v: "pub_reachable (ex_pub_env None) ''/w/src/cfg'' ex_deploy ?v" by (rule pub_request [OF w])
  have "pv_trace ?w = [(0, PubMkdir)]"
    by (simp add: let_run_def ex_session pub_continue_def split: prod.splits)
      (simp add: ex_started_def pub_arrive_def pub_idle_def split: sum.splits)
  then have "pv_trace ?v = [(0, PubMkdir)]" by (simp add: pub_arrive_def split: sum.splits)
  with v publish_exclusive [OF v] show ?thesis by auto
qed

lemma publish_lock_released_witness:
  "\<not> pv_locked ((let_run (ex_pub_env None) ''/w/src/cfg'' ex_deploy 0 ^^ 4) ex_started)"
proof -
  have "running ex_started 0" by (simp add: running_def ex_session)
  from publish_lock_released [OF ex_started_reachable this] show ?thesis by simp
qed

lemma ex_snapshot_path: "snapshot_path ex_deploy = ''/r/last-published.bundle.yaml''" by code_simp

lemma snapshot_is_published_witness:
  "\<exists>r w' w3. publish_handle (ex_pub_env None) ''/w/src/cfg'' ex_deploy ''DEPLOY'' False ex_pub_world = (r, w')
     \<and> both_succeed (ex_pub_env None) ''/w/src/cfg'' ex_deploy ex_pub_world w3
     \<and> content_of w' (snapshot_path ex_deploy) = content_of w3 (bundle_out ex_deploy)
     \<and> content_of w' (snapshot_path ex_deploy) = Some ''new''"
proof -
  let ?h = "publish_handle (ex_pub_env None) ''/w/src/cfg'' ex_deploy ''DEPLOY'' False ex_pub_world"
  obtain r w' where h: "?h = (r, w')" by fastforce
  have sp: "spares (ex_pub_env None) (snapshot_path ex_deploy)"
    by (simp add: spares_def ex_pub_env_def ex_snapshot_path)
  have "content_of (snd ?h) ''/r/last-published.bundle.yaml'' = Some ''new''" by code_simp
  then have new: "content_of w' (snapshot_path ex_deploy) = Some ''new''" by (simp add: h ex_snapshot_path)
  have "content_of ex_pub_world (snapshot_path ex_deploy) = Some ''old''"
    by (simp add: ex_snapshot_path content_of_def ex_pub_world_def)
  with snapshot_is_published [OF h sp] new h show ?thesis by auto
qed

definition ex_main_stat :: "path \<Rightarrow> string + bool" where
  "ex_main_stat p = (if p = ''/c/brokers'' then Inr True else Inl ''no such file'')"

definition ex_main :: "(ui_exit \<times> world) option" where
  "ex_main = ui_main ex_main_stat (Inl ''getwd'') (\<lambda>a. Inr (TcpAddr [127, 0, 0, 1])) (\<lambda>d. Inl ''yaml'')
     (default_ui_flags\<lparr>uf_config_dir := ''/c''\<rparr>) ex_pub_world"


text \<open>A tool whose certificate is on the order list only is shown the refusal of the admin plane.\<close>

definition ex_refusal :: response_writer where
  "ex_refusal = fst (admin_serve ex_env (ex_admin_request ''GET'' ''/admin/healthz'' [] 7 []) ex_plane)"

definition ex_ui_env :: ui_env where
  "ex_ui_env = \<lparr>ui_os_text = (\<lambda>e. ''failure''), ui_keypair = (\<lambda>c k. Inr [c]), ui_ca_ok = (\<lambda>d. True),
     ui_leaf = (\<lambda>d. Inl ''der''), ui_bad_url = (\<lambda>u. None), ui_do = (\<lambda>ch m u hs. Inr (upstream_of ex_refusal)),
     ui_flusher = True, ui_stream = []\<rparr>"

definition ex_ui_world :: world where
  "ex_ui_world = \<lparr>files = [dep_cert ex_deploy \<mapsto> \<lparr>content = ''cert'', mode = 420\<rparr>,
     dep_key ex_deploy \<mapsto> \<lparr>content = ''key'', mode = 384\<rparr>, dep_ca ex_deploy \<mapsto> \<lparr>content = ''ca'', mode = 420\<rparr>],
     faults = [], tmp_seq = 0, history = []\<rparr>"

lemma ui_shows_admin_answer_witness:
  "\<exists>r h w1. ui_health ex_ui_env ex_deploy ex_ui_world = (False, r, w1) \<and> rw_sent r = Some (403, h)
     \<and> rw_body r = rw_body ex_refusal"
proof -
  have "is_ok (fst (new_proxy_client ex_ui_env ex_deploy ex_ui_world))" by code_simp
  then obtain pc w1 where pc: "new_proxy_client ex_ui_env ex_deploy ex_ui_world = (Inr pc, w1)"
    by (cases "new_proxy_client ex_ui_env ex_deploy ex_ui_world") (auto simp: is_ok_def split: sum.splits)
  have re: "reaches ex_ui_env pc ''GET'' ''/admin/healthz'' ex_refusal"
    by (simp add: reaches_def ex_ui_env_def)
  have "map_option fst (rw_sent ex_refusal) = Some 403" by code_simp
  then obtain h where h: "rw_sent ex_refusal = Some (403, h)" by auto
  have ok: "200 \<le> (403::nat)" "403 \<le> (999::nat)" "body_allowed 403" by (simp_all add: body_allowed_def)
  from ui_shows_admin_answer [OF pc re h ok] show ?thesis by (auto simp: ui_health_def)
qed

end
