(* ===== verification/AdminCurl.thy ===== *)
theory AdminCurl
  imports AdminUi
begin

text \<open>
  The command \<open>cmd/admin-curl\<close>: one request to the admin plane with a client certificate. The result is the
  exit status with what went to standard error and to standard output. The parsers and the HTTP client are
  parameters, and so is the order in which Go ranges over the headers.
\<close>

record curl_flags =
  cu_ip :: string
  cu_port :: int
  cu_ca :: path
  cu_cert :: path
  cu_key :: path
  cu_path :: string
  cu_method :: string

definition default_curl_flags :: curl_flags where
  "default_curl_flags = \<lparr>cu_ip = [], cu_port = 443, cu_ca = [], cu_cert = [], cu_key = [],
     cu_path = ''/admin/healthz'', cu_method = ''GET''\<rparr>"

record curl_env =
  cv_os_text :: "os_err \<Rightarrow> string"
  cv_ca_ok :: "bytes \<Rightarrow> bool"
  cv_keypair :: "bytes \<Rightarrow> bytes \<Rightarrow> string + bytes list"
  cv_bad_request :: "string \<Rightarrow> string \<Rightarrow> string option"
  cv_do :: "bytes list \<Rightarrow> string \<Rightarrow> string \<Rightarrow> string + upstream"
  cv_order :: "headers \<Rightarrow> (string \<times> string list) list"

type_synonym curl_end = "nat \<times> string \<times> string"

definition curl_line :: "string \<Rightarrow> string" where "curl_line s = s @ [CHR 0x0A]"

definition curl_fatal :: "string \<Rightarrow> curl_end" where
  "curl_fatal e = (1, curl_line (''fatal: '' @ e), [])"

definition curl_url :: "curl_flags \<Rightarrow> string" where
  "curl_url f = ''https://'' @ cu_ip f @ '':'' @ int_str (cu_port f) @ cu_path f"

text \<open>What is printed of an answer; a body that breaks off is printed as far as it came and is fatal.\<close>

definition curl_headers :: "curl_env \<Rightarrow> upstream \<Rightarrow> string" where
  "curl_headers E resp =
     curl_line (''HTTP '' @ nat_str (up_status resp))
     @ concat (map (\<lambda>(k, vs). concat (map (\<lambda>v. curl_line (k @ '': '' @ v)) vs)) (cv_order E (up_header resp)))
     @ curl_line []"

definition curl_print :: "curl_env \<Rightarrow> upstream \<Rightarrow> curl_end" where
  "curl_print E resp =
     (case up_body resp of
        Whole b \<Rightarrow> (0, curl_headers E resp, curl_line b)
      | Interrupted b \<Rightarrow> (1, curl_headers E resp @ curl_line ''fatal: unexpected EOF'', b))"

definition curl_send :: "curl_env \<Rightarrow> curl_flags \<Rightarrow> bytes list \<Rightarrow> curl_end" where
  "curl_send E f chain =
     (case cv_bad_request E (cu_method f) (curl_url f) of
        Some e \<Rightarrow> curl_fatal e
      | None \<Rightarrow> (case cv_do E chain (cu_method f) (curl_url f) of
          Inl e \<Rightarrow> curl_fatal e
        | Inr resp \<Rightarrow> curl_print E resp))"

definition curl_main :: "curl_env \<Rightarrow> curl_flags \<Rightarrow> world \<Rightarrow> curl_end \<times> world" where
  "curl_main E f w =
     (if cu_ip f = [] \<or> cu_ca f = [] \<or> cu_cert f = [] \<or> cu_key f = []
      then ((2, curl_line ''missing required flag; see -h'', []), w)
      else (case os_read_file (cu_ca f) w of
        (Inl e, w1) \<Rightarrow> (curl_fatal (cv_os_text E e), w1)
      | (Inr ca, w1) \<Rightarrow>
          if \<not> cv_ca_ok E ca then (curl_fatal (''no PEM blocks parsed from '' @ cu_ca f), w1)
          else (case os_read_file (cu_cert f) w1 of
        (Inl e, w2) \<Rightarrow> (curl_fatal (cv_os_text E e), w2)
      | (Inr cert, w2) \<Rightarrow> (case os_read_file (cu_key f) w2 of
        (Inl e, w3) \<Rightarrow> (curl_fatal (cv_os_text E e), w3)
      | (Inr key, w3) \<Rightarrow> (case cv_keypair E cert key of
        Inl e \<Rightarrow> (curl_fatal e, w3)
      | Inr chain \<Rightarrow> (curl_send E f chain, w3))))))"

text \<open>The exit status is 0 exactly when the whole answer was printed; no file changes.\<close>

lemma curl_exit_ok:
  assumes "curl_main E f w = ((0, err, out), w')"
  shows "\<exists>chain resp b. cv_do E chain (cu_method f) (curl_url f) = Inr resp \<and> up_body resp = Whole b
     \<and> err = curl_headers E resp \<and> out = b @ [CHR 0x0A] \<and> files w' = files w"
  using assms
  by (auto simp: curl_main_def curl_send_def curl_print_def curl_fatal_def curl_line_def
      split: if_splits prod.splits sum.splits option.splits body_copy.splits dest!: reads_frame(1)) blast

end
