(* ===== verification/Interleave.thy ===== *)
theory Interleave
  imports Prelude
begin

text \<open>
  Goroutines that share state, as jobs that take steps in any order. A job is where it is in its code; a
  step acts on that and on the shared state, with an input from outside (an answer, say). Programs outside
  may change the shared state by \<open>env\<close>. The locale \<open>job_contract\<close> is what an operation owes so that an
  invariant survives every interleaving; the updaters are interpreted as instances.
\<close>

record ('p, 's) jobs =
  job_pcs :: "'p list"
  shared :: 's

definition no_jobs :: "'s \<Rightarrow> ('p, 's) jobs" where
  "no_jobs s = \<lparr>job_pcs = [], shared = s\<rparr>"

definition start_job :: "'p \<Rightarrow> ('p, 's) jobs \<Rightarrow> ('p, 's) jobs" where
  "start_job pc j = j\<lparr>job_pcs := job_pcs j @ [pc]\<rparr>"

definition advance_job :: "('a \<Rightarrow> 'p \<Rightarrow> 's \<Rightarrow> 'p \<times> 's) \<Rightarrow> 'a \<Rightarrow> nat \<Rightarrow> ('p, 's) jobs \<Rightarrow> ('p, 's) jobs" where
  "advance_job step x i j =
     (if i < length (job_pcs j) then
        (case step x (job_pcs j ! i) (shared j) of (pc, s) \<Rightarrow> \<lparr>job_pcs = (job_pcs j)[i := pc], shared = s\<rparr>)
      else j)"

inductive jobs_reach ::
    "('a \<Rightarrow> 'p \<Rightarrow> 's \<Rightarrow> 'p \<times> 's) \<Rightarrow> ('p \<Rightarrow> bool) \<Rightarrow> ('s \<Rightarrow> 's \<Rightarrow> bool) \<Rightarrow> 's \<Rightarrow> ('p, 's) jobs \<Rightarrow> bool"
  for step :: "'a \<Rightarrow> 'p \<Rightarrow> 's \<Rightarrow> 'p \<times> 's" and starts :: "'p \<Rightarrow> bool" and env :: "'s \<Rightarrow> 's \<Rightarrow> bool" and s0 :: 's where
  here: "jobs_reach step starts env s0 (no_jobs s0)"
| begun: "jobs_reach step starts env s0 j \<Longrightarrow> starts pc \<Longrightarrow> jobs_reach step starts env s0 (start_job pc j)"
| advanced: "jobs_reach step starts env s0 j \<Longrightarrow> jobs_reach step starts env s0 (advance_job step x i j)"
| outside: "jobs_reach step starts env s0 j \<Longrightarrow> env (shared j) s \<Longrightarrow> jobs_reach step starts env s0 (j\<lparr>shared := s\<rparr>)"

locale job_contract =
  fixes step :: "'a \<Rightarrow> 'p \<Rightarrow> 's \<Rightarrow> 'p \<times> 's"
    and starts :: "'p \<Rightarrow> bool"
    and env :: "'s \<Rightarrow> 's \<Rightarrow> bool"
    and good :: "'p \<Rightarrow> bool"
    and inv :: "'s \<Rightarrow> bool"
  assumes starts_good: "starts pc \<Longrightarrow> good pc"
    and step_good: "good pc \<Longrightarrow> inv s \<Longrightarrow> step x pc s = (pc', s') \<Longrightarrow> good pc'"
    and step_inv: "good pc \<Longrightarrow> inv s \<Longrightarrow> step x pc s = (pc', s') \<Longrightarrow> inv s'"
    and env_inv: "inv s \<Longrightarrow> env s s' \<Longrightarrow> inv s'"
begin

lemma advance_keeps:
  assumes "list_all good (job_pcs j)" and "inv (shared j)"
  shows "list_all good (job_pcs (advance_job step x i j)) \<and> inv (shared (advance_job step x i j))"
proof (cases "i < length (job_pcs j)")
  case True
  obtain pc s where st: "step x (job_pcs j ! i) (shared j) = (pc, s)"
    by (cases "step x (job_pcs j ! i) (shared j)")
  from assms(1) True have g: "good (job_pcs j ! i)" by (simp add: list_all_length)
  have "list_all good ((job_pcs j)[i := pc])"
    using assms(1) step_good [OF g assms(2) st]
    by (auto simp: list_all_iff dest!: set_update_subset_insert [THEN subsetD])
  with step_inv [OF g assms(2) st] True st show ?thesis by (simp add: advance_job_def)
qed (use assms in \<open>simp add: advance_job_def\<close>)

lemma reach_keeps:
  assumes "jobs_reach step starts env s0 j" and "inv s0"
  shows "list_all good (job_pcs j) \<and> inv (shared j)"
  using assms(1)
proof (induction rule: jobs_reach.induct)
  case here
  with assms(2) show ?case by (simp add: no_jobs_def)
next
  case (begun j pc)
  then show ?case using starts_good by (simp add: start_job_def)
next
  case (advanced j x i)
  then show ?case using advance_keeps by blast
next
  case (outside j s)
  then show ?case using env_inv by auto
qed

end

section \<open>Schedules\<close>

text \<open>\<open>Inl pc\<close> starts a job, \<open>Inr (i, n, x)\<close> lets job \<open>i\<close> take \<open>n\<close> steps with input \<open>x\<close>.\<close>

type_synonym ('a, 'p) schedule = "('p + nat \<times> nat \<times> 'a) list"

fun advance_jobs :: "('a \<Rightarrow> 'p \<Rightarrow> 's \<Rightarrow> 'p \<times> 's) \<Rightarrow> 'a \<Rightarrow> nat \<Rightarrow> nat \<Rightarrow> ('p, 's) jobs \<Rightarrow> ('p, 's) jobs" where
  "advance_jobs step x i 0 j = j"
| "advance_jobs step x i (Suc n) j = advance_jobs step x i n (advance_job step x i j)"

fun run_schedule :: "('a \<Rightarrow> 'p \<Rightarrow> 's \<Rightarrow> 'p \<times> 's) \<Rightarrow> ('a, 'p) schedule \<Rightarrow> ('p, 's) jobs \<Rightarrow> ('p, 's) jobs" where
  "run_schedule step [] j = j"
| "run_schedule step (Inl pc # es) j = run_schedule step es (start_job pc j)"
| "run_schedule step (Inr (i, n, x) # es) j = run_schedule step es (advance_jobs step x i n j)"

lemma advance_jobs_reach:
  "jobs_reach step starts env s0 j \<Longrightarrow> jobs_reach step starts env s0 (advance_jobs step x i n j)"
  by (induction n arbitrary: j) (auto intro: jobs_reach.advanced)

lemma run_schedule_reach:
  "jobs_reach step starts env s0 j \<Longrightarrow> list_all (\<lambda>e. case e of Inl pc \<Rightarrow> starts pc | Inr _ \<Rightarrow> True) es \<Longrightarrow>
     jobs_reach step starts env s0 (run_schedule step es j)"
  by (induction step es j rule: run_schedule.induct) (auto intro: jobs_reach.begun advance_jobs_reach)

end
