(* ===== verification/PollSteps.thy ===== *)
theory PollSteps
  imports BundleUpdFacts Interleave
begin

text \<open>
  A poll as the sequence of its accesses to what it shares. \<open>Tick\<close> (\<open>internal/bundleupd/updater.go\<close>) is
  called by the polling loop, by the admin plane's reload handler and by the reload signal, each on its own
  goroutine; its mutex covers only the reads and writes of the ETag and the hash. Here every system call on a
  shared name, every locked section, the loads and stores of the holder and the hook are one step, and any
  number of polls interleave their steps with each other and with programs that change other files. A poll
  left alone is \<open>tick\<close>. What goes live is always signed and valid; but versions can go back, and the file
  that is promoted need not be the one that was verified.
\<close>

section \<open>The steps of a promotion\<close>

datatype promote_pc = PrStat | PrRotate | PrInstall

type_synonym promote_next = "promote_pc + (promote_err + unit)"

fun promote_step :: "path \<Rightarrow> path \<Rightarrow> path \<Rightarrow> promote_pc \<Rightarrow> world \<Rightarrow> promote_next \<times> world" where
  "promote_step cur staged prev PrStat w =
     (case os_stat cur w of
        (Inr _, w1) \<Rightarrow> (Inl PrRotate, w1)
      | (Inl NotExist, w1) \<Rightarrow> (Inl PrInstall, w1)
      | (Inl Failure, w1) \<Rightarrow> (Inr (Inl (StatErr Failure)), w1))"
| "promote_step cur staged prev PrRotate w =
     (case os_rename cur prev w of
        (Inl e, w1) \<Rightarrow> (Inr (Inl (RotateErr e)), w1)
      | (Inr _, w1) \<Rightarrow> (Inl PrInstall, w1))"
| "promote_step cur staged prev PrInstall w =
     (case os_rename staged cur w of
        (Inl e, w1) \<Rightarrow> (Inr (Inl (PromoteErr e)), w1)
      | (Inr _, w1) \<Rightarrow> (Inr (Inr ()), w1))"

lemma promote_step_frame:
  "promote_step cur staged prev pc w = (r, w') \<Longrightarrow> q \<notin> {cur, staged, prev} \<Longrightarrow> files w' q = files w q"
  by (cases pc) (auto split: prod.splits sum.splits os_err.splits dest: reads_frame os_rename_frame)

section \<open>The steps of a poll\<close>

text \<open>
  Where a poll is, with the locals it still needs: \<open>res\<close> is what it fetched, \<open>lr\<close> what it verified. The hash
  of the fetched bytes is a function of them and is not carried along.
\<close>

datatype poll_pc =
    PollBegin
  | PollFetch string bytes
  | PollKeepEtag string
  | PollStageBundle fetch_result
  | PollStageSig fetch_result
  | PollUnstage "path list" tick_err
  | PollVersion fetch_result
  | PollReadBundle fetch_result load_options
  | PollReadSig fetch_result load_options bytes
  | PollReadKey fetch_result load_options bytes bytes
  | PollPromoteBundle fetch_result load_result promote_pc
  | PollPromoteSig fetch_result load_result promote_pc
  | PollPublish fetch_result load_result
  | PollRecord fetch_result load_result
  | PollSwap load_result
  | PollDone "tick_err + unit"

definition refuse_staged :: "up_opts \<Rightarrow> load_err \<Rightarrow> poll_pc" where
  "refuse_staged o' e = PollUnstage [staged_bundle o', staged_sig o'] (VerifyFailed e)"

definition after_fetch :: "crypto \<Rightarrow> bytes \<Rightarrow> fetch_err + fetch_result \<Rightarrow> poll_pc" where
  "after_fetch C hash answer =
     (case answer of
        Inl e \<Rightarrow> PollDone (Inl (FetchFailed e))
      | Inr res \<Rightarrow>
          if fr_not_modified res then PollDone (Inr ())
          else if fr_bundle res = [] \<or> fr_signature res = [] then PollDone (Inl EmptyFetch)
          else if sha256 C (fr_bundle res) = hash then PollKeepEtag (fr_etag res)
          else PollStageBundle res)"

fun poll_step ::
    "crypto \<Rightarrow> yaml_codec \<Rightarrow> up_opts \<Rightarrow> (string \<Rightarrow> fetch_err + fetch_result) \<Rightarrow> poll_pc \<Rightarrow> updater \<Rightarrow> world
       \<Rightarrow> poll_pc \<times> updater \<times> world" where
  "poll_step C Y o' fetch PollBegin u w = (PollFetch (last_etag u) (last_hash u), u, w)"
| "poll_step C Y o' fetch (PollFetch etag hash) u w = (after_fetch C hash (fetch etag), u, w)"
| "poll_step C Y o' fetch (PollKeepEtag e) u w = (PollDone (Inr ()), u\<lparr>last_etag := e\<rparr>, w)"
| "poll_step C Y o' fetch (PollStageBundle res) u w =
     (case write_atomic (staged_bundle o') (fr_bundle res) w of
        (Inl e, w1) \<Rightarrow> (PollDone (Inl (StageBundle e)), u, w1)
      | (Inr _, w1) \<Rightarrow> (PollStageSig res, u, w1))"
| "poll_step C Y o' fetch (PollStageSig res) u w =
     (case write_atomic (staged_sig o') (fr_signature res) w of
        (Inl e, w1) \<Rightarrow> (PollUnstage [staged_bundle o'] (StageSignature e), u, w1)
      | (Inr _, w1) \<Rightarrow> (PollVersion res, u, w1))"
| "poll_step C Y o' fetch (PollUnstage [] e) u w = (PollDone (Inl e), u, w)"
| "poll_step C Y o' fetch (PollUnstage (p # ps) e) u w = (PollUnstage ps e, u, cleanup p w)"
| "poll_step C Y o' fetch (PollVersion res) u w = (PollReadBundle res (staged_options o' u), u, w)"
| "poll_step C Y o' fetch (PollReadBundle res opts) u w =
     (case os_read_file (lo_bundle_path opts) w of
        (Inl e, w1) \<Rightarrow> (refuse_staged o' (ReadBundle e), u, w1)
      | (Inr d, w1) \<Rightarrow> (PollReadSig res opts d, u, w1))"
| "poll_step C Y o' fetch (PollReadSig res opts d) u w =
     (case os_read_file (lo_sig_path opts) w of
        (Inl e, w1) \<Rightarrow> (refuse_staged o' (ReadSignature e), u, w1)
      | (Inr sig, w1) \<Rightarrow> (PollReadKey res opts d sig, u, w1))"
| "poll_step C Y o' fetch (PollReadKey res opts d sig) u w =
     (case read_pubkey C (lo_pubkey_path opts) w of
        (Inl e, w1) \<Rightarrow> (refuse_staged o' (PubkeyErr e), u, w1)
      | (Inr pub, w1) \<Rightarrow> (case verify_bytes C Y opts pub d sig of
          Inl e \<Rightarrow> (refuse_staged o' e, u, w1)
        | Inr lr \<Rightarrow> (PollPromoteBundle res lr PrStat, u, w1)))"
| "poll_step C Y o' fetch (PollPromoteBundle res lr p) u w =
     (case promote_step (uo_bundle_path o') (staged_bundle o') (previous_of (uo_bundle_path o')) p w of
        (Inl p', w1) \<Rightarrow> (PollPromoteBundle res lr p', u, w1)
      | (Inr (Inl e), w1) \<Rightarrow> (PollDone (Inl (PromoteBundle e)), u, w1)
      | (Inr (Inr _), w1) \<Rightarrow> (PollPromoteSig res lr PrStat, u, w1))"
| "poll_step C Y o' fetch (PollPromoteSig res lr p) u w =
     (case promote_step (uo_sig_path o') (staged_sig o') (previous_of (uo_sig_path o')) p w of
        (Inl p', w1) \<Rightarrow> (PollPromoteSig res lr p', u, w1)
      | (Inr (Inl e), w1) \<Rightarrow> (PollDone (Inl (PromoteSignature e)), u, w1)
      | (Inr (Inr _), w1) \<Rightarrow> (PollPublish res lr, u, w1))"
| "poll_step C Y o' fetch (PollPublish res lr) u w =
     (PollRecord res lr, u\<lparr>up_holder := fst (holder_store (up_holder u) (Some (lr_router lr)))\<rparr>, w)"
| "poll_step C Y o' fetch (PollRecord res lr) u w =
     (PollSwap lr, u\<lparr>last_hash := sha256 C (fr_bundle res), last_etag := fr_etag res\<rparr>, w)"
| "poll_step C Y o' fetch (PollSwap lr) u w = (PollDone (Inr ()), u\<lparr>swaps := swaps u @ [lr_bundle lr]\<rparr>, w)"
| "poll_step C Y o' fetch (PollDone r) u w = (PollDone r, u, w)"

section \<open>A poll left alone\<close>

fun promote_rank :: "promote_pc \<Rightarrow> nat" where
  "promote_rank PrStat = 2" | "promote_rank PrRotate = 1" | "promote_rank PrInstall = 0"

fun poll_rank :: "poll_pc \<Rightarrow> nat" where
  "poll_rank PollBegin = 17"
| "poll_rank (PollFetch _ _) = 16"
| "poll_rank (PollStageBundle _) = 15"
| "poll_rank (PollStageSig _) = 14"
| "poll_rank (PollVersion _) = 13"
| "poll_rank (PollReadBundle _ _) = 12"
| "poll_rank (PollReadSig _ _ _) = 11"
| "poll_rank (PollReadKey _ _ _ _) = 10"
| "poll_rank (PollPromoteBundle _ _ p) = 7 + promote_rank p"
| "poll_rank (PollPromoteSig _ _ p) = 4 + promote_rank p"
| "poll_rank (PollUnstage ps _) = 1 + length ps"
| "poll_rank (PollPublish _ _) = 3"
| "poll_rank (PollRecord _ _) = 2"
| "poll_rank (PollSwap _) = 1"
| "poll_rank (PollKeepEtag _) = 1"
| "poll_rank (PollDone _) = 0"

lemma promote_step_rank: "promote_step cur staged prev p w = (Inl p', w') \<Longrightarrow> promote_rank p' < promote_rank p"
  by (cases p) (auto split: prod.splits sum.splits os_err.splits)

lemma promote_pc_induct [case_names step]:
  assumes "\<And>p. (\<And>p'. promote_rank p' < promote_rank p \<Longrightarrow> P p') \<Longrightarrow> P p"
  shows "P p"
  by (rule measure_induct_rule [of promote_rank]) (rule assms)

function promote_run :: "path \<Rightarrow> path \<Rightarrow> path \<Rightarrow> promote_pc \<Rightarrow> world \<Rightarrow> (promote_err + unit) \<times> world" where
  "promote_run cur staged prev p w =
     (case promote_step cur staged prev p w of
        (Inl p', w1) \<Rightarrow> promote_run cur staged prev p' w1
      | (Inr r, w1) \<Rightarrow> (r, w1))"
  by pat_completeness auto
termination
  by (relation "measure (\<lambda>(cur, staged, prev, p, w). promote_rank p)") (auto dest: promote_step_rank [OF sym])

declare promote_run.simps [simp del]

lemma promote_run_at:
  "promote_run cur staged prev PrStat w =
     (let install = (\<lambda>w. case os_rename staged cur w of (Inl e, w1) \<Rightarrow> (Inl (PromoteErr e), w1) | (Inr _, w1) \<Rightarrow> (Inr (), w1))
      in case os_stat cur w of
        (Inr _, w1) \<Rightarrow> (case os_rename cur prev w1 of (Inl e, w2) \<Rightarrow> (Inl (RotateErr e), w2) | (Inr _, w2) \<Rightarrow> install w2)
      | (Inl NotExist, w1) \<Rightarrow> install w1
      | (Inl Failure, w1) \<Rightarrow> (Inl (StatErr Failure), w1))"
proof -
  have i: "promote_run cur staged prev PrInstall w = (case os_rename staged cur w of
      (Inl e, w1) \<Rightarrow> (Inl (PromoteErr e), w1) | (Inr _, w1) \<Rightarrow> (Inr (), w1))" for w
    by (subst promote_run.simps) (simp split: prod.split sum.split)
  have r: "promote_run cur staged prev PrRotate w = (case os_rename cur prev w of
      (Inl e, w1) \<Rightarrow> (Inl (RotateErr e), w1) | (Inr _, w1) \<Rightarrow> promote_run cur staged prev PrInstall w1)" for w
    by (subst promote_run.simps) (simp split: prod.split sum.split)
  show ?thesis
    by (subst promote_run.simps) (simp add: i r Let_def split: prod.split sum.split os_err.split)
qed

lemma promote_run_promote: "promote_run cur staged (previous_of cur) PrStat w = promote cur staged w"
  by (simp add: promote_run_at promote_def previous_of_def)

lemma poll_step_rank:
  assumes "poll_rank pc \<noteq> 0"
  shows "poll_rank (fst (poll_step C Y o' fetch pc u w)) < poll_rank pc"
proof (cases pc)
  case (PollUnstage ps e)
  then show ?thesis by (cases ps) simp_all
qed (use assms in \<open>auto simp: after_fetch_def refuse_staged_def split: prod.splits sum.splits
       dest: promote_step_rank\<close>)

function poll_run ::
    "crypto \<Rightarrow> yaml_codec \<Rightarrow> up_opts \<Rightarrow> (string \<Rightarrow> fetch_err + fetch_result) \<Rightarrow> poll_pc \<Rightarrow> updater \<Rightarrow> world
       \<Rightarrow> poll_pc \<times> updater \<times> world" where
  "poll_run C Y o' fetch pc u w =
     (if poll_rank pc = 0 then (pc, u, w)
      else poll_run C Y o' fetch (fst (poll_step C Y o' fetch pc u w))
             (fst (snd (poll_step C Y o' fetch pc u w))) (snd (snd (poll_step C Y o' fetch pc u w))))"
  by pat_completeness auto
termination
  by (relation "measure (\<lambda>(C, Y, o', fetch, pc, u, w). poll_rank pc)") (simp_all add: split_beta poll_step_rank)

declare poll_run.simps [simp del]

lemma poll_run_done [simp]: "poll_run C Y o' fetch (PollDone r) u w = (PollDone r, u, w)"
  by (subst poll_run.simps) simp

lemma poll_run_step:
  "poll_rank pc \<noteq> 0 \<Longrightarrow> poll_run C Y o' fetch pc u w =
     (case poll_step C Y o' fetch pc u w of (pc', u', w') \<Rightarrow> poll_run C Y o' fetch pc' u' w')"
  by (subst poll_run.simps) (simp add: split_beta)

text \<open>What is left of a poll at each place, from its end to its beginning.\<close>

lemma run_unstage [simp]: "poll_run C Y o' fetch (PollUnstage ps e) u w = (PollDone (Inl e), u, fold cleanup ps w)"
  by (induction ps arbitrary: w) (simp_all add: poll_run_step)

lemma run_refused [simp]:
  "poll_run C Y o' fetch (refuse_staged o' e) u w =
     (PollDone (Inl (VerifyFailed e)), u, cleanup (staged_sig o') (cleanup (staged_bundle o') w))"
  by (simp add: refuse_staged_def)

lemma run_publish [simp]:
  "poll_run C Y o' fetch (PollPublish res lr) u w =
     (PollDone (Inr ()), u\<lparr>up_holder := fst (holder_store (up_holder u) (Some (lr_router lr))),
        last_hash := sha256 C (fr_bundle res), last_etag := fr_etag res, swaps := swaps u @ [lr_bundle lr]\<rparr>, w)"
  by (simp add: poll_run_step)

lemma run_promote_sig:
  "poll_run C Y o' fetch (PollPromoteSig res lr p) u w =
     (case promote_run (uo_sig_path o') (staged_sig o') (previous_of (uo_sig_path o')) p w of
        (Inl e, w1) \<Rightarrow> (PollDone (Inl (PromoteSignature e)), u, w1)
      | (Inr _, w1) \<Rightarrow> poll_run C Y o' fetch (PollPublish res lr) u w1)"
proof (induction p arbitrary: w rule: promote_pc_induct)
  case (step p)
  then show ?case
    by (subst promote_run.simps, subst poll_run_step)
      (auto split: prod.split sum.split dest: promote_step_rank)
qed

lemma run_promote_bundle:
  "poll_run C Y o' fetch (PollPromoteBundle res lr p) u w =
     (case promote_run (uo_bundle_path o') (staged_bundle o') (previous_of (uo_bundle_path o')) p w of
        (Inl e, w1) \<Rightarrow> (PollDone (Inl (PromoteBundle e)), u, w1)
      | (Inr _, w1) \<Rightarrow> poll_run C Y o' fetch (PollPromoteSig res lr PrStat) u w1)"
proof (induction p arbitrary: w rule: promote_pc_induct)
  case (step p)
  then show ?case
    by (subst promote_run.simps, subst poll_run_step)
      (auto split: prod.split sum.split dest: promote_step_rank)
qed

lemma run_verify:
  "poll_run C Y o' fetch (PollReadBundle res opts) u w =
     (case load_and_verify C Y opts w of
        (Inl e, w1) \<Rightarrow> poll_run C Y o' fetch (refuse_staged o' e) u w1
      | (Inr lr, w1) \<Rightarrow> poll_run C Y o' fetch (PollPromoteBundle res lr PrStat) u w1)"
  by (subst poll_run_step, simp, simp add: load_and_verify_def poll_run_step [of "PollReadSig _ _ _"]
        poll_run_step [of "PollReadKey _ _ _ _"] split: prod.split sum.split)

lemma run_staged:
  "poll_run C Y o' fetch (PollVersion res) u w =
     (case verify_staged C Y o' u w of
        (Inl e, w1) \<Rightarrow> (PollDone (Inl e), u, w1)
      | (Inr lr, w1) \<Rightarrow> poll_run C Y o' fetch (PollPromoteBundle res lr PrStat) u w1)"
  by (subst poll_run_step, simp, simp add: run_verify verify_staged_def split: prod.split sum.split)

lemma run_stage:
  "poll_run C Y o' fetch (PollStageBundle res) u w =
     (case stage o' res w of
        (Inl e, w1) \<Rightarrow> (PollDone (Inl e), u, w1)
      | (Inr _, w1) \<Rightarrow> poll_run C Y o' fetch (PollVersion res) u w1)"
  by (subst poll_run_step, simp, simp add: stage_def poll_run_step [of "PollStageSig _"] split: prod.split sum.split)

lemma run_promote:
  "poll_run C Y o' fetch (PollPromoteBundle res lr PrStat) u w =
     (case promote_pair o' w of
        (Inl e, w1) \<Rightarrow> (PollDone (Inl e), u, w1)
      | (Inr _, w1) \<Rightarrow> poll_run C Y o' fetch (PollPublish res lr) u w1)"
  by (simp add: run_promote_bundle run_promote_sig promote_run_promote promote_pair_def split: prod.split sum.split)

lemma run_fetch:
  "poll_run C Y o' fetch PollBegin u w = poll_run C Y o' fetch (after_fetch C (last_hash u) (fetch (last_etag u))) u w"
  by (simp add: poll_run_step [of PollBegin] poll_run_step [of "PollFetch _ _"])

lemma run_keep_etag: "poll_run C Y o' fetch (PollKeepEtag e) u w = (PollDone (Inr ()), u\<lparr>last_etag := e\<rparr>, w)"
  by (simp add: poll_run_step [of "PollKeepEtag _"])


section \<open>Several polls at once\<close>

text \<open>
  Polls under way act on the updater and the files they share. Others may write any file but the pinned key.
\<close>

definition poll_act ::
    "crypto \<Rightarrow> yaml_codec \<Rightarrow> up_opts \<Rightarrow> (string \<Rightarrow> fetch_err + fetch_result) \<Rightarrow> poll_pc \<Rightarrow> updater \<times> world
       \<Rightarrow> poll_pc \<times> updater \<times> world" where
  "poll_act C Y o' fetch pc s = (case s of (u, w) \<Rightarrow> poll_step C Y o' fetch pc u w)"

definition is_begin :: "poll_pc \<Rightarrow> bool" where "is_begin pc = (pc = PollBegin)"

definition key_untouched :: "up_opts \<Rightarrow> updater \<times> world \<Rightarrow> updater \<times> world \<Rightarrow> bool" where
  "key_untouched o' s s' =
     (fst s' = fst s \<and> files (snd s') (uo_pubkey_path o') = files (snd s) (uo_pubkey_path o'))"

type_synonym polls = "(poll_pc, updater \<times> world) jobs"

abbreviation poll_up :: "polls \<Rightarrow> updater" where "poll_up j \<equiv> fst (shared j)"
abbreviation poll_world :: "polls \<Rightarrow> world" where "poll_world j \<equiv> snd (shared j)"

definition polls_reach :: "crypto \<Rightarrow> yaml_codec \<Rightarrow> up_opts \<Rightarrow> updater \<Rightarrow> world \<Rightarrow> polls \<Rightarrow> bool" where
  "polls_reach C Y o' u0 w0 j = jobs_reach (poll_act C Y o') is_begin (key_untouched o') (u0, w0) j"

end
