(* ===== verification/PollRaces.thy ===== *)
theory PollRaces
  imports PollSteps
begin

text \<open>
  What interleaved polls keep and what they break: every live router comes from signed and valid bytes;
  versions can go back, hooks can run in another order than stores, and the bytes promoted to disk need not
  be the verified ones. The runs that break are evaluated on the fixtures.
\<close>

section \<open>Everything live is vetted\<close>

text \<open>
  What a bundle must be to go live: signed under the pinned key \<open>raw\<close>, valid, and for this binary. The
  routers a poll carries are built from such bundles.
\<close>

definition vetted :: "crypto \<Rightarrow> yaml_codec \<Rightarrow> up_opts \<Rightarrow> bytes \<Rightarrow> broker_bundle \<Rightarrow> bool" where
  "vetted C Y o' raw b =
     (\<exists>pub opts d sig. decode_pubkey C raw = Inr pub \<and> bytes_ok C Y opts pub d sig b
        \<and> lo_binary_version opts = uo_binary_version o')"

definition vetted_load :: "crypto \<Rightarrow> yaml_codec \<Rightarrow> up_opts \<Rightarrow> bytes \<Rightarrow> load_result \<Rightarrow> bool" where
  "vetted_load C Y o' raw lr =
     (vetted C Y o' raw (lr_bundle lr) \<and> build_router (lr_bundle lr) = Inr (lr_router lr))"

definition own_options :: "up_opts \<Rightarrow> load_options \<Rightarrow> bool" where
  "own_options o' opts = (lo_pubkey_path opts = uo_pubkey_path o' \<and> lo_binary_version opts = uo_binary_version o')"

fun pc_vetted :: "crypto \<Rightarrow> yaml_codec \<Rightarrow> up_opts \<Rightarrow> bytes \<Rightarrow> poll_pc \<Rightarrow> bool" where
  "pc_vetted C Y o' raw (PollReadBundle res opts) = own_options o' opts"
| "pc_vetted C Y o' raw (PollReadSig res opts d) = own_options o' opts"
| "pc_vetted C Y o' raw (PollReadKey res opts d sig) = own_options o' opts"
| "pc_vetted C Y o' raw (PollPromoteBundle res lr p) = vetted_load C Y o' raw lr"
| "pc_vetted C Y o' raw (PollPromoteSig res lr p) = vetted_load C Y o' raw lr"
| "pc_vetted C Y o' raw (PollPublish res lr) = vetted_load C Y o' raw lr"
| "pc_vetted C Y o' raw (PollRecord res lr) = vetted_load C Y o' raw lr"
| "pc_vetted C Y o' raw (PollSwap lr) = vetted_load C Y o' raw lr"
| "pc_vetted C Y o' raw (PollUnstage ps e) = list_all (\<lambda>p. p = staged_bundle o' \<or> p = staged_sig o') ps"
| "pc_vetted C Y o' raw _ = True"

definition live_vetted :: "crypto \<Rightarrow> yaml_codec \<Rightarrow> up_opts \<Rightarrow> bytes \<Rightarrow> updater \<Rightarrow> updater \<Rightarrow> bool" where
  "live_vetted C Y o' raw u0 u =
     ((holder_load (up_holder u) = holder_load (up_holder u0)
        \<or> (\<exists>lr. holder_load (up_holder u) = Some (lr_router lr) \<and> vetted_load C Y o' raw lr))
      \<and> (\<exists>bs. swaps u = swaps u0 @ bs \<and> list_all (vetted C Y o' raw) bs))"

lemma live_vetted_refl: "live_vetted C Y o' raw u u"
  by (simp add: live_vetted_def)

lemma live_vetted_same:
  "live_vetted C Y o' raw u0 u \<Longrightarrow> up_holder u' = up_holder u \<Longrightarrow> swaps u' = swaps u \<Longrightarrow> live_vetted C Y o' raw u0 u'"
  by (simp add: live_vetted_def)

lemma live_vetted_publish:
  "live_vetted C Y o' raw u0 u \<Longrightarrow> vetted_load C Y o' raw lr \<Longrightarrow>
     live_vetted C Y o' raw u0 (u\<lparr>up_holder := fst (holder_store (up_holder u) (Some (lr_router lr)))\<rparr>)"
  by (auto simp: live_vetted_def holder_load_def holder_store_def)

lemma live_vetted_swap:
  "live_vetted C Y o' raw u0 u \<Longrightarrow> vetted_load C Y o' raw lr \<Longrightarrow>
     live_vetted C Y o' raw u0 (u\<lparr>swaps := swaps u @ [lr_bundle lr]\<rparr>)"
  by (auto simp: live_vetted_def vetted_load_def)

lemma read_key_vetted:
  assumes "own_options o' opts" and "content_of w (uo_pubkey_path o') = Some raw"
    and "read_pubkey C (lo_pubkey_path opts) w = (Inr pub, w1)" and "verify_bytes C Y opts pub d sig = Inr lr"
  shows "vetted_load C Y o' raw lr"
  using assms read_pubkey_ok [OF assms(3)]
  by (auto simp: vetted_load_def vetted_def own_options_def pinned_def verify_bytes_iff)

text \<open>No step of a poll writes the key.\<close>

lemma key_kept_unsettled: "unsettled_only o' w w' \<Longrightarrow> files w' (uo_pubkey_path o') = files w (uo_pubkey_path o')"
  by (simp add: unsettled_only_def settled_def)

lemma key_kept_promote:
  assumes "paths_ok o'"
  shows "promote_step (uo_bundle_path o') (staged_bundle o') (previous_of (uo_bundle_path o')) p w = (r, w') \<Longrightarrow>
      files w' (uo_pubkey_path o') = files w (uo_pubkey_path o')"
    and "promote_step (uo_sig_path o') (staged_sig o') (previous_of (uo_sig_path o')) p w = (r, w') \<Longrightarrow>
      files w' (uo_pubkey_path o') = files w (uo_pubkey_path o')"
  using assms by (auto simp: paths_ok_def settled_def elim!: promote_step_frame)

lemma key_kept_write:
  assumes "paths_ok o'"
  shows "write_atomic (staged_bundle o') d w = (r, w') \<Longrightarrow> files w' (uo_pubkey_path o') = files w (uo_pubkey_path o')"
    and "write_atomic (staged_sig o') d w = (r, w') \<Longrightarrow> files w' (uo_pubkey_path o') = files w (uo_pubkey_path o')"
  using unsettled_write [OF assms] by (blast intro: key_kept_unsettled)+

lemma poll_step_key:
  assumes ok: "paths_ok o'" and step: "poll_step C Y o' fetch pc u w = (pc', u', w')" and "pc_vetted C Y o' raw pc"
  shows "files w' (uo_pubkey_path o') = files w (uo_pubkey_path o')"
proof (cases pc)
  case (PollUnstage ps e)
  then show ?thesis
    using assms by (cases ps) (auto intro!: key_kept_unsettled unsettled_cleanup)
qed (use step in \<open>auto split: prod.splits sum.splits
       dest: reads_frame read_pubkey_frame key_kept_write [OF ok] key_kept_promote [OF ok]\<close>)

lemma refuse_vetted [simp]: "pc_vetted C Y o' raw (refuse_staged o' e)"
  by (simp add: refuse_staged_def)

lemma after_fetch_vetted [simp]: "pc_vetted C Y o' raw (after_fetch C h answer)"
  by (simp add: after_fetch_def split: sum.split)

lemma staged_own [simp]: "own_options o' (staged_options o' u)"
  by (simp add: own_options_def staged_options_def)

lemma poll_step_vetted:
  assumes step: "poll_step C Y o' fetch pc u w = (pc', u', w')" and pc: "pc_vetted C Y o' raw pc"
    and key: "content_of w (uo_pubkey_path o') = Some raw" and live: "live_vetted C Y o' raw u0 u"
  shows "pc_vetted C Y o' raw pc' \<and> live_vetted C Y o' raw u0 u'"
proof (cases pc)
  case (PollUnstage ps e)
  then show ?thesis using step pc live by (cases ps) auto
next
  case (PollPublish res lr)
  then show ?thesis using step pc live_vetted_publish [OF live, of lr] by auto
next
  case (PollSwap lr)
  then show ?thesis using step pc live_vetted_swap [OF live, of lr] by auto
next
  case (PollReadKey res opts d sig)
  with pc have "own_options o' opts" by simp
  from read_key_vetted [OF this key] show ?thesis
    using step PollReadKey live by (auto split: prod.splits sum.splits)
qed (use step pc live in \<open>auto split: prod.splits sum.splits intro: live_vetted_same [OF live]\<close>)

definition polls_inv :: "crypto \<Rightarrow> yaml_codec \<Rightarrow> up_opts \<Rightarrow> bytes \<Rightarrow> updater \<Rightarrow> updater \<times> world \<Rightarrow> bool" where
  "polls_inv C Y o' raw u0 s =
     (paths_ok o' \<and> content_of (snd s) (uo_pubkey_path o') = Some raw \<and> live_vetted C Y o' raw u0 (fst s))"

lemma is_begin_vetted: "is_begin pc \<Longrightarrow> pc_vetted C Y o' raw pc"
  by (simp add: is_begin_def)

interpretation polls: job_contract "poll_act C Y o'" is_begin "key_untouched o'" "pc_vetted C Y o' raw"
  "polls_inv C Y o' raw u0" for C Y o' raw u0
proof (unfold_locales, goal_cases)
  case (1 pc)
  then show ?case by (rule is_begin_vetted)
next
  case (2 pc s x pc' s')
  then show ?case
    using poll_step_vetted [of C Y o' x pc "fst s" "snd s" pc' "fst s'" "snd s'" raw u0]
    by (simp add: poll_act_def polls_inv_def split_beta)
next
  case (3 pc s x pc' s')
  then show ?case
    using poll_step_vetted [of C Y o' x pc "fst s" "snd s" pc' "fst s'" "snd s'" raw u0]
      poll_step_key [of o' C Y x pc "fst s" "snd s" pc' "fst s'" "snd s'" raw]
    by (simp add: poll_act_def polls_inv_def split_beta content_of_def)
next
  case (4 s s')
  then show ?case by (simp add: polls_inv_def key_untouched_def content_of_def)
qed

text \<open>
  C6: however many polls, from whatever callers, interleave their steps, whatever they fetch, whichever
  calls fail and whatever others write to any file but the key, the live router is the one of the start
  or is built from a bundle whose bytes carry a signature under the pinned key, that is valid and is meant
  for this binary; and so is every bundle handed to the hook.
\<close>

theorem interleaved_polls_vetted:
  assumes "paths_ok o'" and "polls_reach C Y o' u0 w0 j" and "content_of w0 (uo_pubkey_path o') = Some raw"
  shows "(holder_load (up_holder (poll_up j)) = holder_load (up_holder u0)
        \<or> (\<exists>lr. holder_load (up_holder (poll_up j)) = Some (lr_router lr) \<and> vetted_load C Y o' raw lr))
      \<and> (\<exists>bs. swaps (poll_up j) = swaps u0 @ bs \<and> list_all (vetted C Y o' raw) bs)"
proof -
  have "polls_inv C Y o' raw u0 (u0, w0)"
    using assms(1,3) by (simp add: polls_inv_def live_vetted_refl)
  from polls.reach_keeps [OF assms(2) [unfolded polls_reach_def] this] show ?thesis
    by (simp add: polls_inv_def live_vetted_def)
qed

section \<open>What interleaving breaks\<close>

text \<open>The fixtures run bundle A; \<open>ex_yaml_next\<close> also knows a bundle \<open>N\<close> newer than B.\<close>

definition ex_yaml_next :: yaml_codec where
  "ex_yaml_next = ex_yaml\<lparr>yaml_first := (\<lambda>d. if d = ''N'' then Some (ex_bundle ''2026-03-01'') else yaml_first ex_yaml d)\<rparr>"

type_synonym poll_schedule = "(string \<Rightarrow> fetch_err + fetch_result, poll_pc) schedule"

definition ex_polls :: "poll_schedule \<Rightarrow> polls" where
  "ex_polls es = run_schedule (poll_act ex_crypto ex_yaml_next ex_up_opts) es (no_jobs (ex_updater, ex_world []))"

definition only_begins :: "poll_schedule \<Rightarrow> bool" where
  "only_begins es = list_all (\<lambda>e. case e of Inl pc \<Rightarrow> is_begin pc | Inr _ \<Rightarrow> True) es"

lemma ex_polls_reach:
  "only_begins es \<Longrightarrow> polls_reach ex_crypto ex_yaml_next ex_up_opts ex_updater (ex_world []) (ex_polls es)"
  unfolding ex_polls_def polls_reach_def only_begins_def by (intro run_schedule_reach jobs_reach.here)

definition ended_well :: "poll_pc \<Rightarrow> bool" where
  "ended_well pc = (case pc of PollDone (Inr _) \<Rightarrow> True | _ \<Rightarrow> False)"

text \<open>Poll 0 has promoted B and is about to publish it when poll 1 fetches, verifies and publishes N.\<close>

definition ex_regress :: poll_schedule where
  "ex_regress = [Inl PollBegin, Inr (0, 14, ex_fetch ''B''), Inl PollBegin, Inr (1, 17, ex_fetch ''N''), Inr (0, 3, ex_fetch ''B'')]"

text \<open>Here poll 0 stores its router last but runs its hook first.\<close>

definition ex_hooks_crossed :: poll_schedule where
  "ex_hooks_crossed = [Inl PollBegin, Inr (0, 14, ex_fetch ''B''), Inl PollBegin, Inr (1, 15, ex_fetch ''N''),
     Inr (0, 3, ex_fetch ''B''), Inr (1, 2, ex_fetch ''N'')]"

text \<open>Poll 0 has verified B when poll 1 stages C, which nobody signed.\<close>

definition ex_substituted :: poll_schedule where
  "ex_substituted = [Inl PollBegin, Inr (0, 8, ex_fetch ''B''), Inl PollBegin, Inr (1, 4, ex_fetch ''C''),
     Inr (0, 9, ex_fetch ''B''), Inr (1, 5, ex_fetch ''C'')]"

text \<open>What of a state the counterexamples look at.\<close>

definition outcome_of :: "polls \<Rightarrow> bool list \<times> string list \<times> string \<times> bytes option" where
  "outcome_of s = (map ended_well (job_pcs s), map bundle_version (swaps (poll_up s)),
     live_version (poll_up s), content_of (poll_world s) (uo_bundle_path ex_up_opts))"

lemma ex_regress_run:
  "outcome_of (ex_polls ex_regress) = ([True, True], [''2026-03-01'', ''2026-02-01''], ''2026-02-01'', Some ''N'')"
  by code_simp

lemma ex_hooks_crossed_run:
  "outcome_of (ex_polls ex_hooks_crossed) = ([True, True], [''2026-02-01'', ''2026-03-01''], ''2026-02-01'', Some ''N'')"
  by code_simp

lemma ex_substituted_run:
  "outcome_of (ex_polls ex_substituted) = ([True, False], [''2026-02-01''], ''2026-02-01'', Some ''C'')"
  by code_simp

lemma ex_begins: "only_begins ex_regress" "only_begins ex_hooks_crossed" "only_begins ex_substituted"
  by (simp_all add: only_begins_def is_begin_def ex_regress_def ex_hooks_crossed_def ex_substituted_def)

lemmas ex_reached = ex_begins [THEN ex_polls_reach]

lemmas ex_runs = ex_regress_run ex_hooks_crossed_run ex_substituted_run

text \<open>
  Two overlapping polls that both succeed can leave an older bundle live than one that was live
  before, which a sequence of polls never does; and their hooks can run in the other order than their
  stores, so that what the hook configures, the hosts the egress filter lets through, belongs to
  another bundle than the live router.
\<close>

theorem interleaved_polls_regress:
  "\<exists>C Y o' u0 w0 s s'. paths_ok o' \<and> polls_reach C Y o' u0 w0 s \<and> polls_reach C Y o' u0 w0 s'
     \<and> list_all ended_well (job_pcs s) \<and> list_all ended_well (job_pcs s')
     \<and> (\<exists>b\<in>set (swaps (poll_up s)). live_version (poll_up s) < bundle_version b \<and> b \<noteq> last (swaps (poll_up s)))
     \<and> live_version (poll_up s') < bundle_version (last (swaps (poll_up s')))"
proof -
  from ex_runs(1) have r: "map ended_well (job_pcs (ex_polls ex_regress)) = [True, True]"
      "map bundle_version (swaps (poll_up (ex_polls ex_regress))) = [''2026-03-01'', ''2026-02-01'']"
      "live_version (poll_up (ex_polls ex_regress)) = ''2026-02-01''"
    by (simp_all add: outcome_of_def)
  from ex_runs(2) have h: "map ended_well (job_pcs (ex_polls ex_hooks_crossed)) = [True, True]"
      "map bundle_version (swaps (poll_up (ex_polls ex_hooks_crossed))) = [''2026-02-01'', ''2026-03-01'']"
      "live_version (poll_up (ex_polls ex_hooks_crossed)) = ''2026-02-01''"
    by (simp_all add: outcome_of_def)
  have less: "''2026-02-01'' < (''2026-03-01'' :: string)" by code_simp
  from r(2) obtain b b' where sw: "swaps (poll_up (ex_polls ex_regress)) = [b, b']"
      "bundle_version b = ''2026-03-01''" "bundle_version b' = ''2026-02-01''" by auto
  from h(2) obtain c c' where sw': "swaps (poll_up (ex_polls ex_hooks_crossed)) = [c, c']"
      "bundle_version c' = ''2026-03-01''" by auto
  have "b \<noteq> b'" using sw by auto
  moreover have "list_all ended_well (job_pcs (ex_polls ex_regress))"
      "list_all ended_well (job_pcs (ex_polls ex_hooks_crossed))"
    using r(1) h(1) by (auto simp: list_all_iff)
  ultimately show ?thesis
    using r(3) h(3) sw sw' less ex_paths_ok ex_reached
    by (intro exI [of _ ex_crypto] exI [of _ ex_yaml_next] exI [of _ ex_up_opts] exI [of _ ex_updater]
        exI [of _ "ex_world []"] exI [of _ "ex_polls ex_regress"] exI [of _ "ex_polls ex_hooks_crossed"]) simp
qed

text \<open>The options with which the proxy loads the promoted files when it starts again.\<close>

definition restart_options :: "up_opts \<Rightarrow> load_options" where
  "restart_options o' = \<lparr>lo_bundle_path = uo_bundle_path o', lo_sig_path = uo_sig_path o',
     lo_pubkey_path = uo_pubkey_path o', lo_binary_version = uo_binary_version o', lo_previous_version = []\<rparr>"

text \<open>
  A poll can succeed and publish the bundle it verified although it promoted the bytes that
  another poll staged in between, which nobody verified. The files on disk are then not those of the
  live bundle, and a proxy started on them refuses to run.
\<close>

theorem unverified_bytes_promoted:
  "\<exists>C Y o' u0 w0 s. paths_ok o' \<and> polls_reach C Y o' u0 w0 s \<and> ended_well (job_pcs s ! 0)
     \<and> length (swaps (poll_up s)) = 1
     \<and> (\<forall>fs. \<not> is_ok (fst (load_and_verify C Y (restart_options o') ((poll_world s)\<lparr>faults := fs\<rparr>))))"
proof -
  let ?s = "ex_polls ex_substituted"
  from ex_runs(3) have r: "map bundle_version (swaps (poll_up ?s)) = [''2026-02-01'']"
      "content_of (poll_world ?s) (uo_bundle_path ex_up_opts) = Some ''C''"
    by (simp_all add: outcome_of_def)
  from ex_runs(3) have "map ended_well (job_pcs ?s) = [True, False]" by (simp add: outcome_of_def)
  then have e: "ended_well (job_pcs ?s ! 0)" by (cases "job_pcs ?s") auto
  have "\<not> is_ok (fst (load_and_verify ex_crypto ex_yaml_next (restart_options ex_up_opts) ((poll_world ?s)\<lparr>faults := fs\<rparr>)))"
    for fs
  proof
    assume "is_ok (fst (load_and_verify ex_crypto ex_yaml_next (restart_options ex_up_opts) ((poll_world ?s)\<lparr>faults := fs\<rparr>)))"
    then obtain lr w' where
      "load_and_verify ex_crypto ex_yaml_next (restart_options ex_up_opts) ((poll_world ?s)\<lparr>faults := fs\<rparr>) = (Inr lr, w')"
      by (metis is_ok_Inr prod.collapse)
    from load_sound [OF this] r(2) show False
      by (auto simp: loadable_def restart_options_def content_of_def bytes_ok_def ex_yaml_next_def ex_yaml_def)
  qed
  moreover have "length (swaps (poll_up ?s)) = 1" using r(1) by (metis length_map list.size(3,4) One_nat_def add.commute plus_1_eq_Suc)
  ultimately show ?thesis
    using e ex_paths_ok ex_reached
    by (intro exI [of _ ex_crypto] exI [of _ ex_yaml_next] exI [of _ ex_up_opts] exI [of _ ex_updater]
        exI [of _ "ex_world []"] exI [of _ ?s]) simp
qed

section \<open>Witness\<close>

theorem interleaved_polls_vetted_witness:
  "\<exists>b b'. swaps (poll_up (ex_polls ex_regress)) = [b, b']
     \<and> vetted ex_crypto ex_yaml_next ex_up_opts ''key'' b \<and> vetted ex_crypto ex_yaml_next ex_up_opts ''key'' b'"
proof -
  have k: "content_of (ex_world []) (uo_pubkey_path ex_up_opts) = Some ''key''"
    by (simp add: content_of_def ex_world_def ex_up_opts_def ex_entry_def)
  have n: "swaps ex_updater = []" by (simp add: ex_updater_def new_updater_def)
  from ex_runs(1) have "length (map bundle_version (swaps (poll_up (ex_polls ex_regress)))) = 2"
    by (simp add: outcome_of_def)
  then obtain b b' where sw: "swaps (poll_up (ex_polls ex_regress)) = [b, b']"
    by (auto simp: length_Suc_conv numeral_2_eq_2)
  from interleaved_polls_vetted [OF ex_paths_ok ex_reached(1) k] n sw show ?thesis by auto
qed

end
