(* ===== verification/UploadSteps.thy ===== *)
theory UploadSteps
  imports PollSteps BinUpd
begin

text \<open>
  Uploads of binaries and rollbacks as steps (\<open>internal/binupd/binupd.go\<close>). \<open>Apply\<close> has no lock of its own: the
  admin plane calls it on the goroutine of each request, and \<open>--rollback-binary\<close> is another process. Writing
  the staged file is one step, since all of it but the last rename acts on a temporary file of its own; every
  other system call is a step. Alone, the steps are \<open>apply_binary\<close> and \<open>rollback\<close>. Interleaved, they never put
  an unsigned binary into a slot, but they can leave the current slot empty.
\<close>

section \<open>Steps\<close>

datatype bin_pc =
    UpVerify bytes bytes
  | UpStage bytes
  | UpPromote promote_pc
  | UpDiscard bin_err
  | RbStat
  | RbStash
  | RbPromote
  | RbUndo bin_err
  | RbDemote
  | BinDone "bin_err + unit"

fun bin_err_of :: "promote_err \<Rightarrow> bin_err" where
  "bin_err_of (StatErr e) = BinStat e"
| "bin_err_of (RotateErr e) = BinRotate e"
| "bin_err_of (PromoteErr e) = BinPromote e"

fun bin_step :: "crypto \<Rightarrow> receiver \<Rightarrow> bin_pc \<Rightarrow> world \<Rightarrow> bin_pc \<times> world" where
  "bin_step C r (UpVerify bin sig) w =
     (if sig = [] then BinDone (Inl BinSignatureEmpty)
      else if \<not> verify_asn1 C (rc_pub r) (sha256 C bin) sig then BinDone (Inl BinSignatureInvalid)
      else UpStage bin, w)"
| "bin_step C r (UpStage bin) w =
     (case write_executable (bo_staged_path (rc_opts r)) bin w of
        (Inl e, w1) \<Rightarrow> (BinDone (Inl (BinStage e)), w1)
      | (Inr _, w1) \<Rightarrow> (UpPromote PrStat, w1))"
| "bin_step C r (UpPromote p) w =
     (case promote_step (bo_current_path (rc_opts r)) (bo_staged_path (rc_opts r)) (bo_previous_path (rc_opts r)) p w of
        (Inl p', w1) \<Rightarrow> (UpPromote p', w1)
      | (Inr (Inl e), w1) \<Rightarrow> (UpDiscard (bin_err_of e), w1)
      | (Inr (Inr _), w1) \<Rightarrow> (BinDone (Inr ()), w1))"
| "bin_step C r (UpDiscard e) w = (BinDone (Inl e), cleanup (bo_staged_path (rc_opts r)) w)"
| "bin_step C r RbStat w =
     (case os_stat (bo_previous_path (rc_opts r)) w of
        (Inl e, w1) \<Rightarrow> (BinDone (Inl (NoPrevious e)), w1) | (Inr _, w1) \<Rightarrow> (RbStash, w1))"
| "bin_step C r RbStash w =
     (case os_rename (bo_current_path (rc_opts r)) (rollback_tmp (rc_opts r)) w of
        (Inl e, w1) \<Rightarrow> (BinDone (Inl (StashCurrent e)), w1) | (Inr _, w1) \<Rightarrow> (RbPromote, w1))"
| "bin_step C r RbPromote w =
     (case os_rename (bo_previous_path (rc_opts r)) (bo_current_path (rc_opts r)) w of
        (Inl e, w1) \<Rightarrow> (RbUndo (PromotePrevious e), w1) | (Inr _, w1) \<Rightarrow> (RbDemote, w1))"
| "bin_step C r (RbUndo e) w =
     (BinDone (Inl e), snd (os_rename (rollback_tmp (rc_opts r)) (bo_current_path (rc_opts r)) w))"
| "bin_step C r RbDemote w =
     (case os_rename (rollback_tmp (rc_opts r)) (bo_previous_path (rc_opts r)) w of
        (Inl e, w1) \<Rightarrow> (BinDone (Inl (DemoteCurrent e)), w1) | (Inr _, w1) \<Rightarrow> (BinDone (Inr ()), w1))"
| "bin_step C r (BinDone res) w = (BinDone res, w)"

section \<open>Left alone\<close>

fun bin_rank :: "bin_pc \<Rightarrow> nat" where
  "bin_rank (UpVerify _ _) = 6"
| "bin_rank (UpStage _) = 5"
| "bin_rank (UpPromote p) = 2 + promote_rank p"
| "bin_rank (UpDiscard _) = 1"
| "bin_rank RbStat = 4"
| "bin_rank RbStash = 3"
| "bin_rank RbPromote = 2"
| "bin_rank (RbUndo _) = 1"
| "bin_rank RbDemote = 1"
| "bin_rank (BinDone _) = 0"

lemma bin_step_rank: "bin_rank pc \<noteq> 0 \<Longrightarrow> bin_rank (fst (bin_step C r pc w)) < bin_rank pc"
  by (cases pc) (auto split: prod.splits sum.splits dest: promote_step_rank)

function bin_run :: "crypto \<Rightarrow> receiver \<Rightarrow> bin_pc \<Rightarrow> world \<Rightarrow> bin_pc \<times> world" where
  "bin_run C r pc w =
     (if bin_rank pc = 0 then (pc, w) else bin_run C r (fst (bin_step C r pc w)) (snd (bin_step C r pc w)))"
  by pat_completeness auto
termination
  by (relation "measure (\<lambda>(C, r, pc, w). bin_rank pc)") (simp_all add: split_beta bin_step_rank)

declare bin_run.simps [simp del]

lemma bin_run_done [simp]: "bin_run C r (BinDone res) w = (BinDone res, w)"
  by (subst bin_run.simps) simp

lemma bin_run_step:
  "bin_rank pc \<noteq> 0 \<Longrightarrow> bin_run C r pc w = (case bin_step C r pc w of (pc', w') \<Rightarrow> bin_run C r pc' w')"
  by (subst bin_run.simps) (simp add: split_beta)

lemma run_discard [simp]:
  "bin_run C r (UpDiscard e) w = (BinDone (Inl e), cleanup (bo_staged_path (rc_opts r)) w)"
  by (subst bin_run_step) simp_all

lemma run_up_promote:
  "bin_run C r (UpPromote p) w =
     (case promote_run (bo_current_path (rc_opts r)) (bo_staged_path (rc_opts r)) (bo_previous_path (rc_opts r)) p w of
        (Inl e, w1) \<Rightarrow> bin_run C r (UpDiscard (bin_err_of e)) w1
      | (Inr _, w1) \<Rightarrow> (BinDone (Inr ()), w1))"
proof (induction p arbitrary: w rule: promote_pc_induct)
  case (step p)
  then show ?case
    by (subst promote_run.simps, subst bin_run_step) (auto split: prod.split sum.split dest: promote_step_rank)
qed

lemma bin_promote_run:
  "bin_promote cur staged prev w =
     (case promote_run cur staged prev PrStat w of
        (Inl e, w1) \<Rightarrow> (Inl (bin_err_of e), w1) | (Inr _, w1) \<Rightarrow> (Inr (), w1))"
  by (simp add: promote_run_at bin_promote_def Let_def split: prod.split sum.split os_err.split)

text \<open>
  An upload and a rollback whose steps nothing comes between do what \<open>apply_binary\<close> and \<open>rollback\<close> do.\<close>

theorem uploads_alone:
  "bin_run C r (UpVerify bin sig) w = (case apply_binary C r bin sig w of (res, w') \<Rightarrow> (BinDone res, w'))
   \<and> bin_run C r RbStat w = (case rollback r w of (res, w') \<Rightarrow> (BinDone res, w'))"
proof
  have stage: "bin_run C r (UpStage bin) w = (case write_executable (bo_staged_path (rc_opts r)) bin w of
      (Inl e, w1) \<Rightarrow> (BinDone (Inl (BinStage e)), w1) | (Inr _, w1) \<Rightarrow> bin_run C r (UpPromote PrStat) w1)"
    by (subst bin_run_step) (simp_all split: prod.split sum.split)
  show "bin_run C r (UpVerify bin sig) w = (case apply_binary C r bin sig w of (res, w') \<Rightarrow> (BinDone res, w'))"
    by (subst bin_run_step, simp)
      (simp add: stage run_up_promote apply_binary_def bin_promote_run Let_def split: prod.split sum.split)
  have undo: "bin_run C r (RbUndo e) w = (BinDone (Inl e),
      snd (os_rename (rollback_tmp (rc_opts r)) (bo_current_path (rc_opts r)) w))" for e w
    by (subst bin_run_step) simp_all
  show "bin_run C r RbStat w = (case rollback r w of (res, w') \<Rightarrow> (BinDone res, w'))"
    by (simp add: bin_run_step [of RbStat] bin_run_step [of RbStash] bin_run_step [of RbPromote]
        bin_run_step [of RbDemote] undo rollback_def Let_def split: prod.split sum.split)
qed

section \<open>Interleaved\<close>

definition slots :: "bin_opts \<Rightarrow> path set" where
  "slots o' = {bo_current_path o', bo_previous_path o', bo_staged_path o', rollback_tmp o'}"

fun bin_start :: "bin_pc \<Rightarrow> bool" where
  "bin_start (UpVerify _ _) = True"
| "bin_start RbStat = True"
| "bin_start _ = False"

definition bin_act :: "crypto \<Rightarrow> receiver \<Rightarrow> unit \<Rightarrow> bin_pc \<Rightarrow> world \<Rightarrow> bin_pc \<times> world" where
  "bin_act C r x pc w = bin_step C r pc w"

definition slots_untouched :: "receiver \<Rightarrow> world \<Rightarrow> world \<Rightarrow> bool" where
  "slots_untouched r w w' = (\<forall>p\<in>slots (rc_opts r). files w' p = files w p)"

definition uploads_reach :: "crypto \<Rightarrow> receiver \<Rightarrow> world \<Rightarrow> (bin_pc, world) jobs \<Rightarrow> bool" where
  "uploads_reach C r w0 j = jobs_reach (bin_act C r) bin_start (slots_untouched r) w0 j"

definition signed_binary :: "crypto \<Rightarrow> receiver \<Rightarrow> bytes \<Rightarrow> bool" where
  "signed_binary C r bin = (\<exists>sig. sig \<noteq> [] \<and> verify_asn1 C (rc_pub r) (sha256 C bin) sig)"

text \<open>A binary that may be in a slot: it was in one at the start, or it is signed.\<close>

definition slot_binary :: "crypto \<Rightarrow> receiver \<Rightarrow> world \<Rightarrow> bytes \<Rightarrow> bool" where
  "slot_binary C r w0 bin = ((\<exists>p\<in>slots (rc_opts r). content_of w0 p = Some bin) \<or> signed_binary C r bin)"

definition slots_fine :: "crypto \<Rightarrow> receiver \<Rightarrow> world \<Rightarrow> world \<Rightarrow> bool" where
  "slots_fine C r w0 w =
     (bin_paths_ok (rc_opts r)
      \<and> (\<forall>p\<in>slots (rc_opts r). \<forall>f. files w p = Some f \<longrightarrow> slot_binary C r w0 (content f)))"

fun bin_good :: "crypto \<Rightarrow> receiver \<Rightarrow> bin_pc \<Rightarrow> bool" where
  "bin_good C r (UpStage bin) = signed_binary C r bin"
| "bin_good C r _ = True"

lemma slots_fine_same: "slots_fine C r w0 w \<Longrightarrow> files w' = files w \<Longrightarrow> slots_fine C r w0 w'"
  by (simp add: slots_fine_def)

lemma slots_fine_rename:
  assumes "slots_fine C r w0 w" and "os_rename a b w = (res, w')" and "a \<in> slots (rc_opts r)"
  shows "slots_fine C r w0 w'"
proof (cases res)
  case (Inl e)
  with assms(1,2) show ?thesis by (auto intro: slots_fine_same dest: os_rename_err)
next
  case (Inr u)
  with assms(2) obtain fl where "files w a = Some fl" "files w' = (files w)(a := None, b \<mapsto> fl)"
    by (auto dest: os_rename_ok)
  with assms(1,3) show ?thesis by (auto simp: slots_fine_def)
qed

lemma slots_fine_touches:
  "slots_fine C r w0 w \<Longrightarrow> only_touches {t} w w' \<Longrightarrow> t \<notin> slots (rc_opts r) \<Longrightarrow> slots_fine C r w0 w'"
  by (auto simp: slots_fine_def only_touches_def)

lemma slots_fine_cleanup: "slots_fine C r w0 w \<Longrightarrow> slots_fine C r w0 (cleanup t w)"
proof (cases "os_remove t w")
  case (Pair res w')
  assume "slots_fine C r w0 w"
  with Pair show ?thesis
    by (cases w rule: draw_cases) (auto simp: cleanup_def os_remove_def slots_fine_def split: if_splits)
qed

lemma rollback_tmp_no_temp: "rollback_tmp o' \<noteq> tmp_name p n"
proof
  assume "rollback_tmp o' = tmp_name p n"
  then have "last (rollback_tmp o') = last (tmp_name p n)" by simp
  then have "last (nat_str n) = CHR ''p''" by (simp add: rollback_tmp_def tmp_name_def)
  moreover have "is_digit (last (nat_str n))"
    using nat_str_digits [of n] by (simp add: list_all_iff)
  moreover have "\<not> is_digit (CHR ''p'')" by code_simp
  ultimately show False by simp
qed

lemma slots_no_temp: "bin_paths_ok o' \<Longrightarrow> tmp_name (bo_staged_path o') n \<notin> slots o'"
  using bin_paths_tmp [of o' n] rollback_tmp_no_temp [of o' "bo_staged_path o'" n]
  by (auto simp: slots_def)

lemma slots_fine_stage:
  assumes fine: "slots_fine C r w0 w" and "write_executable (bo_staged_path (rc_opts r)) bin w = (res, w')"
    and "signed_binary C r bin"
  shows "slots_fine C r w0 w'"
proof (cases res)
  case (Inl e)
  with assms(2) have "only_touches {tmp_name (bo_staged_path (rc_opts r)) (tmp_seq w)} w w'"
    by (auto intro: write_executable_err)
  moreover have "bin_paths_ok (rc_opts r)" using fine by (simp add: slots_fine_def)
  ultimately show ?thesis using slots_fine_touches [OF fine] slots_no_temp by blast
next
  case (Inr u)
  with assms have "files w' = (files w)(bo_staged_path (rc_opts r) \<mapsto> \<lparr>content = bin, mode = 493\<rparr>)"
    by (auto intro: write_executable_ok)
  moreover have "slot_binary C r w0 bin" using assms(3) by (simp add: slot_binary_def)
  ultimately show ?thesis using fine by (auto simp: slots_fine_def split: if_splits)
qed

lemma slots_fine_promote:
  assumes "slots_fine C r w0 w"
    and "promote_step (bo_current_path (rc_opts r)) (bo_staged_path (rc_opts r)) (bo_previous_path (rc_opts r)) p w = (res, w')"
  shows "slots_fine C r w0 w'"
  using assms(2)
  by (cases p) (auto simp: slots_def split: prod.splits sum.splits os_err.splits
      intro: slots_fine_same [OF assms(1)] slots_fine_rename [OF assms(1)] dest: reads_frame)

lemma bin_step_fine:
  assumes fine: "slots_fine C r w0 w" and "bin_good C r pc" and step: "bin_step C r pc w = (pc', w')"
  shows "slots_fine C r w0 w'"
proof (cases pc)
  case (UpStage bin)
  then show ?thesis
    using assms slots_fine_stage [OF fine] by (auto split: prod.splits sum.splits)
next
  case (UpPromote p)
  then show ?thesis using step slots_fine_promote [OF fine] by (auto split: prod.splits sum.splits)
next
  case (UpDiscard e)
  then show ?thesis using step slots_fine_cleanup [OF fine] by auto
next
  case (RbUndo e)
  have "slots_fine C r w0 (snd (os_rename (rollback_tmp (rc_opts r)) (bo_current_path (rc_opts r)) w))"
    by (rule slots_fine_rename [OF fine prod.collapse [symmetric]]) (simp add: slots_def)
  with RbUndo step show ?thesis by auto
qed (use step fine in \<open>auto simp: slots_def split: prod.splits sum.splits
       intro: slots_fine_same [OF fine] slots_fine_rename [OF fine] dest: reads_frame\<close>)

lemma bin_step_good: "bin_step C r pc w = (pc', w') \<Longrightarrow> bin_good C r pc'"
  by (cases pc) (auto simp: signed_binary_def split: prod.splits sum.splits if_splits)

interpretation uploads: job_contract "bin_act C r" bin_start "slots_untouched r" "bin_good C r"
  "slots_fine C r w0" for C r w0
proof (unfold_locales, goal_cases)
  case (1 pc)
  then show ?case by (cases pc) simp_all
next
  case (2 pc s x pc' s')
  then show ?case by (auto simp: bin_act_def intro: bin_step_good)
next
  case (3 pc s x pc' s')
  then show ?case by (auto simp: bin_act_def intro: bin_step_fine)
next
  case (4 s s')
  then show ?case by (auto simp: slots_fine_def slots_untouched_def)
qed

text \<open>
  C31: however many uploads and rollbacks interleave, whichever calls fail, every binary in the current,
  previous, staged or rollback slot was in one of them at the start or carries a signature under the
  receiver's key.
\<close>

theorem interleaved_uploads_signed:
  assumes "bin_paths_ok (rc_opts r)" and "uploads_reach C r w0 j"
    and "p \<in> slots (rc_opts r)" and "content_of (shared j) p = Some bin"
  shows "(\<exists>q\<in>slots (rc_opts r). content_of w0 q = Some bin)
      \<or> (\<exists>sig. sig \<noteq> [] \<and> verify_asn1 C (rc_pub r) (sha256 C bin) sig)"
proof -
  have "slots_fine C r w0 w0"
    using assms(1) by (auto simp: slots_fine_def slot_binary_def content_of_def)
  from uploads.reach_keeps [OF assms(2) [unfolded uploads_reach_def] this] assms(3,4) show ?thesis
    by (auto simp: slots_fine_def slot_binary_def signed_binary_def content_of_def)
qed

section \<open>Two uploads can lose the current binary\<close>

text \<open>Both uploads are staged before either promotes.\<close>

definition ex_two_uploads :: "(unit, bin_pc) schedule" where
  "ex_two_uploads = [Inl (UpVerify ''v2'' ''sig''), Inl (UpVerify ''v3'' ''sig''),
     Inr (0, 2, ()), Inr (1, 2, ()), Inr (0, 3, ()), Inr (1, 4, ())]"

definition ex_uploads :: "(bin_pc, world) jobs" where
  "ex_uploads = run_schedule (bin_act ex_crypto ex_receiver) ex_two_uploads (no_jobs (ex_bin_world []))"

lemma ex_uploads_reach: "uploads_reach ex_crypto ex_receiver (ex_bin_world []) ex_uploads"
  unfolding uploads_reach_def ex_uploads_def
  by (intro run_schedule_reach jobs_reach.here) (simp add: ex_two_uploads_def)

lemma ex_uploads_run:
  "(map (\<lambda>pc. bin_rank pc = 0) (job_pcs ex_uploads), map (\<lambda>p. content_of (shared ex_uploads) p) [''c'', ''p'', ''t''])
     = ([True, True], [None, Some ''v3'', None])"
  by code_simp

text \<open>
  Two uploads of signed binaries that overlap, without any failing call, can end with no current
  binary at all, and with the binary that was current before in no slot: the second promotion moves what the
  first installed to the previous path and then finds nothing staged.
\<close>

theorem interleaved_uploads_lose_current:
  "\<exists>C r w0 j. bin_paths_ok (rc_opts r) \<and> healthy w0 \<and> content_of w0 (bo_current_path (rc_opts r)) = Some ''v1''
     \<and> uploads_reach C r w0 j \<and> list_all (\<lambda>pc. bin_rank pc = 0) (job_pcs j)
     \<and> content_of (shared j) (bo_current_path (rc_opts r)) = None
     \<and> list_all (\<lambda>p. content_of (shared j) p \<noteq> Some ''v1'')
         [bo_current_path (rc_opts r), bo_previous_path (rc_opts r), bo_staged_path (rc_opts r)]"
proof -
  have "healthy (ex_bin_world [])" by (simp add: healthy_def ex_bin_world_def)
  moreover have "content_of (ex_bin_world []) (bo_current_path (rc_opts ex_receiver)) = Some ''v1''"
    by (simp add: content_of_def ex_bin_world_def ex_receiver_def ex_entry_def)
  moreover have "list_all (\<lambda>pc. bin_rank pc = 0) (job_pcs ex_uploads)"
    using ex_uploads_run by (auto simp: list_all_iff)
  ultimately show ?thesis
    using ex_uploads_run ex_bin_paths ex_uploads_reach
    by (intro exI [of _ ex_crypto] exI [of _ ex_receiver] exI [of _ "ex_bin_world []"] exI [of _ ex_uploads])
      (simp add: ex_receiver_def)
qed

section \<open>Witness\<close>

theorem interleaved_uploads_signed_witness:
  "content_of (shared ex_uploads) ''p'' = Some ''v3''
   \<and> ((\<exists>q\<in>slots (rc_opts ex_receiver). content_of (ex_bin_world []) q = Some ''v3'')
      \<or> (\<exists>sig. sig \<noteq> [] \<and> verify_asn1 ex_crypto (rc_pub ex_receiver) (sha256 ex_crypto ''v3'') sig))"
proof -
  have p: "content_of (shared ex_uploads) ''p'' = Some ''v3''" using ex_uploads_run by simp
  have s: "''p'' \<in> slots (rc_opts ex_receiver)" by (simp add: slots_def ex_receiver_def)
  from interleaved_uploads_signed [OF ex_bin_paths ex_uploads_reach s p] p show ?thesis by blast
qed

end
