(* ===== verification/StoreRaces.thy ===== *)
theory StoreRaces
  imports BrokersFacts Interleave
begin

text \<open>
  Requests of the broker store that overlap (\<open>persist\<close> of \<open>tools/admin-ui/brokers.go\<close>). The store's mutex
  guards the schema only, and every write of a broker goes through the same name, the broker's file with
  \<open>.tmp\<close> appended. What an open file does when another goroutine opens, truncates or renames its name needs
  names and files kept apart: a name refers to an inode, an open file writes at its own offset into its inode.
  Writes of different brokers do not disturb each other; two writes of one broker can leave a file that is
  neither's.
\<close>

section \<open>Names and inodes\<close>

record inode_fs =
  names :: "path \<rightharpoonup> nat"
  inodes :: "nat \<Rightarrow> bytes"
  next_inode :: nat

definition fs_content :: "inode_fs \<Rightarrow> path \<Rightarrow> bytes option" where
  "fs_content fs p = map_option (inodes fs) (names fs p)"

text \<open>\<open>os.Create\<close>: an existing file is truncated, a new name gets a new inode.\<close>

definition fs_create :: "path \<Rightarrow> inode_fs \<Rightarrow> nat \<times> inode_fs" where
  "fs_create p fs =
     (case names fs p of
        Some n \<Rightarrow> (n, fs\<lparr>inodes := (inodes fs)(n := [])\<rparr>)
      | None \<Rightarrow> (next_inode fs, fs\<lparr>names := (names fs)(p \<mapsto> next_inode fs),
           inodes := (inodes fs)(next_inode fs := []), next_inode := Suc (next_inode fs)\<rparr>))"

text \<open>A write at an offset; a gap before it reads as zero bytes.\<close>

definition write_at :: "nat \<Rightarrow> bytes \<Rightarrow> bytes \<Rightarrow> bytes" where
  "write_at off d c = take off c @ replicate (off - length c) (char_of (0 :: nat)) @ d @ drop (off + length d) c"

definition fs_write :: "nat \<Rightarrow> nat \<Rightarrow> bytes \<Rightarrow> inode_fs \<Rightarrow> inode_fs" where
  "fs_write n off d fs = fs\<lparr>inodes := (inodes fs)(n := write_at off d (inodes fs n))\<rparr>"

definition fs_rename :: "path \<Rightarrow> path \<Rightarrow> inode_fs \<Rightarrow> inode_fs option" where
  "fs_rename p q fs = map_option (\<lambda>n. fs\<lparr>names := (names fs)(p := None, q \<mapsto> n)\<rparr>) (names fs p)"

definition fs_remove :: "path \<Rightarrow> inode_fs \<Rightarrow> inode_fs" where
  "fs_remove p fs = fs\<lparr>names := (names fs)(p := None)\<rparr>"

section \<open>A write of a broker file\<close>

text \<open>
  Where \<open>persist\<close> is: \<open>AtFlush n k\<close> has written \<open>k\<close> bytes into inode \<open>n\<close> and will write what the encoder's
  \<open>Close\<close> gives. The input of a step says whether its system call fails.
\<close>

datatype put_at = AtCreate | AtWrite nat | AtFlush nat nat | AtClose | AtRename | AtUnlink | AtEnd bool

record put_job =
  put_dst :: path
  put_first :: bytes
  put_rest :: bytes
  put_at :: put_at

definition put_tmp :: "put_job \<Rightarrow> path" where "put_tmp b = put_dst b @ ''.tmp''"

definition put_data :: "put_job \<Rightarrow> bytes" where "put_data b = put_first b @ put_rest b"

definition put_step :: "bool \<Rightarrow> put_job \<Rightarrow> inode_fs \<Rightarrow> put_job \<times> inode_fs" where
  "put_step fails b fs =
     (let goto = (\<lambda>a. b\<lparr>put_at := a\<rparr>) in
      case put_at b of
        AtCreate \<Rightarrow> if fails then (goto (AtEnd False), fs)
          else (case fs_create (put_tmp b) fs of (n, fs') \<Rightarrow> (goto (AtWrite n), fs'))
      | AtWrite n \<Rightarrow> if fails then (goto AtUnlink, fs)
          else (goto (AtFlush n (length (put_first b))), fs_write n 0 (put_first b) fs)
      | AtFlush n k \<Rightarrow> if fails then (goto AtUnlink, fs) else (goto AtClose, fs_write n k (put_rest b) fs)
      | AtClose \<Rightarrow> (goto (if fails then AtUnlink else AtRename), fs)
      | AtRename \<Rightarrow> if fails then (goto (AtEnd False), fs)
          else (case fs_rename (put_tmp b) (put_dst b) fs of
              None \<Rightarrow> (goto (AtEnd False), fs) | Some fs' \<Rightarrow> (goto (AtEnd True), fs'))
      | AtUnlink \<Rightarrow> (goto (AtEnd False), if fails then fs else fs_remove (put_tmp b) fs)
      | AtEnd ok \<Rightarrow> (b, fs))"

definition new_put :: "path \<Rightarrow> bytes \<Rightarrow> bytes \<Rightarrow> put_job" where
  "new_put dst d rest = \<lparr>put_dst = dst, put_first = d, put_rest = rest, put_at = AtCreate\<rparr>"

definition is_new_put :: "put_job \<Rightarrow> bool" where
  "is_new_put b = (put_at b = AtCreate \<and> \<not> has_suffix (put_dst b) ''.tmp'')"

type_synonym puts = "(put_job, inode_fs) jobs"

definition puts_reach :: "inode_fs \<Rightarrow> puts \<Rightarrow> bool" where
  "puts_reach fs0 j = jobs_reach put_step is_new_put (\<lambda>fs fs'. False) fs0 j"

lemmas put_splits = put_at.splits if_splits prod.splits option.splits

lemma put_step_keeps:
  "put_step x b fs = (b', fs') \<Longrightarrow> put_dst b' = put_dst b \<and> put_first b' = put_first b \<and> put_rest b' = put_rest b"
  by (auto simp: put_step_def Let_def split: put_splits)

section \<open>One write\<close>

text \<open>No two names share an inode, and the next inode is unused.\<close>

definition fs_wf :: "inode_fs \<Rightarrow> bool" where
  "fs_wf fs = ((\<forall>p q n. names fs p = Some n \<and> names fs q = Some n \<longrightarrow> p = q)
     \<and> (\<forall>p n. names fs p = Some n \<longrightarrow> n < next_inode fs))"

lemma fs_wf_same: "fs_wf fs \<Longrightarrow> names fs p = Some n \<Longrightarrow> names fs q = Some n \<Longrightarrow> p = q"
  unfolding fs_wf_def by blast

lemma fs_wf_less: "fs_wf fs \<Longrightarrow> names fs p = Some n \<Longrightarrow> n < next_inode fs"
  unfolding fs_wf_def by blast

lemma tmp_neq_dst [simp]: "put_tmp b \<noteq> put_dst b" "put_dst b \<noteq> put_tmp b"
  by (simp_all add: put_tmp_def)

lemma write_at_start [simp]: "write_at 0 d [] = d"
  by (simp add: write_at_def)

lemma write_at_end [simp]: "write_at (length c) d c = c @ d"
  by (simp add: write_at_def)

text \<open>What holds of the temporary file at each place, as long as nobody else has opened it.\<close>

definition put_ok :: "inode_fs \<Rightarrow> put_job \<Rightarrow> bool" where
  "put_ok fs b =
     (case put_at b of
        AtWrite n \<Rightarrow> names fs (put_tmp b) = Some n \<and> inodes fs n = []
      | AtFlush n k \<Rightarrow> names fs (put_tmp b) = Some n \<and> inodes fs n = put_first b \<and> k = length (put_first b)
      | AtClose \<Rightarrow> fs_content fs (put_tmp b) = Some (put_data b)
      | AtRename \<Rightarrow> fs_content fs (put_tmp b) = Some (put_data b)
      | _ \<Rightarrow> True)"

lemma put_step_ok:
  assumes "put_ok fs b" and "put_step x b fs = (b', fs')"
  shows "put_ok fs' b'"
  using assms
  by (auto simp: put_ok_def put_step_def put_tmp_def put_data_def fs_create_def fs_write_def fs_content_def Let_def
      split: put_splits)

lemma put_step_wf:
  assumes "fs_wf fs" and "put_step x b fs = (b', fs')"
  shows "fs_wf fs'"
proof -
  have c: "fs_create p fs = (n, fs') \<Longrightarrow> fs_wf fs'" for p n fs'
    using assms(1)
    by (fastforce simp: fs_create_def fs_wf_def less_Suc_eq split: option.splits if_splits dest: less_not_refl2)
  have r: "fs_rename p q fs = Some fs' \<Longrightarrow> fs_wf fs'" for p q fs'
    using assms(1) by (fastforce simp: fs_rename_def fs_wf_def split: if_splits)
  have "fs_wf (fs_write n k d fs)" "fs_wf (fs_remove p fs)" for n k d p
    using assms(1) by (fastforce simp: fs_write_def fs_remove_def fs_wf_def split: if_splits)+
  with assms c r show ?thesis
    by (auto simp: put_step_def Let_def split: put_splits)
qed

text \<open>A step leaves every other file alone, except that the last one installs the broker's file.\<close>

definition untouched :: "path \<Rightarrow> inode_fs \<Rightarrow> inode_fs \<Rightarrow> bool" where
  "untouched p fs fs' = (names fs' p = names fs p \<and> (\<forall>n. names fs p = Some n \<longrightarrow> inodes fs' n = inodes fs n))"

lemma untouched_content: "untouched p fs fs' \<Longrightarrow> fs_content fs' p = fs_content fs p"
  by (cases "names fs p") (auto simp: untouched_def fs_content_def)

lemma put_step_frame:
  assumes wf: "fs_wf fs" and ok: "put_ok fs b" and step: "put_step x b fs = (b', fs')" and p: "p \<noteq> put_tmp b"
  shows "untouched p fs fs' \<or> p = put_dst b \<and> fs_content fs' p = Some (put_data b)"
proof -
  have create: "fs_create (put_tmp b) fs = (n, fs') \<Longrightarrow> untouched p fs fs'" for n fs'
    using p fs_wf_same [OF wf, of p _ "put_tmp b"] fs_wf_less [OF wf, of p]
    by (auto simp: fs_create_def untouched_def split: option.splits)
  have wr: "names fs (put_tmp b) = Some n \<Longrightarrow> untouched p fs (fs_write n k d fs)" for n k d
    using p fs_wf_same [OF wf, of p n "put_tmp b"] by (auto simp: fs_write_def untouched_def)
  have rm: "untouched p fs (fs_remove (put_tmp b) fs)" using p by (simp add: fs_remove_def untouched_def)
  have mv: "fs_rename (put_tmp b) (put_dst b) fs = Some fs' \<Longrightarrow> fs_content fs (put_tmp b) = Some (put_data b) \<Longrightarrow>
      untouched p fs fs' \<or> p = put_dst b \<and> fs_content fs' p = Some (put_data b)" for fs'
    using p by (cases "p = put_dst b") (auto simp: fs_rename_def untouched_def fs_content_def)
  have same: "untouched p fs fs" by (simp add: untouched_def)
  show ?thesis
    using step ok create wr rm mv same
    by (auto simp: put_step_def put_ok_def Let_def split: put_splits)
qed

lemma put_step_own:
  assumes wf: "fs_wf fs" and ok: "put_ok fs b" and step: "put_step x b fs = (b', fs')"
  shows "fs_content fs' (put_dst b) =
     (if put_at b' = AtEnd True \<and> put_at b \<noteq> AtEnd True then Some (put_data b) else fs_content fs (put_dst b))"
proof (cases "put_at b = AtRename")
  case True
  with step ok show ?thesis
    by (auto simp: put_step_def put_ok_def Let_def fs_rename_def fs_content_def split: put_splits)
next
  case False
  from put_step_frame [OF wf ok step tmp_neq_dst(2)]
  have "fs_content fs' (put_dst b) = fs_content fs (put_dst b) \<or> fs_content fs' (put_dst b) = Some (put_data b)"
    using untouched_content by blast
  have "put_at b' = AtEnd True \<longrightarrow> put_at b = AtEnd True"
    using step False by (auto simp: put_step_def Let_def split: put_splits)
  moreover have "fs_content fs' (put_dst b) = fs_content fs (put_dst b)"
  proof -
    have "untouched (put_dst b) fs fs'"
      using step ok False fs_wf_same [OF wf, of "put_dst b" _ "put_tmp b"] fs_wf_less [OF wf, of "put_dst b"]
      by (auto simp: put_step_def put_ok_def Let_def untouched_def fs_create_def fs_write_def fs_remove_def
          split: put_splits)
    then show ?thesis by (rule untouched_content)
  qed
  ultimately show ?thesis by auto
qed

section \<open>Writes of different brokers\<close>

definition put_done_ok :: "inode_fs \<Rightarrow> inode_fs \<Rightarrow> put_job \<Rightarrow> bool" where
  "put_done_ok fs0 fs b =
     (fs_content fs (put_dst b) = (if put_at b = AtEnd True then Some (put_data b) else fs_content fs0 (put_dst b)))"

definition puts_inv :: "inode_fs \<Rightarrow> put_job list \<Rightarrow> inode_fs \<Rightarrow> bool" where
  "puts_inv fs0 bs fs =
     (fs_wf fs \<and> (\<forall>b\<in>set bs. put_ok fs b \<and> put_done_ok fs0 fs b \<and> \<not> has_suffix (put_dst b) ''.tmp'')
      \<and> (\<forall>p. \<not> has_suffix p ''.tmp'' \<longrightarrow> p \<notin> put_dst ` set bs \<longrightarrow> fs_content fs p = fs_content fs0 p))"

lemma tmp_suffix: "has_suffix (put_tmp b) ''.tmp''"
  by (simp add: put_tmp_def has_suffix_def suffix_def)

text \<open>The step of one job leaves what holds of a job for another broker as it was.\<close>

lemma put_ok_other:
  assumes "fs_wf fs" and "put_ok fs b" and "put_step x b fs = (b', fs')"
    and "put_dst c \<noteq> put_dst b" and "\<not> has_suffix (put_dst b) ''.tmp''" and "\<not> has_suffix (put_dst c) ''.tmp''"
    and "put_ok fs c" and "put_done_ok fs0 fs c"
  shows "put_ok fs' c \<and> put_done_ok fs0 fs' c"
proof -
  have "put_tmp c \<noteq> put_tmp b" "put_tmp c \<noteq> put_dst b" "put_dst c \<noteq> put_tmp b"
    using assms(4-6) tmp_suffix [of b] tmp_suffix [of c] by (auto simp: put_tmp_def)
  with put_step_frame [OF assms(1-3), of "put_tmp c"] put_step_frame [OF assms(1-3), of "put_dst c"] assms(4)
  have u: "untouched (put_tmp c) fs fs'" "untouched (put_dst c) fs fs'" by auto
  then show ?thesis
    using assms(7,8) untouched_content [OF u(1)] untouched_content [OF u(2)]
    by (auto simp: put_ok_def put_done_ok_def untouched_def split: put_at.splits)
qed

lemma puts_inv_step:
  assumes inv: "puts_inv fs0 bs fs" and d: "distinct (map put_dst bs)" and i: "i < length bs"
    and step: "put_step x (bs ! i) fs = (b', fs')"
  shows "puts_inv fs0 (bs[i := b']) fs'"
proof -
  let ?b = "bs ! i"
  from inv i have wf: "fs_wf fs" and ok: "put_ok fs ?b" and dn: "put_done_ok fs0 fs ?b"
    and sfx: "\<not> has_suffix (put_dst ?b) ''.tmp''" by (auto simp: puts_inv_def)
  note keeps = put_step_keeps [OF step]
  have data: "put_data b' = put_data ?b" using keeps by (simp add: put_data_def)
  have ended: "put_at ?b = AtEnd True \<Longrightarrow> b' = ?b \<and> fs' = fs"
    using step by (auto simp: put_step_def Let_def)
  have own: "put_ok fs' b' \<and> put_done_ok fs0 fs' b' \<and> \<not> has_suffix (put_dst b') ''.tmp''"
    using put_step_ok [OF ok step] put_step_own [OF wf ok step] dn keeps data sfx ended
    by (auto simp: put_done_ok_def)
  have others: "put_ok fs' c \<and> put_done_ok fs0 fs' c \<and> \<not> has_suffix (put_dst c) ''.tmp''"
    if k: "k < length bs" "k \<noteq> i" "c = bs ! k" for c k
  proof -
    have dst: "put_dst c \<noteq> put_dst ?b" using d i k by (simp add: distinct_conv_nth)
    have "c \<in> set bs" using k by simp
    with inv have c: "put_ok fs c" "put_done_ok fs0 fs c" "\<not> has_suffix (put_dst c) ''.tmp''"
      by (simp_all add: puts_inv_def)
    with put_ok_other [OF wf ok step dst sfx c(3,1,2)] show ?thesis by simp
  qed
  have each: "put_ok fs' c \<and> put_done_ok fs0 fs' c \<and> \<not> has_suffix (put_dst c) ''.tmp''"
    if "c \<in> set (bs[i := b'])" for c
  proof -
    from that obtain k where k: "k < length bs" "c = bs[i := b'] ! k" by (auto simp: in_set_conv_nth)
    with own others [OF k(1), of c] i show ?thesis by (cases "k = i") auto
  qed
  have dsts: "put_dst ` set (bs[i := b']) = put_dst ` set bs"
  proof -
    have "map put_dst (bs[i := b']) = map put_dst bs"
      using keeps i by (simp add: map_update) (metis list_update_id nth_map)
    then show ?thesis by (metis set_map)
  qed
  have "fs_content fs' p = fs_content fs0 p" if "\<not> has_suffix p ''.tmp''" "p \<notin> put_dst ` set bs" for p
  proof -
    have "p \<noteq> put_tmp ?b" "p \<noteq> put_dst ?b" using that tmp_suffix i by auto
    with put_step_frame [OF wf ok step, of p] have "fs_content fs' p = fs_content fs p"
      using untouched_content by blast
    with inv that show ?thesis by (simp add: puts_inv_def)
  qed
  with each dsts put_step_wf [OF wf step] show ?thesis by (auto simp: puts_inv_def)
qed

text \<open>
  C13: however many writes of different broker files interleave, whichever of their calls fail, a write
  that has reported success has its complete text in its file, and the file of one that has not is as it was.
\<close>

theorem distinct_puts_atomic:
  assumes "puts_reach fs0 j" and "fs_wf fs0" and "distinct (map put_dst (job_pcs j))" and "b \<in> set (job_pcs j)"
  shows "fs_content (shared j) (put_dst b)
     = (if put_at b = AtEnd True then Some (put_data b) else fs_content fs0 (put_dst b))"
proof -
  have "distinct (map put_dst (job_pcs j)) \<longrightarrow> puts_inv fs0 (job_pcs j) (shared j)"
    using assms(1) [unfolded puts_reach_def]
  proof (induction rule: jobs_reach.induct)
    case here
    with assms(2) show ?case by (simp add: puts_inv_def no_jobs_def)
  next
    case (begun j pc)
    then show ?case
      by (auto simp: start_job_def puts_inv_def is_new_put_def put_ok_def put_done_ok_def)
  next
    case (advanced j x i)
    show ?case
    proof (cases "i < length (job_pcs j)")
      case True
      obtain b' fs' where st: "put_step x (job_pcs j ! i) (shared j) = (b', fs')"
        by (cases "put_step x (job_pcs j ! i) (shared j)")
      have "map put_dst ((job_pcs j)[i := b']) = map put_dst (job_pcs j)"
        using put_step_keeps [OF st] True by (simp add: map_update) (metis list_update_id nth_map)
      with advanced puts_inv_step [OF _ _ True st] True st show ?thesis by (simp add: advance_job_def)
    qed (use advanced in \<open>simp add: advance_job_def\<close>)
  qed simp
  with assms(3,4) show ?thesis by (auto simp: puts_inv_def put_done_ok_def)
qed

section \<open>One write alone\<close>

fun put_go :: "nat \<Rightarrow> put_job \<Rightarrow> inode_fs \<Rightarrow> put_job \<times> inode_fs" where
  "put_go 0 b fs = (b, fs)"
| "put_go (Suc n) b fs = (case put_step False b fs of (b', fs') \<Rightarrow> put_go n b' fs')"

lemma put_go_alone:
  assumes wf: "fs_wf fs" and b: "put_at b = AtCreate"
  shows "fst (put_go 5 b fs) = b\<lparr>put_at := AtEnd True\<rparr> \<and> fs_content (snd (put_go 5 b fs)) p
        = (if p = put_tmp b then None else if p = put_dst b then Some (put_data b) else fs_content fs p)"
proof -
  obtain n fs1 where c: "fs_create (put_tmp b) fs = (n, fs1)" by (cases "fs_create (put_tmp b) fs")
  then have n: "names fs1 (put_tmp b) = Some n" "inodes fs1 n = []"
    by (auto simp: fs_create_def split: option.splits)
  have s: "put_step False b fs = (b\<lparr>put_at := AtWrite n\<rparr>, fs1)"
    using b c by (simp add: put_step_def)
  note wf1 = put_step_wf [OF wf s]
  have other: "fs_content fs1 p = fs_content fs p" "names fs1 p \<noteq> Some n" if "p \<noteq> put_tmp b"
  proof -
    have "put_ok fs b" using b by (simp add: put_ok_def)
    from put_step_frame [OF wf this s that] b s put_step_own [OF wf this s]
    show "fs_content fs1 p = fs_content fs p" using untouched_content by auto
    show "names fs1 p \<noteq> Some n" using fs_wf_same [OF wf1 _ n(1), of p] that by blast
  qed
  define fs2 where "fs2 = fs1\<lparr>inodes := (inodes fs1)(n := put_data b)\<rparr>"
  have w: "fs_write n (length (put_first b)) (put_rest b) (fs_write n 0 (put_first b) fs1) = fs2"
    using n by (simp add: fs_write_def fs2_def put_data_def)
  have "put_go 5 b fs = put_go (Suc 4) b fs" by simp
  also have "\<dots> = put_go 4 (b\<lparr>put_at := AtWrite n\<rparr>) fs1" by (simp only: put_go.simps s prod.case)
  also have "\<dots> = (b\<lparr>put_at := AtEnd True\<rparr>, fs2\<lparr>names := (names fs2)(put_tmp b := None, put_dst b \<mapsto> n)\<rparr>)"
    using n w by (simp add: eval_nat_numeral put_step_def Let_def fs_rename_def put_tmp_def)
      (simp add: fs2_def put_tmp_def)
  finally have go: "put_go 5 b fs = (b\<lparr>put_at := AtEnd True\<rparr>,
      fs2\<lparr>names := (names fs2)(put_tmp b := None, put_dst b \<mapsto> n)\<rparr>)" .
  have "fs_content (fs2\<lparr>names := (names fs2)(put_tmp b := None, put_dst b \<mapsto> n)\<rparr>) p
      = (if p = put_tmp b then None else if p = put_dst b then Some (put_data b) else fs_content fs p)"
  proof (cases "p = put_tmp b \<or> p = put_dst b")
    case True
    then show ?thesis by (auto simp: fs_content_def fs2_def)
  next
    case False
    with other show ?thesis by (cases "names fs1 p") (auto simp: fs_content_def fs2_def)
  qed
  then show ?thesis unfolding go by simp
qed

text \<open>
  C1: a write that runs alone, without failures, ends in success and leaves in every file what \<open>persist\<close>
  leaves there.
\<close>

theorem put_alone_is_persist:
  assumes "fs_wf fs" and "\<forall>p. fs_content fs p = content_of w p" and "healthy w" and "se_encode S obj = Some (d, rest)"
    and "b = new_put (broker_path st name) d rest"
  shows "fst (persist S name obj st w) = Inr () \<and> put_at (fst (put_go 5 b fs)) = AtEnd True
     \<and> fs_content (snd (put_go 5 b fs)) p = content_of (snd (persist S name obj st w)) p"
proof -
  have tmp: "put_tmp b = persist_tmp st name" "put_dst b = broker_path st name" "put_at b = AtCreate"
    using assms(5) by (simp_all add: new_put_def put_tmp_def persist_tmp_def)
  obtain fl w' where w': "persist S name obj st w = (Inr (), w')" "content fl = d @ rest"
      "files w' = (files w)(persist_tmp st name := None, broker_path st name \<mapsto> fl)"
    using persist_healthy [OF assms(3,4), of st name] by (auto simp: persist_tmp_def)
  have "put_data b = d @ rest" using assms(5) by (simp add: new_put_def put_data_def)
  with put_go_alone [OF assms(1) tmp(3), of p] tmp w' assms(2) show ?thesis
    by (auto simp: content_of_def persist_tmp_def)
qed

section \<open>Two writes of one broker\<close>

text \<open>
  Two requests for one broker, each with its whole text in the encoder's first write: both have created
  the temporary file, the first writes its text, the second writes a shorter one over it, then the first
  renames the file.
\<close>

definition ex_fs :: inode_fs where
  "ex_fs = \<lparr>names = [''a.yaml'' \<mapsto> 0], inodes = (\<lambda>n. if n = 0 then ''old'' else []), next_inode = 1\<rparr>"

definition ex_put_race :: "(bool, put_job) schedule" where
  "ex_put_race = [Inl (new_put ''a.yaml'' ''wxyz'' []), Inl (new_put ''a.yaml'' ''uv'' []),
     Inr (0, 1, False), Inr (1, 1, False), Inr (0, 1, False), Inr (1, 1, False), Inr (0, 3, False), Inr (1, 3, False)]"

definition ex_puts :: puts where
  "ex_puts = run_schedule put_step ex_put_race (no_jobs ex_fs)"

lemma ex_puts_reach: "puts_reach ex_fs ex_puts"
proof -
  have "list_all (\<lambda>e. case e of Inl pc \<Rightarrow> is_new_put pc | Inr _ \<Rightarrow> True) ex_put_race" by code_simp
  then show ?thesis unfolding puts_reach_def ex_puts_def by (intro run_schedule_reach jobs_reach.here)
qed

lemma ex_fs_wf: "fs_wf ex_fs"
  by (simp add: fs_wf_def ex_fs_def)

lemma ex_puts_run:
  "map put_at (job_pcs ex_puts) = [AtEnd True, AtEnd False]
     \<and> map put_data (job_pcs ex_puts) = [''wxyz'', ''uv''] \<and> list_all (\<lambda>b. put_rest b = []) (job_pcs ex_puts)
     \<and> fs_content (shared ex_puts) ''a.yaml'' = Some ''uvyz''"
  by code_simp

text \<open>
  Two overlapping writes of one broker, without any failing call and each with a single write of
  its whole text, can leave its file with neither text, nor the old one, though one of them reported success.
\<close>

theorem same_broker_puts_tear:
  "\<exists>fs0 j p. fs_wf fs0 \<and> puts_reach fs0 j \<and> map put_dst (job_pcs j) = [p, p]
     \<and> map put_at (job_pcs j) = [AtEnd True, AtEnd False] \<and> list_all (\<lambda>b. put_rest b = []) (job_pcs j)
     \<and> fs_content (shared j) p \<notin> insert (fs_content fs0 p) (set (map (Some \<circ> put_data) (job_pcs j)))"
proof -
  have d: "map put_dst (job_pcs ex_puts) = [''a.yaml'', ''a.yaml'']" by code_simp
  have o: "fs_content ex_fs ''a.yaml'' = Some ''old''" by (simp add: fs_content_def ex_fs_def)
  have "map (Some \<circ> put_data) (job_pcs ex_puts) = map Some (map put_data (job_pcs ex_puts))" by simp
  also have "\<dots> = [Some ''wxyz'', Some ''uv'']" using ex_puts_run by simp
  finally have "set (map (Some \<circ> put_data) (job_pcs ex_puts)) = {Some ''wxyz'', Some ''uv''}" by simp
  with ex_puts_run ex_puts_reach ex_fs_wf d o show ?thesis
    by (intro exI [of _ ex_fs] exI [of _ ex_puts] exI [of _ "''a.yaml''"]) simp
qed

section \<open>Witnesses\<close>

definition ex_two_brokers :: puts where
  "ex_two_brokers = run_schedule put_step
     [Inl (new_put ''a.yaml'' ''wxyz'' ''.''), Inl (new_put ''b.yaml'' ''u'' ''v''),
      Inr (0, 2, False), Inr (1, 1, False), Inr (0, 3, False), Inr (1, 4, False)] (no_jobs ex_fs)"

lemma ex_two_brokers_reach: "puts_reach ex_fs ex_two_brokers"
proof -
  have "list_all (\<lambda>e. case e of Inl pc \<Rightarrow> is_new_put pc | Inr _ \<Rightarrow> True)
     [Inl (new_put ''a.yaml'' ''wxyz'' ''.''), Inl (new_put ''b.yaml'' ''u'' ''v''),
      Inr (0, 2 :: nat, False), Inr (1 :: nat, 1, False), Inr (0, 3, False), Inr (1, 4, False)]" by code_simp
  then show ?thesis
    unfolding puts_reach_def ex_two_brokers_def by (intro run_schedule_reach jobs_reach.here)
qed

theorem distinct_puts_atomic_witness:
  "map (fs_content (shared ex_two_brokers)) [''a.yaml'', ''b.yaml''] = [Some ''wxyz.'', Some ''uv'']"
proof -
  have r: "map (\<lambda>b. (put_dst b, put_at b, put_data b)) (job_pcs ex_two_brokers)
      = [(''a.yaml'', AtEnd True, ''wxyz.''), (''b.yaml'', AtEnd True, ''uv'')]" by code_simp
  then obtain b c where bc: "job_pcs ex_two_brokers = [b, c]"
      "(put_dst b, put_at b, put_data b) = (''a.yaml'', AtEnd True, ''wxyz.'')"
      "(put_dst c, put_at c, put_data c) = (''b.yaml'', AtEnd True, ''uv'')" by auto
  have d: "distinct (map put_dst (job_pcs ex_two_brokers))" using bc by simp
  show ?thesis
    using distinct_puts_atomic [OF ex_two_brokers_reach ex_fs_wf d, of b]
      distinct_puts_atomic [OF ex_two_brokers_reach ex_fs_wf d, of c] bc by simp
qed

end
