(* ===== verification/AuditCalls.thy ===== *)
theory AuditCalls
  imports AuditFacts "HOL-Library.Sublist"
begin

text \<open>
  Any sequence of calls on one audit writer (\<open>internal/audit/audit.go\<close>; its mutex makes the calls of
  all goroutines such a sequence): the shape of the writer that every call keeps, and what one subscriber
  gets of the records logged while it is subscribed.
\<close>

section \<open>Calls\<close>

datatype audit_call =
    CallLog "gotime \<Rightarrow> string option" gotime log_record
  | CallSubscribe int gotime
  | CallReceive nat
  | CallDropped nat
  | CallUnsubscribe nat
  | CallRotate "gotime \<Rightarrow> string" gotime
  | CallReopen
  | CallClose
  | CallMoved path

text \<open>What a caller sees of a call: the record logged, the record received, or the drops reported.\<close>

datatype audit_seen = Logged log_record | Received nat log_record | Reported nat int | Quiet

definition logged_as :: "gotime \<Rightarrow> log_record \<Rightarrow> log_record" where
  "logged_as now r = (if lr_time r = 0 then r\<lparr>lr_time := now\<rparr> else r)"

fun audit_do :: "audit_call \<Rightarrow> audit_writer \<Rightarrow> world \<Rightarrow> audit_seen \<times> audit_writer \<times> world" where
  "audit_do (CallLog tj now r) a w =
     (case audit_Log tj now r a w of
        (Inl e, a', w') \<Rightarrow> (Quiet, a', w') | (Inr _, a', w') \<Rightarrow> (Logged (logged_as now r), a', w'))"
| "audit_do (CallSubscribe n after) a w = (Quiet, snd (audit_Subscribe n after a), w)"
| "audit_do (CallReceive i) a w =
     (case sub_receive i a of (None, a') \<Rightarrow> (Quiet, a', w) | (Some r, a') \<Rightarrow> (Received i r, a', w))"
| "audit_do (CallDropped i) a w = (case dropped_and_reset i a of (n, a') \<Rightarrow> (Reported i n, a', w))"
| "audit_do (CallUnsubscribe i) a w = (Quiet, sub_close i a, w)"
| "audit_do (CallRotate stamp now) a w = (case audit_Rotate stamp now a w of (p, r, a', w') \<Rightarrow> (Quiet, a', w'))"
| "audit_do CallReopen a w = (case audit_Reopen a w of (r, a', w') \<Rightarrow> (Quiet, a', w'))"
| "audit_do CallClose a w = (case audit_Close a w of (r, a', w') \<Rightarrow> (Quiet, a', w'))"
| "audit_do (CallMoved q) a w = (case logrotate q a w of (a', w') \<Rightarrow> (Quiet, a', w'))"

fun audit_calls :: "audit_call list \<Rightarrow> audit_writer \<Rightarrow> world \<Rightarrow> audit_seen list \<times> audit_writer \<times> world" where
  "audit_calls [] a w = ([], a, w)"
| "audit_calls (k # ks) a w =
     (case audit_do k a w of (x, a1, w1) \<Rightarrow>
       (case audit_calls ks a1 w1 of (xs, a2, w2) \<Rightarrow> (x # xs, a2, w2)))"

section \<open>What each call does to the ring and the subscriptions\<close>

lemma open_file_keeps:
  "open_file a w = (r, a', w') \<Longrightarrow> aw_ring a' = aw_ring a \<and> aw_subs a' = aw_subs a \<and> aw_next_sub a' = aw_next_sub a"
  by (auto simp: open_file_def split: prod.splits sum.splits)

lemma audit_file_calls_keep:
  "audit_Rotate stamp now a w = (p, r, a', w') \<Longrightarrow>
     aw_ring a' = aw_ring a \<and> aw_subs a' = aw_subs a \<and> aw_next_sub a' = aw_next_sub a"
  "audit_Reopen a w = (r, a', w') \<Longrightarrow>
     aw_ring a' = aw_ring a \<and> aw_subs a' = aw_subs a \<and> aw_next_sub a' = aw_next_sub a"
  "audit_Close a w = (r, a', w') \<Longrightarrow>
     aw_ring a' = aw_ring a \<and> aw_subs a' = aw_subs a \<and> aw_next_sub a' = aw_next_sub a"
  "logrotate q a w = (a', w') \<Longrightarrow>
     aw_ring a' = aw_ring a \<and> aw_subs a' = aw_subs a \<and> aw_next_sub a' = aw_next_sub a"
proof -
  show "audit_Rotate stamp now a w = (p, r, a', w') \<Longrightarrow>
     aw_ring a' = aw_ring a \<and> aw_subs a' = aw_subs a \<and> aw_next_sub a' = aw_next_sub a"
    by (auto simp: audit_Rotate_def Let_def split: prod.splits sum.splits if_splits audit_err.splits
        dest!: open_file_keeps)
  show "audit_Reopen a w = (r, a', w') \<Longrightarrow>
     aw_ring a' = aw_ring a \<and> aw_subs a' = aw_subs a \<and> aw_next_sub a' = aw_next_sub a"
    by (auto simp: audit_Reopen_def split: if_splits dest!: open_file_keeps)
  show "audit_Close a w = (r, a', w') \<Longrightarrow>
     aw_ring a' = aw_ring a \<and> aw_subs a' = aw_subs a \<and> aw_next_sub a' = aw_next_sub a"
    by (auto simp: audit_Close_def split: if_splits prod.splits)
  show "logrotate q a w = (a', w') \<Longrightarrow>
     aw_ring a' = aw_ring a \<and> aw_subs a' = aw_subs a \<and> aw_next_sub a' = aw_next_sub a"
    by (auto simp: logrotate_def split: prod.splits sum.splits if_splits)
qed

lemma encode_keeps:
  "encode_record tj r a f w = (x, a', w') \<Longrightarrow>
     aw_ring a' = aw_ring a \<and> aw_subs a' = aw_subs a \<and> aw_next_sub a' = aw_next_sub a"
  by (auto simp: encode_record_def split: option.splits prod.splits sum.splits)

lemma audit_Log_effect:
  assumes "audit_Log tj now r a w = (x, a', w')"
  shows "aw_next_sub a' = aw_next_sub a
     \<and> (if is_ok x then aw_ring a' = ring_push (logged_as now r) (aw_ring a)
            \<and> aw_subs a' = map (offer (logged_as now r)) (aw_subs a)
        else aw_ring a' = aw_ring a \<and> aw_subs a' = aw_subs a)"
  using assms
  by (auto simp: audit_Log_def logged_as_def Let_def is_ok_def split: option.splits prod.splits sum.splits if_splits
      dest: encode_keeps)

section \<open>The shape of a writer\<close>

text \<open>
  The write position is inside the ring and the ring has its slots; every subscription has a number
  already given out and no other has it, its channel holds at most its positive capacity, and
  its count of drops is not negative.
\<close>

definition sub_typed :: "nat \<Rightarrow> subscription \<Rightarrow> bool" where
  "sub_typed n sb = (sub_id sb < n \<and> 0 < sub_cap sb \<and> length (sub_buf sb) \<le> sub_cap sb \<and> 0 \<le> dropped sb)"

definition audit_typed :: "audit_writer \<Rightarrow> bool" where
  "audit_typed a = (ring_wf (aw_ring a) \<and> distinct (map sub_id (aw_subs a))
     \<and> list_all (sub_typed (aw_next_sub a)) (aw_subs a))"

lemma audit_Open_typed: "audit_Open p n w = (Inr a, w') \<Longrightarrow> audit_typed a"
  by (auto simp: audit_Open_def audit_typed_def Let_def split: if_splits prod.splits sum.splits
      intro!: new_ring_wf dest!: open_file_keeps)

lemma offer_typed: "sub_typed n sb \<Longrightarrow> sub_typed n (offer r sb)"
  by (auto simp: sub_typed_def offer_def)

lemma offer_id [simp]: "sub_id (offer r sb) = sub_id sb"
  by (simp add: offer_def)

lemma with_sub_typed:
  assumes "audit_typed a" and "\<And>sb. sb \<in> set (aw_subs a) \<Longrightarrow> sub_id (g sb) = sub_id sb"
    and "\<And>sb. sb \<in> set (aw_subs a) \<Longrightarrow> sub_id sb = i \<Longrightarrow> sub_typed (aw_next_sub a) sb \<Longrightarrow> sub_typed (aw_next_sub a) (g sb)"
  shows "audit_typed (with_sub i g a)"
proof -
  have "map sub_id (map (\<lambda>sb. if sub_id sb = i then g sb else sb) (aw_subs a)) = map sub_id (aw_subs a)"
    using assms(2) by simp
  then have "distinct (map sub_id (map (\<lambda>sb. if sub_id sb = i then g sb else sb) (aw_subs a)))"
    using assms(1) by (simp only: audit_typed_def)
  moreover have "list_all (sub_typed (aw_next_sub a)) (map (\<lambda>sb. if sub_id sb = i then g sb else sb) (aw_subs a))"
    using assms(1,3) by (auto simp: audit_typed_def list_all_iff)
  ultimately show ?thesis using assms(1) by (simp add: audit_typed_def with_sub_def del: map_map)
qed

lemma remove_sub_subset: "set (remove_sub i sbs) \<subseteq> set sbs"
  by (induction sbs) auto

lemma remove_sub_distinct: "distinct (map sub_id sbs) \<Longrightarrow> distinct (map sub_id (remove_sub i sbs))"
  using remove_sub_subset by (induction sbs) fastforce+

lemma sub_typed_more: "sub_typed n sb \<Longrightarrow> n \<le> m \<Longrightarrow> sub_typed m sb"
  by (simp add: sub_typed_def)

lemma audit_typed_same:
  "audit_typed a \<Longrightarrow> aw_ring a' = aw_ring a \<and> aw_subs a' = aw_subs a \<and> aw_next_sub a' = aw_next_sub a \<Longrightarrow> audit_typed a'"
  by (simp add: audit_typed_def)

lemma audit_Log_typed:
  assumes t: "audit_typed a" and l: "audit_Log tj now r a w = (x, a', w')"
  shows "audit_typed a'"
proof (cases "is_ok x")
  case True
  with audit_Log_effect [OF l] have "aw_ring a' = ring_push (logged_as now r) (aw_ring a)"
      "aw_subs a' = map (offer (logged_as now r)) (aw_subs a)" "aw_next_sub a' = aw_next_sub a" by auto
  moreover have "map sub_id (map (offer (logged_as now r)) (aw_subs a)) = map sub_id (aw_subs a)" by simp
  ultimately show ?thesis
    using t by (simp add: audit_typed_def ring_push_wf list_all_iff offer_typed comp_def)
next
  case False
  with audit_Log_effect [OF l] show ?thesis by (auto intro: audit_typed_same [OF t])
qed

lemma audit_Subscribe_typed:
  assumes "audit_typed a"
  shows "audit_typed (snd (audit_Subscribe n after a))"
proof -
  have "0 < ring_size (aw_ring a)" using assms by (simp add: audit_typed_def ring_wf_def)
  moreover have "\<forall>sb\<in>set (aw_subs a). sub_id sb < aw_next_sub a"
    using assms by (simp add: audit_typed_def list_all_iff sub_typed_def)
  ultimately show ?thesis
    using assms by (auto simp: audit_typed_def audit_Subscribe_def Let_def list_all_iff sub_typed_def less_Suc_eq)
qed

lemma find_sub_member: "find_sub i a = Some sb \<Longrightarrow> sb \<in> set (aw_subs a) \<and> sub_id sb = i"
  by (auto simp: find_sub_def find_Some_iff)

lemma sub_receive_typed:
  assumes "audit_typed a" and "sub_receive i a = (x, a')"
  shows "audit_typed a'"
proof (cases "find_sub i a")
  case (Some sb)
  show ?thesis
  proof (cases "sub_buf sb")
    case (Cons r rs)
    have "audit_typed (with_sub i (\<lambda>sb'. sb'\<lparr>sub_buf := rs\<rparr>) a)"
    proof (rule with_sub_typed [OF assms(1)])
      fix sb' assume m: "sb' \<in> set (aw_subs a)" "sub_id sb' = i" "sub_typed (aw_next_sub a) sb'"
      have "sb' = sb"
        using assms(1) m find_sub_member [OF Some] by (auto simp: audit_typed_def distinct_map dest: inj_onD)
      with m(3) Cons show "sub_typed (aw_next_sub a) (sb'\<lparr>sub_buf := rs\<rparr>)" by (simp add: sub_typed_def)
    qed simp
    with assms(2) Some Cons show ?thesis by (simp add: sub_receive_def)
  qed (use assms Some in \<open>simp add: sub_receive_def\<close>)
qed (use assms in \<open>simp add: sub_receive_def\<close>)

lemma dropped_and_reset_typed:
  assumes "audit_typed a" and "dropped_and_reset i a = (n, a')"
  shows "audit_typed a'"
proof -
  have "audit_typed (with_sub i (\<lambda>sb. sb\<lparr>dropped := 0\<rparr>) a)"
    by (rule with_sub_typed [OF assms(1)]) (simp_all add: sub_typed_def)
  with assms show ?thesis by (auto simp: dropped_and_reset_def split: option.splits)
qed

lemma sub_close_typed: "audit_typed a \<Longrightarrow> audit_typed (sub_close i a)"
  using remove_sub_subset by (fastforce simp: audit_typed_def sub_close_def list_all_iff remove_sub_distinct)

lemma audit_do_typed:
  assumes "audit_typed a" and "audit_do k a w = (x, a', w')"
  shows "audit_typed a'"
  using assms
  by (cases k) (auto split: prod.splits sum.splits option.splits
      intro: audit_Log_typed audit_Subscribe_typed sub_receive_typed dropped_and_reset_typed sub_close_typed
        audit_typed_same dest: audit_file_calls_keep)

lemma audit_do_size:
  assumes "audit_do k a w = (x, a', w')"
  shows "ring_size (aw_ring a') = ring_size (aw_ring a)"
proof (cases k)
  case (CallLog tj now r)
  then show ?thesis
    using assms by (auto split: prod.splits sum.splits dest!: audit_Log_effect simp: is_ok_def ring_push_def Let_def)
qed (use assms in \<open>auto split: prod.splits sum.splits option.splits list.splits dest: audit_file_calls_keep
       simp: audit_Subscribe_def sub_receive_def dropped_and_reset_def sub_close_def with_sub_def Let_def\<close>)

lemma audit_calls_keep:
  assumes "audit_typed a" and "audit_calls ks a w = (xs, a', w')"
  shows "audit_typed a' \<and> ring_size (aw_ring a') = ring_size (aw_ring a)"
  using assms
proof (induction ks arbitrary: a w xs)
  case (Cons k ks)
  obtain x a1 w1 where d: "audit_do k a w = (x, a1, w1)" by (cases "audit_do k a w")
  with Cons.prems obtain ys where "audit_calls ks a1 w1 = (ys, a', w')" by (auto split: prod.splits)
  from Cons.IH [OF audit_do_typed [OF Cons.prems(1) d] this] audit_do_size [OF d] show ?case by simp
qed simp

lemma audit_Open_size: "audit_Open p n w0 = (Inr a, w) \<Longrightarrow> ring_size (aw_ring a) = (if n \<le> 0 then 256 else nat n)"
  by (auto simp: audit_Open_def new_ring_def Let_def split: if_splits prod.splits sum.splits dest!: open_file_keeps)

text \<open>
  C36: whatever calls follow the opening of a log, in whatever order, with whatever numbers of
  subscriptions and whichever system calls fail, the writer keeps its shape: every index it uses lies inside
  a ring of the size asked for, no channel holds more than its capacity, no two subscriptions share a number.
\<close>

theorem audit_calls_typed:
  assumes "audit_Open p n w0 = (Inr a, w)" and "audit_calls ks a w = (xs, a', w')"
  shows "audit_typed a' \<and> ring_size (aw_ring a') = (if n \<le> 0 then 256 else nat n)"
  using audit_calls_keep [OF audit_Open_typed [OF assms(1)] assms(2)] audit_Open_size [OF assms(1)] by simp

section \<open>What a subscriber gets\<close>

text \<open>The records logged, those subscription \<open>i\<close> received, and the drops it was told of.\<close>

fun logged_of :: "audit_seen list \<Rightarrow> log_record list" where
  "logged_of [] = []"
| "logged_of (x # xs) = (case x of Logged r \<Rightarrow> r # logged_of xs | _ \<Rightarrow> logged_of xs)"

fun received_of :: "nat \<Rightarrow> audit_seen list \<Rightarrow> log_record list" where
  "received_of i [] = []"
| "received_of i (x # xs) =
     (case x of Received j r \<Rightarrow> if j = i then r # received_of i xs else received_of i xs | _ \<Rightarrow> received_of i xs)"

fun reported_of :: "nat \<Rightarrow> audit_seen list \<Rightarrow> int" where
  "reported_of i [] = 0"
| "reported_of i (x # xs) =
     (case x of Reported j n \<Rightarrow> if j = i then n + reported_of i xs else reported_of i xs | _ \<Rightarrow> reported_of i xs)"

fun unsubscribes :: "nat \<Rightarrow> audit_call \<Rightarrow> bool" where
  "unsubscribes i (CallUnsubscribe j) = (i = j)"
| "unsubscribes i _ = False"

lemma find_map_same:
  "(\<And>sb. sub_id (g sb) = sub_id sb) \<Longrightarrow>
     find (\<lambda>sb. sub_id sb = i) (map g sbs) = map_option g (find (\<lambda>sb. sub_id sb = i) sbs)"
  by (induction sbs) auto

lemma find_with_sub:
  "(\<And>sb. sub_id (g sb) = sub_id sb) \<Longrightarrow>
     find_sub i (with_sub j g a) = (if i = j then map_option g (find_sub i a) else find_sub i a)"
proof -
  assume g: "\<And>sb. sub_id (g sb) = sub_id sb"
  have "find (\<lambda>sb. sub_id sb = i) (map (\<lambda>sb. if sub_id sb = j then g sb else sb) sbs)
      = (if i = j then map_option g (find (\<lambda>sb. sub_id sb = i) sbs) else find (\<lambda>sb. sub_id sb = i) sbs)" for sbs
    using g by (induction sbs) auto
  then show ?thesis by (simp add: find_sub_def with_sub_def)
qed

lemma find_append: "find P xs = Some x \<Longrightarrow> find P (xs @ ys) = Some x"
  by (induction xs) auto

lemma find_remove_other: "i \<noteq> j \<Longrightarrow> find (\<lambda>sb. sub_id sb = i) (remove_sub j sbs) = find (\<lambda>sb. sub_id sb = i) sbs"
  by (induction sbs) auto

text \<open>
  The account of a subscription between two states: what is new in its channel and what it received come, in
  order, from what was logged, and the rest was counted.
\<close>

definition accounts :: "subscription \<Rightarrow> subscription \<Rightarrow> log_record list \<Rightarrow> log_record list \<Rightarrow> int \<Rightarrow> bool" where
  "accounts sb sb' sent got told =
     (subseq (got @ sub_buf sb') (sub_buf sb @ sent)
      \<and> int (length (sub_buf sb @ sent)) + dropped sb = int (length (got @ sub_buf sb')) + told + dropped sb')"

lemma accounts_refl: "accounts sb sb [] [] 0"
  by (simp add: accounts_def)

lemma accounts_trans:
  assumes "accounts s0 s1 xs gs m" and "accounts s1 s2 ys hs n"
  shows "accounts s0 s2 (xs @ ys) (gs @ hs) (m + n)"
proof -
  have "subseq (gs @ (hs @ sub_buf s2)) (gs @ (sub_buf s1 @ ys))"
    by (rule list_emb_append_mono) (use assms(2) in \<open>simp_all add: accounts_def\<close>)
  moreover have "subseq ((gs @ sub_buf s1) @ ys) ((sub_buf s0 @ xs) @ ys)"
    by (rule list_emb_append_mono) (use assms(1) in \<open>simp_all add: accounts_def\<close>)
  ultimately have "subseq (gs @ hs @ sub_buf s2) (sub_buf s0 @ xs @ ys)"
    by (metis append_assoc subseq_order.trans)
  with assms show ?thesis by (simp add: accounts_def)
qed

lemma accounts_offer: "accounts sb (offer r sb) [r] [] 0"
  by (auto simp: accounts_def offer_def intro: prefix_imp_subseq)

lemma audit_do_accounts:
  assumes do: "audit_do k a w = (x, a', w')" and f: "find_sub i a = Some sb" and "\<not> unsubscribes i k"
  shows "\<exists>sb'. find_sub i a' = Some sb'
     \<and> accounts sb sb' (logged_of [x]) (received_of i [x]) (reported_of i [x])"
proof (cases k)
  case (CallLog tj now r)
  obtain y a1 w1 where l: "audit_Log tj now r a w = (y, a1, w1)" by (cases "audit_Log tj now r a w")
  show ?thesis
  proof (cases "is_ok y")
    case True
    with audit_Log_effect [OF l] f have "find_sub i a1 = Some (offer (logged_as now r) sb)"
      by (simp add: find_sub_def find_map_same)
    with do CallLog l True accounts_offer [of sb "logged_as now r"] show ?thesis
      by (auto simp: is_ok_def split: sum.splits)
  next
    case False
    with audit_Log_effect [OF l] f have "find_sub i a1 = Some sb" by (simp add: find_sub_def)
    with do CallLog l False accounts_refl show ?thesis by (auto simp: is_ok_def split: sum.splits)
  qed
next
  case (CallSubscribe n after)
  with do f have "find_sub i a' = Some sb"
    by (auto simp: audit_Subscribe_def find_sub_def Let_def find_append)
  with do CallSubscribe accounts_refl show ?thesis by auto
next
  case (CallReceive j)
  show ?thesis
  proof (cases "find_sub j a")
    case None
    with do f CallReceive accounts_refl show ?thesis by (auto simp: sub_receive_def)
  next
    case (Some sj)
    show ?thesis
    proof (cases "sub_buf sj")
      case Nil
      with Some do f CallReceive accounts_refl show ?thesis by (auto simp: sub_receive_def)
    next
      case (Cons r rs)
      with Some do CallReceive have x: "x = Received j r" "a' = with_sub j (\<lambda>sb. sb\<lparr>sub_buf := rs\<rparr>) a"
        by (auto simp: sub_receive_def)
      have "find_sub i a' = (if i = j then Some (sb\<lparr>sub_buf := rs\<rparr>) else Some sb)"
        using f x(2) find_with_sub [of "\<lambda>sb. sb\<lparr>sub_buf := rs\<rparr>" i j a] by (cases "i = j") simp_all
      with x f Some Cons show ?thesis by (auto simp: accounts_def)
    qed
  qed
next
  case (CallDropped j)
  show ?thesis
  proof (cases "find_sub j a")
    case None
    with do f CallDropped have "i \<noteq> j" "x = Reported j 0" "a' = a" by (auto simp: dropped_and_reset_def)
    with f accounts_refl show ?thesis by auto
  next
    case (Some sj)
    with do CallDropped have x: "x = Reported j (dropped sj)" "a' = with_sub j (\<lambda>sb. sb\<lparr>dropped := 0\<rparr>) a"
      by (auto simp: dropped_and_reset_def)
    have "find_sub i a' = (if i = j then Some (sb\<lparr>dropped := 0\<rparr>) else Some sb)"
      using f x(2) find_with_sub [of "\<lambda>sb. sb\<lparr>dropped := 0\<rparr>" i j a] by (cases "i = j") simp_all
    with x f Some show ?thesis by (auto simp: accounts_def)
  qed
next
  case (CallUnsubscribe j)
  with do f assms(3) accounts_refl show ?thesis by (auto simp: sub_close_def find_sub_def find_remove_other)
qed (use do f accounts_refl in \<open>auto simp: find_sub_def split: prod.splits dest!: audit_file_calls_keep\<close>)

lemma seen_append:
  "logged_of (x # xs) = logged_of [x] @ logged_of xs" "received_of i (x # xs) = received_of i [x] @ received_of i xs"
  "reported_of i (x # xs) = reported_of i [x] + reported_of i xs"
  by (cases x; simp)+

lemma audit_calls_accounts:
  assumes "audit_calls ks a w = (xs, a', w')" and "find_sub i a = Some sb" and "list_all (\<lambda>k. \<not> unsubscribes i k) ks"
  shows "\<exists>sb'. find_sub i a' = Some sb' \<and> accounts sb sb' (logged_of xs) (received_of i xs) (reported_of i xs)"
  using assms
proof (induction ks arbitrary: a w xs sb)
  case Nil
  with accounts_refl show ?case by auto
next
  case (Cons k ks)
  obtain x a1 w1 where d: "audit_do k a w = (x, a1, w1)" by (cases "audit_do k a w")
  with Cons.prems obtain ys where ys: "audit_calls ks a1 w1 = (ys, a', w')" "xs = x # ys" by (auto split: prod.splits)
  from audit_do_accounts [OF d Cons.prems(2)] Cons.prems(3) obtain s1 where
    s1: "find_sub i a1 = Some s1" "accounts sb s1 (logged_of [x]) (received_of i [x]) (reported_of i [x])" by auto
  from Cons.IH [OF ys(1) s1(1)] Cons.prems(3) obtain s2 where
    s2: "find_sub i a' = Some s2" "accounts s1 s2 (logged_of ys) (received_of i ys) (reported_of i ys)" by auto
  have "logged_of xs = logged_of [x] @ logged_of ys" "received_of i xs = received_of i [x] @ received_of i ys"
      "reported_of i xs = reported_of i [x] + reported_of i ys"
    unfolding ys(2) by (rule seen_append)+
  with accounts_trans [OF s1(2) s2(2)] s2(1) show ?case by simp
qed

text \<open>
  C37: from the moment it subscribes, whatever calls are made by whom, a subscriber receives records in
  the order they were logged and none twice, and every record logged is received, still in its channel, or
  counted in the drops, reported or yet to be reported.
\<close>

theorem subscriber_accounts:
  assumes "audit_typed a" and "audit_Subscribe n after a = ((i, backlog), a1)"
    and "audit_calls ks a1 w = (xs, a', w')" and "list_all (\<lambda>k. \<not> unsubscribes i k) ks"
  shows "\<exists>sb. find_sub i a' = Some sb \<and> subseq (received_of i xs @ sub_buf sb) (logged_of xs)
     \<and> int (length (logged_of xs)) = int (length (received_of i xs) + length (sub_buf sb)) + reported_of i xs + dropped sb"
proof -
  have "find (\<lambda>sb. sub_id sb = aw_next_sub a) (aw_subs a) = None"
    using assms(1) by (auto simp: audit_typed_def list_all_iff sub_typed_def find_None_iff)
  moreover have "find P xs = None \<Longrightarrow> find P (xs @ ys) = find P ys" for P and xs ys :: "subscription list"
    by (induction xs) (auto split: if_splits)
  ultimately obtain s0 where s0: "find_sub i a1 = Some s0" "sub_buf s0 = []" "dropped s0 = 0"
    using assms(2) by (auto simp: audit_Subscribe_def Let_def find_sub_def)
  from audit_calls_accounts [OF assms(3) s0(1) assms(4)] s0(2,3) show ?thesis by (auto simp: accounts_def)
qed

section \<open>Witnesses\<close>

text \<open>A ring of two and a subscriber with room for one: the second of two records is dropped.\<close>

definition ex_opened :: "(audit_err + audit_writer) \<times> world" where
  "ex_opened = audit_Open ''log'' 2 (ex_audit_world [])"

definition ex_calls :: "audit_call list" where
  "ex_calls = [CallLog ex_time_json 1 (ex_record 5 ''acme''), CallLog ex_time_json 2 (ex_record 6 ''acme''),
     CallReceive 0, CallDropped 0, CallRotate (\<lambda>t. ''x'') 3, CallLog ex_time_json 4 (ex_record 0 ''acme'')]"

lemma ex_opened_ok: "\<exists>a w. ex_opened = (Inr a, w)"
proof -
  have "is_ok (fst ex_opened)" by code_simp
  then show ?thesis by (metis is_ok_Inr prod.collapse)
qed

theorem audit_calls_typed_witness:
  "\<exists>a w xs a' w'. ex_opened = (Inr a, w) \<and> audit_calls (CallSubscribe 1 0 # ex_calls) a w = (xs, a', w')
     \<and> audit_typed a' \<and> ring_size (aw_ring a') = 2"
proof -
  obtain a w where o: "ex_opened = (Inr a, w)" using ex_opened_ok by blast
  obtain xs a' w' where c: "audit_calls (CallSubscribe 1 0 # ex_calls) a w = (xs, a', w')"
    by (cases "audit_calls (CallSubscribe 1 0 # ex_calls) a w")
  from audit_calls_typed [OF o [unfolded ex_opened_def] c]
  have "audit_typed a'" "ring_size (aw_ring a') = 2" by simp_all
  with o c show ?thesis by blast
qed

definition ex_seen :: "audit_seen list" where
  "ex_seen = (case ex_opened of
     (Inr a, w) \<Rightarrow> fst (audit_calls ex_calls (snd (audit_Subscribe 1 0 a)) w) | (Inl e, w) \<Rightarrow> [])"

lemma ex_seen_counts:
  "(length (logged_of ex_seen), length (received_of 0 ex_seen), reported_of 0 ex_seen) = (3, 1, 1)"
  by code_simp

theorem subscriber_accounts_witness:
  "\<exists>a' sb. find_sub 0 a' = Some sb \<and> subseq (received_of 0 ex_seen @ sub_buf sb) (logged_of ex_seen)
     \<and> int (length (sub_buf sb)) + dropped sb = 1"
proof -
  obtain a w where o: "ex_opened = (Inr a, w)" using ex_opened_ok by blast
  have t: "audit_typed a" by (rule audit_Open_typed [OF o [unfolded ex_opened_def]])
  obtain i backlog a1 where s: "audit_Subscribe 1 0 a = ((i, backlog), a1)"
    by (cases "audit_Subscribe 1 0 a") auto
  have "aw_next_sub a = 0"
    using o by (auto simp: ex_opened_def audit_Open_def Let_def split: if_splits prod.splits sum.splits
        dest!: open_file_keeps)
  with s have i: "i = 0" by (simp add: audit_Subscribe_def Let_def)
  obtain xs a' w' where c: "audit_calls ex_calls a1 w = (xs, a', w')" by (cases "audit_calls ex_calls a1 w")
  have xs: "xs = ex_seen" unfolding ex_seen_def o by (simp add: s c)
  have "list_all (\<lambda>k. \<not> unsubscribes i k) ex_calls" by (simp add: ex_calls_def)
  from subscriber_accounts [OF t s c this] ex_seen_counts show ?thesis by (auto simp: i xs)
qed

end
