(* ===== verification/Access.thy ===== *)
theory Access
  imports CommandFacts
begin

text \<open>
  Access end to end: connections, the handshake check of \<open>internal/mtls\<close> when they are made, and the requests
  they carry into the two planes (\<open>cmd/proxy/main.go\<close>). The handshake looks at the allowlist once; the admin
  plane looks at it again for every request, the order plane does not.
\<close>

section \<open>Connections\<close>

record access =
  ac_service :: service
  ac_conns :: "nat \<rightharpoonup> int list"

datatype access_event =
    Dial nat "int list"
  | SendOn nat http_client admin_env order_env admin_request
  | HangUp nat
  | Inside service_event

definition accepts :: "service \<Rightarrow> int list \<Rightarrow> bool" where
  "accepts s peers =
     (case ap_allow (sv_plane s) of None \<Rightarrow> False | Some al \<Rightarrow> is_ok (verify_connection al (map Some peers)))"

fun outside_requests :: "service_event \<Rightarrow> bool" where
  "outside_requests (Request _ _ _ _) = False"
| "outside_requests _ = True"

fun access_step :: "cmd_env \<Rightarrow> path \<Rightarrow> access \<Rightarrow> access_event \<Rightarrow> access" where
  "access_step V cp s (Dial i peers) =
     (if accepts (ac_service s) peers then s\<lparr>ac_conns := (ac_conns s)(i \<mapsto> peers)\<rparr> else s)"
| "access_step V cp s (SendOn i http E O' r) =
     (case ac_conns s i of
        None \<Rightarrow> s
      | Some peers \<Rightarrow>
          s\<lparr>ac_service := service_step V cp (ac_service s) (Request http E O' (r\<lparr>rq_peers := Some peers\<rparr>))\<rparr>)"
| "access_step V cp s (HangUp i) = s\<lparr>ac_conns := (ac_conns s)(i := None)\<rparr>"
| "access_step V cp s (Inside e) =
     (if outside_requests e then s\<lparr>ac_service := service_step V cp (ac_service s) e\<rparr> else s)"

definition role_now :: "service \<Rightarrow> int list \<Rightarrow> role" where
  "role_now s peers =
     (case ap_allow (sv_plane s) of None \<Rightarrow> RoleNone | Some al \<Rightarrow> peer_role al (Some (map Some peers)))"

lemma accepts_role: "accepts s peers \<longleftrightarrow> role_now s peers \<noteq> RoleNone"
  by (cases peers) (auto simp: accepts_def role_now_def is_ok_def verify_connection_def peer_role_def check_def
      split: option.splits)

section \<open>What a caller without the admin role can change\<close>

lemma log_files:
  assumes "audit_Log tj now r a w = (x, a', w')" and "aw_file a \<noteq> Some q"
  shows "files w' q = files w q"
  using assms
  by (auto simp: audit_Log_def encode_record_def Let_def split: option.splits prod.splits sum.splits
      dest: file_write_frame(1) [OF _ not_sym])

lemma serve_order_files:
  assumes "serve_order O' r p = (res, p')" and "\<forall>a. ap_audit p = Some a \<longrightarrow> aw_file a \<noteq> Some q"
  shows "files (ap_world p') q = files (ap_world p) q"
  using assms
  by (auto simp: serve_order_def serve_http_def Let_def split: prod.splits option.splits dest!: log_files)

lemma on_swap_none: "ap_updater (sv_plane s) = u \<Longrightarrow> on_swap u s = s"
  by (simp add: on_swap_def Let_def option.map_id)

lemma serve_order_allow: "serve_order O' r p = (res, p') \<Longrightarrow> ap_allow p' = ap_allow p"
  by (auto simp: serve_order_def split: prod.splits)

text \<open>All of the service but the audit log and the counters, and every file but the log's own.\<close>

definition same_but_logs :: "service \<Rightarrow> service \<Rightarrow> bool" where
  "same_but_logs s s' =
     (s' = s\<lparr>sv_plane := sv_plane s'\<rparr>
      \<and> ap_updater (sv_plane s') = ap_updater (sv_plane s) \<and> ap_allow (sv_plane s') = ap_allow (sv_plane s)
      \<and> (\<forall>q. (\<forall>a. ap_audit (sv_plane s) = Some a \<longrightarrow> aw_file a \<noteq> Some q) \<longrightarrow>
           files (ap_world (sv_plane s')) q = files (ap_world (sv_plane s)) q))"

lemma same_but_logs_refl: "same_but_logs s s"
  by (simp add: same_but_logs_def)

lemma guard_keeps:
  assumes "caller_role E r p = Some role" and "role \<noteq> RoleAdmin"
  shows "snd (admin_serve E r p) = p"
proof (cases "route_admin (rq_method r) (ar_escaped r)")
  case (Routed e)
  have "guard E r e p = (None, write_json_error 403 ''admin role required'' new_response, p)"
    by (rule guard_refuses [OF assms])
  with Routed show ?thesis by (simp add: admin_serve_def mux_serve_def answer_def)
qed (simp_all add: admin_serve_def mux_serve_def answer_def)

text \<open>
  C10: a connection whose certificate does not have the admin role when a request arrives, whatever the
  request and whichever plane it reaches, leaves the live router, the updater, the allowlist, the
  configuration, the egress filter, the binary receiver and every file but the audit log as they were.
\<close>

theorem only_admins_change_service:
  assumes "ac_conns s i = Some peers" and "role_now (ac_service s) peers \<noteq> RoleAdmin"
    and "ap_allow (sv_plane (ac_service s)) \<noteq> None"
  shows "same_but_logs (ac_service s) (ac_service (access_step V cp s (SendOn i http E O' r)))"
proof -
  let ?r = "r\<lparr>rq_peers := Some peers\<rparr>" and ?v = "ac_service s"
  obtain al where al: "ap_allow (sv_plane ?v) = Some al" using assms(3) by blast
  have "same_but_logs ?v (serve_any V http E O' ?r ?v)"
  proof (cases "outer_mux (ar_escaped ?r)")
    case ToAdmin
    let ?E = "admin_options V http ?v E"
    have role: "caller_role ?E ?r (sv_plane ?v) = Some (role_now ?v peers)"
      using al by (simp add: caller_role_def admin_options_def role_now_def)
    have "snd (admin_serve ?E ?r (sv_plane ?v)) = sv_plane ?v" by (rule guard_keeps [OF role assms(2)])
    then have "serve_any V http E O' ?r ?v = ?v"
      using ToAdmin by (simp add: serve_any_def on_swap_none)
    then show ?thesis by (simp add: same_but_logs_refl)
  next
    case ToOrder
    obtain res p' where o': "serve_order O' ?r (sv_plane ?v) = (res, p')" by (cases "serve_order O' ?r (sv_plane ?v)")
    with serve_order_effect [OF o'] serve_order_allow [OF o'] serve_order_files [OF o'] ToOrder show ?thesis
      by (simp add: serve_any_def same_but_logs_def same_parts_def)
  qed (simp add: serve_any_def same_but_logs_refl)
  with assms(1) show ?thesis by simp
qed

section \<open>Revocation\<close>

text \<open>
  C11: a serial taken off both lists can make no new connection, but what it sends to the order plane
  on a connection it already has is answered, forwarded and recorded exactly as before.
\<close>

theorem revoked_connection_keeps_trading:
  assumes "peer_role al (Some (map Some peers)) = RoleNone" and "ac_conns s i = Some peers"
    and "outer_mux (ar_escaped r) = ToOrder"
    and "revoked = s\<lparr>ac_service := (ac_service s)\<lparr>sv_plane := (sv_plane (ac_service s))\<lparr>ap_allow := Some al\<rparr>\<rparr>\<rparr>"
  shows "access_step V cp revoked (Dial k peers) = revoked
     \<and> fst (serve_order O' (r\<lparr>rq_peers := Some peers\<rparr>) (sv_plane (ac_service revoked)))
         = fst (serve_order O' (r\<lparr>rq_peers := Some peers\<rparr>) (sv_plane (ac_service s)))
     \<and> ac_service (access_step V cp revoked (SendOn i http E O' r))
         = (let s' = ac_service (access_step V cp s (SendOn i http E O' r)) in
            s'\<lparr>sv_plane := (sv_plane s')\<lparr>ap_allow := Some al\<rparr>\<rparr>)"
proof -
  have "\<not> accepts (ac_service revoked) peers"
    using assms(1,4) by (simp add: accepts_role role_now_def)
  moreover have "serve_order O' q (p\<lparr>ap_allow := Some al\<rparr>)
      = (fst (serve_order O' q p), (snd (serve_order O' q p))\<lparr>ap_allow := Some al\<rparr>)" for q p
    by (simp add: serve_order_def split: prod.split)
  ultimately show ?thesis
    using assms by (simp add: serve_any_def Let_def)
qed

section \<open>Witnesses\<close>

text \<open>A started service with serial 7 on the order list, and its open connection.\<close>

definition ex_access :: "service \<Rightarrow> access" where
  "ex_access s = \<lparr>ac_service = s, ac_conns = [0 \<mapsto> [7]]\<rparr>"

lemma ex_role_seven:
  "case fst (start_service ex_cmd_env ex_service_config (ex_world [])) of
     Inr s \<Rightarrow> role_now s [7] = RoleOrder | Inl _ \<Rightarrow> False"
  by code_simp

theorem only_admins_change_service_witness:
  "\<exists>s w. start_service ex_cmd_env ex_service_config (ex_world []) = (Inr s, w)
     \<and> (\<forall>O'. same_but_logs s (ac_service (access_step ex_cmd_env [] (ex_access s)
          (SendOn 0 offline ex_env O' (ex_admin_request ''POST'' ''/admin/client-serials'' [] 9 ''{}'')))))"
proof -
  obtain s w where st: "start_service ex_cmd_env ex_service_config (ex_world []) = (Inr s, w)" by (rule ex_service)
  with ex_role_seven have r: "role_now (ac_service (ex_access s)) [7] = RoleOrder" by (simp add: ex_access_def)
  then have "ap_allow (sv_plane (ac_service (ex_access s))) \<noteq> None"
    by (auto simp: role_now_def split: option.splits)
  from only_admins_change_service [OF _ _ this, of 0 "[7]"] r
  have "same_but_logs s (ac_service (access_step ex_cmd_env [] (ex_access s)
      (SendOn 0 offline ex_env O' (ex_admin_request ''POST'' ''/admin/client-serials'' [] 9 ''{}''))))" for O'
    by (simp add: ex_access_def del: access_step.simps)
  with st show ?thesis by blast
qed

definition ex_revoked :: "service \<Rightarrow> access" where
  "ex_revoked s = (ex_access s)\<lparr>ac_service := s\<lparr>sv_plane := (sv_plane s)
     \<lparr>ap_allow := Some \<lparr>al_order = Some {}, al_admin = Some {''9''}\<rparr>\<rparr>\<rparr>\<rparr>"

theorem revoked_connection_keeps_trading_witness:
  "\<exists>s w. start_service ex_cmd_env ex_service_config (ex_world []) = (Inr s, w)
     \<and> access_step ex_cmd_env [] (ex_revoked s) (Dial 1 [7]) = ex_revoked s
     \<and> (\<forall>O'. fst (serve_order O' (ex_admin_request ''POST'' ''/orders'' [] 7 []) (sv_plane (ac_service (ex_revoked s))))
          = fst (serve_order O' (ex_admin_request ''POST'' ''/orders'' [] 7 []) (sv_plane s)))"
proof -
  obtain s w where st: "start_service ex_cmd_env ex_service_config (ex_world []) = (Inr s, w)" by (rule ex_service)
  let ?al = "\<lparr>al_order = Some {}, al_admin = Some {''9''}\<rparr>" and ?r = "ex_admin_request ''POST'' ''/orders'' [] 7 []"
  have "int_str 7 = ''7''" by code_simp
  then have al: "peer_role ?al (Some (map Some [7])) = RoleNone"
    by (simp add: peer_role_def classify_def listed_def)
  have c: "ac_conns (ex_access s) 0 = Some [7]" by (simp add: ex_access_def)
  have m: "outer_mux (ar_escaped ?r) = ToOrder" by code_simp
  have v: "ex_revoked s = (ex_access s)\<lparr>ac_service := (ac_service (ex_access s))
      \<lparr>sv_plane := (sv_plane (ac_service (ex_access s)))\<lparr>ap_allow := Some ?al\<rparr>\<rparr>\<rparr>"
    by (simp add: ex_revoked_def ex_access_def)
  have r: "?r\<lparr>rq_peers := Some [7]\<rparr> = ?r" by (simp add: ex_admin_request_def)
  have s: "ac_service (ex_access s) = s" by (simp add: ex_access_def)
  have k: "access_step ex_cmd_env [] (ex_revoked s) (Dial 1 [7]) = ex_revoked s
      \<and> fst (serve_order O' ?r (sv_plane (ac_service (ex_revoked s)))) = fst (serve_order O' ?r (sv_plane s))" for O'
    using revoked_connection_keeps_trading [OF al c m v, of ex_cmd_env "[]" 1 O'] unfolding r s by blast
  with st show ?thesis by blast
qed

end
