(* ===== verification/CompareFacts.thy ===== *)
theory CompareFacts
  imports AdminServerFacts DiffFacts
begin

text \<open>
  What the comparison of the admin tool shows (\<open>diffHandler\<close> of \<open>tools/admin-ui/diff.go\<close>): the bundle the
  build produced, the snapshot on disk, and a diff that is a patch from one to the other.
\<close>

text \<open>What a response says of the two files it compared.\<close>

definition shows_files :: "deploy_config \<Rightarrow> path \<Rightarrow> world \<Rightarrow> diff_resp \<Rightarrow> bool" where
  "shows_files c built w d =
     (content_of w built = Some (dr_current d)
      \<and> content_of w (snapshot_path c) = (if dr_no_previous d then None else Some (dr_previous d))
      \<and> (dr_no_previous d \<longrightarrow> dr_previous d = []) \<and> dr_previous_path d = snapshot_path c)"

lemma os_read_file_missing_inv: "os_read_file p w = (Inl NotExist, w') \<Longrightarrow> content_of w p = None"
  by (cases w rule: draw_cases) (auto simp: os_read_file_def content_of_def split: option.splits)

lemma diff_texts_shows:
  assumes "diff_texts E c built w = (Inr d, w')"
  shows "shows_files c built w' d \<and> patch (dr_previous d) (dr_unified d) = Some (dr_current d)"
proof -
  have names: "eol \<notin> set ''(no previous)''" "eol \<notin> set ''current bundle''"
      "eol \<notin> set ''last-published bundle.yaml''" "eol \<notin> set ''current bundle.yaml''"
    by (simp_all add: eol_def)
  obtain r1 w1 where 1: "os_read_file built w = (r1, w1)" by (cases "os_read_file built w")
  obtain r2 w2 where 2: "os_read_file (snapshot_path c) w1 = (r2, w2)" by (cases "os_read_file (snapshot_path c) w1")
  have f: "files w1 = files w" "files w2 = files w" using reads_frame(1) [OF 1] reads_frame(1) [OF 2] by simp_all
  from assms 1 2 obtain cur where cur: "r1 = Inr cur" by (cases r1) (auto simp: diff_texts_def)
  have c: "content_of w2 built = Some cur"
    using os_read_file_ok [of built w] 1 cur f by (simp add: content_of_def)
  show ?thesis
  proof (cases r2)
    case (Inl e)
    with assms 1 2 cur have e: "e = NotExist" by (cases e) (auto simp: diff_texts_def)
    with os_read_file_missing_inv [of "snapshot_path c" w1] 2 Inl f
    have "content_of w2 (snapshot_path c) = None" by (simp add: content_of_def)
    with assms 1 2 cur Inl e c patch_unified [OF names(1,2), of "[]" cur] show ?thesis
      by (auto simp: diff_texts_def shows_files_def)
  next
    case (Inr prev)
    with os_read_file_ok [of "snapshot_path c" w1] 2 f
    have "content_of w2 (snapshot_path c) = Some prev" by (simp add: content_of_def)
    with assms 1 2 cur Inr c patch_unified [OF names(3,4), of prev cur] show ?thesis
      by (auto simp: diff_texts_def shows_files_def)
  qed
qed

lemma diff_in_texts:
  assumes "diff_in E cfgdir c dir w = (Inr d, w')"
  obtains w1 where "diff_texts E c (path_join [dir, ''bundle.yaml'']) w1 = (Inr d, w')"
  using assms by (auto simp: diff_in_def Let_def split: prod.splits sum.splits option.splits)

text \<open>
  A comparison that answers 200 shows, as the current text, the bundle the build wrote into the
  temporary directory, as the previous one, the snapshot on disk or nothing when there is none, and a unified
  diff that, read back as a patch, turns the previous text into the current one.
\<close>

theorem comparison_patches:
  assumes "diff_handle E cfgdir c w = (r, w')" and "status_of r = Some 200"
  shows "\<exists>dir d w1. pu_mkdtemp E w = Inr dir \<and> r = ui_json 200 (diff_resp_json d)
     \<and> shows_files c (path_join [dir, ''bundle.yaml'']) w1 d \<and> w' = os_remove_all dir w1
     \<and> patch (dr_previous d) (dr_unified d) = Some (dr_current d)"
proof -
  have no: "status_of (ui_err 500 m) \<noteq> Some 200" for m
    by (simp add: ui_err_def ui_json_def new_response_def)
  with assms obtain dir where dir: "pu_mkdtemp E w = Inr dir"
    by (auto simp: diff_handle_def split: sum.splits)
  obtain x w1 where x: "diff_in E cfgdir c dir w = (x, w1)" by (cases "diff_in E cfgdir c dir w")
  from assms no dir x obtain d where d: "x = Inr d"
    by (cases x) (auto simp: diff_handle_def)
  from x d have "diff_in E cfgdir c dir w = (Inr d, w1)" by simp
  then obtain w2 where "diff_texts E c (path_join [dir, ''bundle.yaml'']) w2 = (Inr d, w1)"
    by (rule diff_in_texts)
  from diff_texts_shows [OF this] dir x d assms(1) show ?thesis
    by (intro exI [of _ dir] exI [of _ d] exI [of _ w1]) (auto simp: diff_handle_def)
qed

text \<open>A build that writes a two-line bundle into the temporary directory, compared with the snapshot.\<close>

definition ex_cmp_env :: pub_env where
  "ex_cmp_env = (ex_pub_env None)\<lparr>pu_run := (\<lambda>k w. (\<lparr>cr_lines = [], cr_stderr = [], cr_err = None\<rparr>,
     publish ((files w)(''/tmp/d/bundle.yaml'' \<mapsto> \<lparr>content = ''old'' @ [eol] @ ''new'', mode = 416\<rparr>)) w))\<rparr>"

theorem comparison_patches_witness:
  "\<exists>d w'. diff_handle ex_cmp_env ''/w/src/cfg'' ex_deploy ex_pub_world = (ui_json 200 (diff_resp_json d), w')
     \<and> patch (dr_previous d) (dr_unified d) = Some (dr_current d)"
proof -
  obtain r w' where h: "diff_handle ex_cmp_env ''/w/src/cfg'' ex_deploy ex_pub_world = (r, w')"
    by (cases "diff_handle ex_cmp_env ''/w/src/cfg'' ex_deploy ex_pub_world")
  have "status_of (fst (diff_handle ex_cmp_env ''/w/src/cfg'' ex_deploy ex_pub_world)) = Some 200" by code_simp
  with h have st: "status_of r = Some 200" by simp
  from comparison_patches [OF h st] h show ?thesis by auto
qed

end
