(* ===== verification/Spec2Isabelle.thy ===== *)
theory Spec2Isabelle
  imports ProfileFacts BundleUpdFacts BinUpd AuditFacts Metrics Mtls ProxyFacts Egress Config
    AdminFacts CommandFacts DiffFacts BrokersFacts BuildToolsFacts AdminServerFacts AdminCurl
    PollRaces UploadSteps StoreRaces AuditCalls Access CompareFacts
begin

text \<open>
  A model of the Tesseract proxy: a service that forwards a trading client's order requests to an
  allowlisted broker, and the programs around it. Go sources are under \<open>src/tesseract-proxy\<close>, its
  egress companion under \<open>src/tesseract-proxy-egress\<close>, the operator's desktop tool under
  \<open>src/tools/admin-ui\<close>.

  \<^bold>\<open>How the parts interact.\<close> A client connects with a certificate whose serial number must be on an
  allowlist (\<open>internal/mtls\<close>). The order plane (\<open>internal/proxy\<close>) looks the named broker, method and path
  up in the live router, forwards a match to the broker's host, and records the outcome in the audit
  log (\<open>internal/audit\<close>) and the counters (\<open>internal/metrics\<close>). The router is built from a signed bundle
  (\<open>internal/profile\<close>), which the bundle updater (\<open>internal/bundleupd\<close>) polls, verifies, promotes on disk
  and publishes through a holder. The binary updater (\<open>internal/binupd\<close>) installs signed binaries. The
  egress filter (\<open>internal/egress\<close>) turns the hosts of the bundle into a firewall ruleset. The admin plane
  (\<open>internal/admin\<close>) serves the state of all this, and changes some of it, for callers with the admin
  role. \<open>cmd/proxy\<close> puts the parts together and reacts to signals; \<open>internal/config\<close> and \<open>internal/log\<close>
  check the operator's settings. The admin tool edits broker files, compares and publishes the bundle
  that \<open>cmd/build-bundle\<close> builds and signs, and shows the answers of the admin plane.

  \<^bold>\<open>Theories.\<close>
  \<^item> \<open>Prelude\<close>: errors as sums (\<open>check\<close>, \<open>andthen\<close>, \<open>wrap_err\<close>), last elements of a list, map loops.
  \<^item> \<open>GoStrings\<close>, \<open>GoNet\<close>, \<open>GoUrl\<close>, \<open>Json\<close>, \<open>Values\<close>: what the program uses of Go's \<open>strings\<close>, \<open>strconv\<close>,
    \<open>unicode/utf8\<close>, \<open>net\<close>, \<open>net/url\<close>, \<open>path\<close> and \<open>encoding/json\<close>, on byte strings, and trees of untyped values.
  \<^item> \<open>FileSystem\<close>, \<open>Staging\<close>: system calls that may fail at any point, with the history of visible states;
    properties that hold at every instant (\<open>stays\<close>); atomic writes; the contract of a rotation (locale
    \<open>rotation\<close>), which both updaters interpret.
  \<^item> \<open>Semver\<close>, \<open>Bundle\<close>, \<open>Router\<close>, \<open>Load\<close> (\<open>profile.go\<close>, \<open>validate.go\<close>, \<open>router.go\<close>, \<open>holder.go\<close>, \<open>load.go\<close>)
    and \<open>ProfileFacts\<close>: a declarative reading of valid bundles (\<open>bundle_ok\<close>), of path templates
    (\<open>instantiates\<close>) and of the allowlist (\<open>allowed\<close>), and the code's equivalence with them. The locale
    \<open>allowlist\<close> is what the order plane relies on.
  \<^item> \<open>BundleUpd\<close>, \<open>BundleUpdFacts\<close> (\<open>updater.go\<close>, \<open>http_fetcher.go\<close>): one poll as a function on the updater's
    state and the world, the polling loop as a sequence of events; what a swap guarantees, what a
    failure leaves, versions that only rise. The locale \<open>fetcher\<close> is the contract of a fetcher.
  \<^item> \<open>BinUpd\<close> (\<open>binupd.go\<close>): apply and rollback, and where the binary is after each failure.
  \<^item> \<open>Interleave\<close>: goroutines as jobs that step in any order on a shared state, their reachable states, and
    what a step owes so that an invariant survives every order (locale \<open>job_contract\<close>). \<open>PollSteps\<close>,
    \<open>PollRaces\<close> (\<open>updater.go\<close>) and \<open>UploadSteps\<close> (\<open>binupd.go\<close>) interpret it: one poll, upload or rollback
    as its system calls and locked sections, equal to the functions above when left alone; what any
    interleaving keeps (only signed things go live), and what it breaks (versions can go back, the bytes
    promoted need not be those verified, the current binary can be lost).
  \<^item> \<open>BoundedLog\<close>, \<open>AuditLog\<close>, \<open>AuditFacts\<close> (\<open>audit.go\<close>): the ring refines the last elements of the list of
    records (locale \<open>bounded_log\<close>); file contents, subscribers, failing writes, rotation. \<open>AuditCalls\<close>: any
    sequence of calls keeps the shape of the writer, and what one subscriber gets, finds dropped or has pending.
  \<^item> \<open>Metrics\<close> (\<open>metrics.go\<close>): 64-bit words; every counter is its number of events modulo 2 to the 64th.
  \<^item> \<open>Mtls\<close> (\<open>mtls.go\<close>, \<open>loghook.go\<close>): roles as a linear order, serials, the two cells of the allowlist and
    the interleavings of a reader with a replacement.
  \<^item> \<open>Proxy\<close>, \<open>ProxyFacts\<close> (\<open>handler.go\<close>): headers, the HTTP/2 response writer, the handler with its panics
    and deferred functions; what is forwarded, what the client sees, what is recorded.
  \<^item> \<open>Egress\<close> (\<open>egress.go\<close>, \<open>applier.go\<close>, \<open>tesseract-proxy-egress/main.go\<close>): resolution, rendering and a
    meaning for rulesets; agreement with the companion program.
  \<^item> \<open>Config\<close> (\<open>config.go\<close>, \<open>log.go\<close>): validation and its declarative reading, for every map order.
  \<^item> \<open>Admin\<close>, \<open>AdminFacts\<close> (\<open>admin.go\<close>): the routes, the role guard, every handler; who gets what, what
    posting serials does, what a range of the log shows (its line ring is another \<open>bounded_log\<close>).
  \<^item> \<open>Command\<close>, \<open>CommandFacts\<close> (\<open>cmd/proxy/main.go\<close>): start-up, the service as one state with its events
    (requests, polls, signals, files written by others) and its reachable states, rollbacks; the invariant
    that ties the live router and the egress filter to one valid bundle. \<open>Access\<close>: connections in front of
    the service; what a caller without the admin role can change, and what revoking a serial does not stop.
  \<^item> \<open>Diff\<close>, \<open>DiffFacts\<close> (\<open>diff.go\<close>): the table of longest common subsequences, hunks, the unified text; the
    table against its specification, minimality, and the text read back as a patch. \<open>CompareFacts\<close>: what the
    comparison of the admin tool answers.
  \<^item> \<open>Brokers\<close>, \<open>BrokersFacts\<close> (\<open>brokers.go\<close>): the store of broker files; confinement to its directory,
    files that are complete and valid at every instant, reading back what was created. \<open>StoreRaces\<close>: writes
    that overlap, over names and inodes; different brokers do not disturb each other, one broker's file can tear.
  \<^item> \<open>BuildTools\<close>, \<open>BuildToolsFacts\<close> (\<open>cmd/build-bundle\<close>, \<open>cmd/verify-bundle\<close>): building and signing, and
    that the loader accepts the result. \<open>AdminCurl\<close> (\<open>cmd/admin-curl\<close>).
  \<^item> \<open>AdminUi\<close>, \<open>Publish\<close>, \<open>AdminServer\<close>, \<open>AdminServerFacts\<close> (\<open>deploy.go\<close>, \<open>proxyclient.go\<close>, \<open>audit.go\<close>,
    \<open>publish.go\<close>, \<open>server.go\<close>, \<open>main.go\<close>): settings, the client of the proxy, publishing split at its external
    commands so that other requests interleave, routes and start-up; mutual exclusion, the lock given
    back, the search for the configuration ends, answers pass through unchanged.
  \<^item> \<open>Fixtures\<close>: concrete inputs on which the theorems with hypotheses are applied.

  \<^bold>\<open>Conventions.\<close> Strings are lists of bytes. An error is \<open>Inl\<close> of a value that says which of the
  source's errors it is. System calls draw their failures from the world, so a theorem about all
  worlds covers every pattern of failures; a failing call changes nothing. Time and random names come
  from outside. Recursion is structural or has a measure; no fuel is used. The one loop without a bound of
  its own, the walk up the directories, is a \<open>partial_function\<close> whose returning is a theorem. Where Go
  ranges over a map the order is a parameter.

  \<^bold>\<open>Parameters\<close> (no assumption on them unless a theorem states one): cryptography and key parsing, the
  YAML and JSON decoders, the schema compiler, \<open>url.Parse\<close>, the HTTP client, server and transport, name
  resolution, \<open>nft\<close> and the commands the admin tool runs, directory listings, the texts of instants.

  \<^bold>\<open>Not modelled\<close>: the TLS stack and X.509; goroutine scheduling beyond the interleavings named above
  (polls, uploads, writes of broker files, publishes and replacements of the allowlist are split into steps, all
  other handlers are one step each; in \<open>StoreRaces\<close> a failing write writes nothing); the wording of
  log lines of \<open>slog\<close>; the pages embedded in the admin tool (\<open>embed.go\<close>), the launch of a browser, and
  cancellation of a command by its HTTP client.
\<close>

end
